(* ===== verification/Prelude.thy ===== *)
theory Prelude
  imports Main "HOL-Library.Word"
begin

text \<open>
  The vocabulary the component theories share: how a call of the shim can fail, how the
  platform the shim is compiled for enters the model, the C \<open>switch\<close> over a table of
  labels, and the contract of a pair of inverse tables.
\<close>

unbundle bit_operations_syntax

section \<open>Collections of facts\<close>

named_theorems result_simps \<open>evaluation of fallible code\<close>
named_theorems buffer_simps \<open>reading and writing byte buffers\<close>

section \<open>Failures\<close>

text \<open>
  \<open>Runtime_error fmt args\<close> is the exception thrown by \<open>handle_runtime_error\<close>
  (src/src/common.cpp) with its format string and integer arguments; \<open>Aborted msg\<close> is a
  call of \<open>abort()\<close> after the message was printed; \<open>Memory_fault\<close> is an access
  outside the bytes of an object, which C++ leaves undefined.
\<close>

datatype fault =
    Runtime_error string "int list"
  | Aborted string
  | Memory_fault

type_synonym 'a result = "fault + 'a"

fun bindR :: "'a result \<Rightarrow> ('a \<Rightarrow> 'b result) \<Rightarrow> 'b result" where
  "bindR (Inl e) k = Inl e"
| "bindR (Inr a) k = k a"

declare bindR.simps [result_simps]

lemma bindR_assoc [result_simps]: "bindR (bindR m f) g = bindR m (\<lambda>x. bindR (f x) g)"
  by (cases m) simp_all

lemma bindR_return [simp, result_simps]: "bindR m Inr = m" "bindR m (\<lambda>x. Inr x) = m"
  by (cases m; simp)+

lemma bindR_Inr_iff: "bindR m k = Inr b \<longleftrightarrow> (\<exists>a. m = Inr a \<and> k a = Inr b)"
  by (cases m) simp_all

lemma bindR_cong [fundef_cong]:
  "m = m' \<Longrightarrow> (\<And>a. m' = Inr a \<Longrightarrow> k a = k' a) \<Longrightarrow> bindR m k = bindR m' k'"
  by (cases m') simp_all

section \<open>Stateful code that can fail\<close>

text \<open>
  A piece of code over a state \<open>'s\<close>: it returns or fails, and leaves a state behind in
  both cases. \<open>tryA\<close> is \<open>try \<dots> catch (std::exception&)\<close>, which stops the shim's own
  exceptions only.
\<close>

type_synonym ('s, 'a) act = "'s \<Rightarrow> 'a result \<times> 's"

definition retA :: "'a \<Rightarrow> ('s, 'a) act" where
  "retA a s = (Inr a, s)"

definition liftA :: "'a result \<Rightarrow> ('s, 'a) act" where
  "liftA r s = (r, s)"

definition modifyA :: "('s \<Rightarrow> 's) \<Rightarrow> ('s, unit) act" where
  "modifyA f s = (Inr (), f s)"

definition getsA :: "('s \<Rightarrow> 'a) \<Rightarrow> ('s, 'a) act" where
  "getsA f s = (Inr (f s), s)"

definition bindA :: "('s, 'a) act \<Rightarrow> ('a \<Rightarrow> ('s, 'b) act) \<Rightarrow> ('s, 'b) act" where
  "bindA m k s = (case m s of (Inl e, s') \<Rightarrow> (Inl e, s') | (Inr a, s') \<Rightarrow> k a s')"

definition tryA :: "('s, 'a) act \<Rightarrow> ('s, 'a) act \<Rightarrow> ('s, 'a) act" where
  "tryA m handler s =
     (case m s of (Inl (Runtime_error fmt args), s') \<Rightarrow> handler s' | r \<Rightarrow> r)"

lemma act_simps [simp, result_simps]:
  "retA a s = (Inr a, s)" "liftA r t = (r, t)" "modifyA f u = (Inr (), f u)" "getsA g v = (Inr (g v), v)"
  by (simp_all add: retA_def liftA_def modifyA_def getsA_def)

lemma bindA_run [result_simps]:
  "m s = (Inr a, s') \<Longrightarrow> bindA m k s = k a s'"
  "m s = (Inl e, s') \<Longrightarrow> bindA m k s = (Inl e, s')"
  by (simp_all add: bindA_def)

lemma bindA_simps [simp, result_simps]:
  "bindA (retA a) k1 = k1 a" "bindA (liftA (Inr b)) k2 = k2 b" "bindA (modifyA f) k3 s = k3 () (f s)"
  "bindA (getsA g) k4 t = k4 (g t) t" "bindA (liftA (Inl e)) k5 u = (Inl e, u)"
  by (simp_all add: bindA_def fun_eq_iff)

lemma tryA_run [result_simps]:
  "m s = (Inr a, s') \<Longrightarrow> tryA m g s = (Inr a, s')"
  "m s = (Inl (Runtime_error fmt args), s') \<Longrightarrow> tryA m g s = g s'"
  by (simp_all add: tryA_def)

lemma bindA_assoc: "bindA (bindA m f) g = bindA m (\<lambda>x. bindA (f x) g)"
  by (auto simp: bindA_def fun_eq_iff split: prod.splits sum.splits)

section \<open>Platforms and host headers\<close>

text \<open>
  The preprocessor's view of the host: which operating system the shim is compiled for, and
  the values of the macros its system headers define, looked up by the macro's name. The
  headers are not part of the repository, so every definition that uses one of their macros
  takes this valuation as a parameter.
\<close>

datatype os = Linux | Apple | FreeBSD

text \<open>The processor architecture of the guest; \<open>__LP64__\<close> is defined on the 64-bit ones.\<close>

datatype arch = X86_64 | Aarch64 | I386 | Arm

fun is_lp64 :: "arch \<Rightarrow> bool" where
  "is_lp64 X86_64 = True"
| "is_lp64 Aarch64 = True"
| "is_lp64 I386 = False"
| "is_lp64 Arm = False"

type_synonym headers = "string \<Rightarrow> int"
type_synonym u32 = "32 word"
type_synonym u64 = "64 word"

abbreviation hmask :: "headers \<Rightarrow> string \<Rightarrow> u32" where
  "hmask h m \<equiv> word_of_int (h m)"

section \<open>The C switch statement\<close>

text \<open>
  A switch whose cases all return a constant is a table; the branch taken is the first row
  with the scrutinee's label, \<open>None\<close> standing for the \<open>default\<close> branch. In
  \<open>host_case\<close> the labels are host macros, in \<open>guest_case\<close> the results are. C++ rejects
  a switch with two equal labels, so that the macros of a \<open>host_case\<close> have different values
  is what compiling the code establishes.
\<close>

definition host_case :: "headers \<Rightarrow> (string \<times> 'v) list \<Rightarrow> int \<Rightarrow> 'v option" where
  "host_case h rows k = map_of (map (\<lambda>(m, v). (h m, v)) rows) k"

definition guest_case :: "headers \<Rightarrow> ('k \<times> string) list \<Rightarrow> 'k \<Rightarrow> int option" where
  "guest_case h rows k = map_option h (map_of rows k)"

text \<open>A \<open>default\<close> branch that throws through \<open>handle_runtime_error\<close>.\<close>

definition or_throw :: "'v option \<Rightarrow> string \<Rightarrow> int list \<Rightarrow> 'v result" where
  "or_throw r fmt args = (case r of Some v \<Rightarrow> Inr v | None \<Rightarrow> Inl (Runtime_error fmt args))"

lemma or_throw_simps [simp]:
  "or_throw (Some v) fmt args = Inr v"
  "or_throw None fmt args = Inl (Runtime_error fmt args)"
  by (simp_all add: or_throw_def)

lemma or_throw_Inr_iff [simp]: "or_throw r fmt args = Inr v \<longleftrightarrow> r = Some v"
  by (cases r) simp_all

lemma or_throw_Inl_iff [simp]:
  "or_throw r fmt args = Inl e \<longleftrightarrow> r = None \<and> e = Runtime_error fmt args"
  by (cases r) auto

lemma host_case_simps [simp]:
  "host_case h [] k = None"
  "host_case h ((m, v) # rows) k = (if k = h m then Some v else host_case h rows k)"
  by (simp_all add: host_case_def)

lemma guest_case_simps [simp]:
  "guest_case h [] k = None"
  "guest_case h ((l, m) # rows) k = (if k = l then Some (h m) else guest_case h rows k)"
  by (simp_all add: guest_case_def)

section \<open>Interface: a pair of inverse translation tables\<close>

text \<open>
  Most components translate a code in both directions with one switch each. What a client
  relies on is that the two tables list the same pairs, each macro and each code once.
\<close>

locale code_table =
  fixes enc :: "(string \<times> 'b) list" and dec :: "('b \<times> string) list"
  assumes macros_once: "distinct (map fst enc)"
    and codes_once: "distinct (map fst dec)"
    and same_pairs: "set dec = prod.swap ` set enc"
begin

abbreviation macros :: "string set" where
  "macros \<equiv> fst ` set enc"

lemma in_dec_iff: "(b, m) \<in> set dec \<longleftrightarrow> (m, b) \<in> set enc"
  unfolding same_pairs by force

lemma codes_eq: "fst ` set dec = snd ` set enc"
  unfolding same_pairs by force

lemma guest_case_eq: "guest_case h dec b = Some v \<longleftrightarrow> (\<exists>m. (m, b) \<in> set enc \<and> v = h m)"
  by (auto simp: guest_case_def in_dec_iff codes_once)

lemma guest_case_None: "guest_case h dec b = None \<longleftrightarrow> b \<notin> snd ` set enc"
  by (simp add: guest_case_def map_of_eq_None_iff codes_eq)

lemma host_case_hit:
  assumes "inj_on h macros" and "(m, b) \<in> set enc"
  shows "host_case h enc (h m) = Some b"
proof -
  have "inj_on h (set (map fst enc))" using assms(1) by simp
  then have "distinct (map h (map fst enc))" using macros_once by (simp only: distinct_map)
  then have "distinct (map fst (map (\<lambda>(m, v). (h m, v)) enc))"
    by (simp add: comp_def case_prod_beta)
  then show ?thesis using assms(2) unfolding host_case_def by (force intro: map_of_is_SomeI)
qed

lemma host_case_eq:
  assumes "inj_on h macros"
  shows "host_case h enc k = Some b \<longleftrightarrow> (\<exists>m. (m, b) \<in> set enc \<and> k = h m)"
proof
  assume "host_case h enc k = Some b"
  then show "\<exists>m. (m, b) \<in> set enc \<and> k = h m"
    by (force simp: host_case_def dest: map_of_SomeD)
qed (use host_case_hit [OF assms] in auto)

lemma host_case_None: "host_case h enc k = None \<longleftrightarrow> k \<notin> h ` macros"
  by (force simp: host_case_def map_of_eq_None_iff)

text \<open>Encoding a decoded code, and decoding an encoded macro, give it back.\<close>

lemma guest_roundtrip:
  "inj_on h macros \<Longrightarrow> guest_case h dec b = Some v \<Longrightarrow> host_case h enc v = Some b"
  by (auto simp: guest_case_eq host_case_hit)

lemma host_roundtrip:
  "inj_on h macros \<Longrightarrow> host_case h enc k = Some b \<Longrightarrow> guest_case h dec b = Some k"
  using codes_once by (auto simp: host_case_eq guest_case_eq)

text \<open>On a host whose headers give every macro bionic's own number nothing changes.\<close>

lemma host_case_same:
  "\<forall>(m, b) \<in> set enc. h m = f b \<Longrightarrow> host_case h enc k = Some b \<Longrightarrow> f b = k"
  by (fastforce simp: host_case_def dest!: map_of_SomeD)

lemma guest_case_same:
  "\<forall>(m, b) \<in> set enc. h m = f b \<Longrightarrow> guest_case h dec b = Some v \<Longrightarrow> v = f b"
  by (auto simp: guest_case_eq)

end

end
