(* ===== verification/Errno.thy ===== *)
theory Errno
  imports Prelude
begin

text \<open>
  src/src/errno.cpp and src/src/errno.h: the two switches that translate error numbers
  between the host and bionic (Android), the thread-local error number the guest sees, and
  the wrapper \<open>WithErrnoUpdate\<close> that keeps the two in step around a call. The blocks under
  \<open>#ifdef __linux__\<close> are guarded by the platform parameter.
\<close>

section \<open>The translation tables\<close>

text \<open>
  The case labels of \<open>translate_errno_from_host\<close> are macros of the host's \<open>cerrno\<close>,
  written here by name; the results are bionic's numbers.
\<close>

definition errno_from_host_cases :: "os \<Rightarrow> (string \<times> int) list" where
  "errno_from_host_cases os =
    [(''EPERM'', 1), (''ENOENT'', 2), (''ESRCH'', 3), (''EINTR'', 4), (''EIO'', 5),
      (''ENXIO'', 6), (''E2BIG'', 7), (''ENOEXEC'', 8), (''EBADF'', 9), (''ECHILD'', 10),
      (''EAGAIN'', 11), (''ENOMEM'', 12), (''EACCES'', 13), (''EFAULT'', 14),
      (''ENOTBLK'', 15), (''EBUSY'', 16), (''EEXIST'', 17), (''EXDEV'', 18),
      (''ENODEV'', 19), (''ENOTDIR'', 20), (''EISDIR'', 21), (''EINVAL'', 22),
      (''ENFILE'', 23), (''EMFILE'', 24), (''ENOTTY'', 25), (''ETXTBSY'', 26),
      (''EFBIG'', 27), (''ENOSPC'', 28), (''ESPIPE'', 29), (''EROFS'', 30), (''EMLINK'', 31),
      (''EPIPE'', 32), (''EDOM'', 33), (''ERANGE'', 34), (''EDEADLK'', 35),
      (''ENAMETOOLONG'', 36), (''ENOLCK'', 37), (''ENOSYS'', 38), (''ENOTEMPTY'', 39),
      (''ELOOP'', 40), (''ENOMSG'', 42), (''EIDRM'', 43)] @
    (if os = Linux then
     [(''ECHRNG'', 44), (''EL2NSYNC'', 45), (''EL3HLT'', 46), (''EL3RST'', 47),
      (''ELNRNG'', 48), (''EUNATCH'', 49), (''ENOCSI'', 50), (''EL2HLT'', 51),
      (''EBADE'', 52), (''EBADR'', 53), (''EXFULL'', 54), (''ENOANO'', 55),
      (''EBADRQC'', 56), (''EBADSLT'', 57), (''EBFONT'', 59)]
    else []) @
    [(''ENOSTR'', 60), (''ENODATA'', 61), (''ETIME'', 62), (''ENOSR'', 63)] @
    (if os = Linux then
     [(''ENONET'', 64), (''ENOPKG'', 65)]
    else []) @
    [(''EREMOTE'', 66), (''ENOLINK'', 67)] @
    (if os = Linux then
     [(''EADV'', 68), (''ESRMNT'', 69), (''ECOMM'', 70)]
    else []) @
    [(''EPROTO'', 71), (''EMULTIHOP'', 72)] @
    (if os = Linux then
     [(''EDOTDOT'', 73)]
    else []) @
    [(''EBADMSG'', 74), (''EOVERFLOW'', 75)] @
    (if os = Linux then
     [(''ENOTUNIQ'', 76), (''EBADFD'', 77), (''EREMCHG'', 78), (''ELIBACC'', 79),
      (''ELIBBAD'', 80), (''ELIBSCN'', 81), (''ELIBMAX'', 82), (''ELIBEXEC'', 83)]
    else []) @
    [(''EILSEQ'', 84)] @
    (if os = Linux then
     [(''ERESTART'', 85), (''ESTRPIPE'', 86)]
    else []) @
    [(''EUSERS'', 87), (''ENOTSOCK'', 88), (''EDESTADDRREQ'', 89), (''EMSGSIZE'', 90),
      (''EPROTOTYPE'', 91), (''ENOPROTOOPT'', 92), (''EPROTONOSUPPORT'', 93),
      (''ESOCKTNOSUPPORT'', 94), (''EOPNOTSUPP'', 95), (''EPFNOSUPPORT'', 96),
      (''EAFNOSUPPORT'', 97), (''EADDRINUSE'', 98), (''EADDRNOTAVAIL'', 99),
      (''ENETDOWN'', 100), (''ENETUNREACH'', 101), (''ENETRESET'', 102),
      (''ECONNABORTED'', 103), (''ECONNRESET'', 104), (''ENOBUFS'', 105), (''EISCONN'', 106),
      (''ENOTCONN'', 107), (''ESHUTDOWN'', 108), (''ETOOMANYREFS'', 109),
      (''ETIMEDOUT'', 110), (''ECONNREFUSED'', 111), (''EHOSTDOWN'', 112),
      (''EHOSTUNREACH'', 113), (''EALREADY'', 114), (''EINPROGRESS'', 115),
      (''ESTALE'', 116)] @
    (if os = Linux then
     [(''EUCLEAN'', 117), (''ENOTNAM'', 118), (''ENAVAIL'', 119), (''EISNAM'', 120),
      (''EREMOTEIO'', 121)]
    else []) @
    [(''EDQUOT'', 122)] @
    (if os = Linux then
     [(''ENOMEDIUM'', 123), (''EMEDIUMTYPE'', 124)]
    else []) @
    [(''ECANCELED'', 125)] @
    (if os = Linux then
     [(''ENOKEY'', 126), (''EKEYEXPIRED'', 127), (''EKEYREVOKED'', 128),
      (''EKEYREJECTED'', 129)]
    else []) @
    [(''EOWNERDEAD'', 130), (''ENOTRECOVERABLE'', 131)]"

definition errno_to_host_cases :: "os \<Rightarrow> (int \<times> string) list" where
  "errno_to_host_cases os =
    [(1, ''EPERM''), (2, ''ENOENT''), (3, ''ESRCH''), (4, ''EINTR''), (5, ''EIO''),
      (6, ''ENXIO''), (7, ''E2BIG''), (8, ''ENOEXEC''), (9, ''EBADF''), (10, ''ECHILD''),
      (11, ''EAGAIN''), (12, ''ENOMEM''), (13, ''EACCES''), (14, ''EFAULT''),
      (15, ''ENOTBLK''), (16, ''EBUSY''), (17, ''EEXIST''), (18, ''EXDEV''),
      (19, ''ENODEV''), (20, ''ENOTDIR''), (21, ''EISDIR''), (22, ''EINVAL''),
      (23, ''ENFILE''), (24, ''EMFILE''), (25, ''ENOTTY''), (26, ''ETXTBSY''),
      (27, ''EFBIG''), (28, ''ENOSPC''), (29, ''ESPIPE''), (30, ''EROFS''), (31, ''EMLINK''),
      (32, ''EPIPE''), (33, ''EDOM''), (34, ''ERANGE''), (35, ''EDEADLK''),
      (36, ''ENAMETOOLONG''), (37, ''ENOLCK''), (38, ''ENOSYS''), (39, ''ENOTEMPTY''),
      (40, ''ELOOP''), (42, ''ENOMSG''), (43, ''EIDRM'')] @
    (if os = Linux then
     [(44, ''ECHRNG''), (45, ''EL2NSYNC''), (46, ''EL3HLT''), (47, ''EL3RST''),
      (48, ''ELNRNG''), (49, ''EUNATCH''), (50, ''ENOCSI''), (51, ''EL2HLT''),
      (52, ''EBADE''), (53, ''EBADR''), (54, ''EXFULL''), (55, ''ENOANO''),
      (56, ''EBADRQC''), (57, ''EBADSLT''), (59, ''EBFONT'')]
    else []) @
    [(60, ''ENOSTR''), (61, ''ENODATA''), (62, ''ETIME''), (63, ''ENOSR'')] @
    (if os = Linux then
     [(64, ''ENONET''), (65, ''ENOPKG'')]
    else []) @
    [(66, ''EREMOTE''), (67, ''ENOLINK'')] @
    (if os = Linux then
     [(68, ''EADV''), (69, ''ESRMNT''), (70, ''ECOMM'')]
    else []) @
    [(71, ''EPROTO''), (72, ''EMULTIHOP'')] @
    (if os = Linux then
     [(73, ''EDOTDOT'')]
    else []) @
    [(74, ''EBADMSG''), (75, ''EOVERFLOW'')] @
    (if os = Linux then
     [(76, ''ENOTUNIQ''), (77, ''EBADFD''), (78, ''EREMCHG''), (79, ''ELIBACC''),
      (80, ''ELIBBAD''), (81, ''ELIBSCN''), (82, ''ELIBMAX''), (83, ''ELIBEXEC'')]
    else []) @
    [(84, ''EILSEQ'')] @
    (if os = Linux then
     [(85, ''ERESTART''), (86, ''ESTRPIPE'')]
    else []) @
    [(87, ''EUSERS''), (88, ''ENOTSOCK''), (89, ''EDESTADDRREQ''), (90, ''EMSGSIZE''),
      (91, ''EPROTOTYPE''), (92, ''ENOPROTOOPT''), (93, ''EPROTONOSUPPORT''),
      (94, ''ESOCKTNOSUPPORT''), (95, ''EOPNOTSUPP''), (96, ''EPFNOSUPPORT''),
      (97, ''EAFNOSUPPORT''), (98, ''EADDRINUSE''), (99, ''EADDRNOTAVAIL''),
      (100, ''ENETDOWN''), (101, ''ENETUNREACH''), (102, ''ENETRESET''),
      (103, ''ECONNABORTED''), (104, ''ECONNRESET''), (105, ''ENOBUFS''), (106, ''EISCONN''),
      (107, ''ENOTCONN''), (108, ''ESHUTDOWN''), (109, ''ETOOMANYREFS''),
      (110, ''ETIMEDOUT''), (111, ''ECONNREFUSED''), (112, ''EHOSTDOWN''),
      (113, ''EHOSTUNREACH''), (114, ''EALREADY''), (115, ''EINPROGRESS''),
      (116, ''ESTALE'')] @
    (if os = Linux then
     [(117, ''EUCLEAN''), (118, ''ENOTNAM''), (119, ''ENAVAIL''), (120, ''EISNAM''),
      (121, ''EREMOTEIO'')]
    else []) @
    [(122, ''EDQUOT'')] @
    (if os = Linux then
     [(123, ''ENOMEDIUM''), (124, ''EMEDIUMTYPE'')]
    else []) @
    [(125, ''ECANCELED'')] @
    (if os = Linux then
     [(126, ''ENOKEY''), (127, ''EKEYEXPIRED''), (128, ''EKEYREVOKED''),
      (129, ''EKEYREJECTED'')]
    else []) @
    [(130, ''EOWNERDEAD''), (131, ''ENOTRECOVERABLE'')]"

definition translate_errno_from_host :: "os \<Rightarrow> headers \<Rightarrow> int \<Rightarrow> int" where
  "translate_errno_from_host os h err =
     (case host_case h (errno_from_host_cases os) err of Some b \<Rightarrow> b | None \<Rightarrow> err)"

definition translate_errno_to_host :: "os \<Rightarrow> headers \<Rightarrow> int \<Rightarrow> int" where
  "translate_errno_to_host os h err =
     (case guest_case h (errno_to_host_cases os) err of Some e \<Rightarrow> e | None \<Rightarrow> err)"

lemma errno_macros_once: "distinct (map fst (errno_from_host_cases os))"
  by (cases os) (simp_all add: errno_from_host_cases_def)

lemma errno_codes_once: "distinct (map fst (errno_to_host_cases os))"
  by (cases os) (simp_all add: errno_to_host_cases_def)

lemma errno_same_pairs: "errno_to_host_cases os = map prod.swap (errno_from_host_cases os)"
  by (simp add: errno_to_host_cases_def errno_from_host_cases_def)

interpretation errno_table: code_table "errno_from_host_cases os" "errno_to_host_cases os"
  for os
  by unfold_locales
    (rule errno_macros_once, rule errno_codes_once, simp only: errno_same_pairs set_map)

lemma translate_errno_listed:
  assumes "inj_on h (set (map fst (errno_from_host_cases os)))"
    and "(m, b) \<in> set (errno_from_host_cases os)"
  shows "translate_errno_from_host os h (h m) = b" "translate_errno_to_host os h b = h m"
proof -
  have inj: "inj_on h (errno_table.macros os)" using assms(1) by simp
  from errno_table.host_case_hit [OF inj assms(2)]
  show "translate_errno_from_host os h (h m) = b"
    by (simp add: translate_errno_from_host_def)
  from errno_table.host_roundtrip [OF inj errno_table.host_case_hit [OF inj assms(2)]]
  show "translate_errno_to_host os h b = h m"
    by (simp add: translate_errno_to_host_def)
qed

lemma translate_errno_unlisted:
  "e \<notin> h ` fst ` set (errno_from_host_cases os) \<Longrightarrow> translate_errno_from_host os h e = e"
  "b \<notin> snd ` set (errno_from_host_cases os) \<Longrightarrow> translate_errno_to_host os h b = b"
  using errno_table.host_case_None [of h os e] errno_table.guest_case_None [of h os b]
  by (simp_all add: translate_errno_from_host_def translate_errno_to_host_def)

lemma errno_codes_nonzero: "0 \<notin> snd ` set (errno_from_host_cases os)"
  by (cases os) (simp_all add: errno_from_host_cases_def)

text \<open>Success stays success and failure failure, as no error number of the host is zero.\<close>

lemma translate_errno_zero:
  assumes "0 \<notin> h ` fst ` set (errno_from_host_cases os)"
  shows "translate_errno_from_host os h e = 0 \<longleftrightarrow> e = 0"
proof (cases "host_case h (errno_from_host_cases os) e")
  case None
  then show ?thesis by (simp add: translate_errno_from_host_def)
next
  case (Some b)
  then have "e \<in> h ` fst ` set (errno_from_host_cases os)"
    using errno_table.host_case_None [of h os e] by auto
  with assms have "e \<noteq> 0" by metis
  from Some have "b \<in> snd ` set (errno_from_host_cases os)"
    by (force simp: host_case_def dest: map_of_SomeD)
  with errno_codes_nonzero [of os] have "b \<noteq> 0" by metis
  with Some \<open>e \<noteq> 0\<close> show ?thesis by (simp add: translate_errno_from_host_def)
qed

lemma translate_errno_roundtrip_ok:
  assumes "inj_on h (set (map fst (errno_from_host_cases os)))"
    and "b \<in> snd ` set (errno_from_host_cases os) \<or> b \<notin> h ` fst ` set (errno_from_host_cases os)"
  shows "translate_errno_from_host os h (translate_errno_to_host os h b) = b"
proof (cases "b \<in> snd ` set (errno_from_host_cases os)")
  case True
  then obtain m where "(m, b) \<in> set (errno_from_host_cases os)" by force
  from translate_errno_listed [OF assms(1) this] show ?thesis by simp
next
  case False
  with assms(2) translate_errno_unlisted show ?thesis by simp
qed

section \<open>The thread-local error numbers\<close>

text \<open>
  Each thread has the host's \<open>errno\<close> and, where \<open>ERRNO_TRANSLATION\<close> is defined (on Apple
  only), the shim's own \<open>errno_value\<close>. \<open>get_errno\<close> returns a pointer to the one the guest
  reads and writes.
\<close>

record errno_state =
  host_errno :: int
  errno_value :: int

datatype errno_ptr = Host_errno | Shim_errno

definition errno_translation :: "os \<Rightarrow> bool" where
  "errno_translation os \<longleftrightarrow> os = Apple"

definition get_errno :: "os \<Rightarrow> errno_ptr" where
  "get_errno os = (if errno_translation os then Shim_errno else Host_errno)"

fun load_errno :: "errno_ptr \<Rightarrow> errno_state \<Rightarrow> int" where
  "load_errno Host_errno s = host_errno s"
| "load_errno Shim_errno s = errno_value s"

fun store_errno :: "errno_ptr \<Rightarrow> int \<Rightarrow> errno_state \<Rightarrow> errno_state" where
  "store_errno Host_errno v s = s\<lparr>host_errno := v\<rparr>"
| "store_errno Shim_errno v s = s\<lparr>errno_value := v\<rparr>"

definition set_errno :: "os \<Rightarrow> headers \<Rightarrow> int \<Rightarrow> errno_state \<Rightarrow> errno_state" where
  "set_errno os h err s =
     (if errno_translation os
      then s\<lparr>errno_value := err, host_errno := translate_errno_to_host os h err\<rparr>
      else s\<lparr>host_errno := err\<rparr>)"

definition update_errno :: "os \<Rightarrow> headers \<Rightarrow> errno_state \<Rightarrow> errno_state" where
  "update_errno os h s =
     (if errno_translation os
      then s\<lparr>errno_value := translate_errno_from_host os h (host_errno s)\<rparr> else s)"

definition sync_errno :: "os \<Rightarrow> headers \<Rightarrow> errno_state \<Rightarrow> errno_state" where
  "sync_errno os h s =
     (if errno_translation os
      then s\<lparr>host_errno := translate_errno_to_host os h (errno_value s)\<rparr> else s)"

lemmas errno_state_defs = get_errno_def set_errno_def update_errno_def sync_errno_def
  errno_translation_def

section \<open>The wrapper around a shimmed call\<close>

text \<open>
  A shimmed function takes the rest of the process's state and the thread's error numbers;
  it returns a value or fails. A pointer result is its address, so that \<open>NULL\<close> is 0.
\<close>

type_synonym 'w call = "'w \<times> errno_state \<Rightarrow> int result \<times> 'w \<times> errno_state"

fun errno_update_wrapper :: "os \<Rightarrow> headers \<Rightarrow> bool \<Rightarrow> 'w call \<Rightarrow> 'w call" where
  "errno_update_wrapper os h ret_is_pointer f (w, s) =
     (case f (w, sync_errno os h s) of
        (Inr r, w', s') \<Rightarrow> (Inr r, w', update_errno os h s')
      | (Inl (Runtime_error fmt args), w', s') \<Rightarrow>
          (Inr (if ret_is_pointer then 0 else -1), w',
           update_errno os h (s'\<lparr>host_errno := h ''EINVAL''\<rparr>))
      | (Inl e, w', s') \<Rightarrow> (Inl e, w', s'))"

text \<open>The macro \<open>WithErrnoUpdate\<close>: without error-number translation it is the bare function.\<close>

definition WithErrnoUpdate :: "os \<Rightarrow> headers \<Rightarrow> bool \<Rightarrow> 'w call \<Rightarrow> 'w call" where
  "WithErrnoUpdate os h ret_is_pointer f =
     (if errno_translation os then errno_update_wrapper os h ret_is_pointer f else f)"

section \<open>Messages for error numbers\<close>

text \<open>
  \<open>strerror\<close> and \<open>strerror_r\<close>; the host's functions are parameters. Under \<open>__USE_GNU\<close> the
  host's \<open>strerror_r\<close> returns a pointer, otherwise an error number.
\<close>

definition strerror :: "os \<Rightarrow> headers \<Rightarrow> (int \<Rightarrow> 'm) \<Rightarrow> int \<Rightarrow> 'm" where
  "strerror os h host_strerror err = host_strerror (translate_errno_to_host os h err)"

definition strerror_r :: "os \<Rightarrow> headers \<Rightarrow> bool \<Rightarrow> (int \<Rightarrow> 'b \<Rightarrow> nat \<Rightarrow> int \<times> 'b) \<Rightarrow>
    int \<Rightarrow> 'b \<Rightarrow> nat \<Rightarrow> int \<times> 'b" where
  "strerror_r os h use_gnu host_strerror_r err buf len =
     (let (r, buf') = host_strerror_r (translate_errno_to_host os h err) buf len
      in (if use_gnu then (if r \<noteq> 0 then 0 else -1) else r, buf'))"

section \<open>Properties\<close>

text \<open>
  C33. The two translations are inverse exactly where the tables say: bionic's number
  survives the way to the host and back if and only if it is listed or is not the number of
  some listed host macro. Both hold for the rows; the default branches pass a number through.
\<close>

theorem translate_errno_roundtrip:
  assumes "inj_on h (set (map fst (errno_from_host_cases os)))"
  shows "translate_errno_from_host os h (translate_errno_to_host os h b) = b \<longleftrightarrow>
           b \<in> snd ` set (errno_from_host_cases os) \<or>
           b \<notin> h ` fst ` set (errno_from_host_cases os)"
  (is "?lhs \<longleftrightarrow> ?listed \<or> ?fresh")
proof
  assume ?lhs
  have "translate_errno_from_host os h b \<noteq> b" if "\<not> ?listed" "\<not> ?fresh"
  proof -
    from that obtain m c where mc: "(m, c) \<in> set (errno_from_host_cases os)" and "b = h m" by force
    with translate_errno_listed(1) [OF assms mc] that(1) show ?thesis by force
  qed
  with \<open>?lhs\<close> translate_errno_unlisted(2) show "?listed \<or> ?fresh" by metis
qed (rule translate_errno_roundtrip_ok [OF assms])

definition linux_errno_headers :: headers where
  "linux_errno_headers m = (case map_of (errno_from_host_cases Linux) m of Some b \<Rightarrow> b | None \<Rightarrow> 0)"

lemma linux_errno_headers_listed:
  "(m, b) \<in> set (errno_from_host_cases Linux) \<Longrightarrow> linux_errno_headers m = b"
  by (simp add: linux_errno_headers_def errno_macros_once)

lemma set_guard_mono: "b \<Longrightarrow> set (if c then xs else []) \<subseteq> set (if b then xs else [])"
  by auto

lemma errno_cases_linux: "set (errno_from_host_cases os) \<subseteq> set (errno_from_host_cases Linux)"
  unfolding errno_from_host_cases_def set_append by (intro Un_mono order_refl set_guard_mono refl)

lemma linux_errno_headers_inj:
  "inj_on linux_errno_headers (set (map fst (errno_from_host_cases os)))"
proof (rule inj_onI)
  fix m n
  assume "m \<in> set (map fst (errno_from_host_cases os))"
    and "n \<in> set (map fst (errno_from_host_cases os))"
    and eq: "linux_errno_headers m = linux_errno_headers n"
  with errno_cases_linux [of os] obtain b c where mb: "(m, b) \<in> set (errno_from_host_cases Linux)"
    and nc: "(n, c) \<in> set (errno_from_host_cases Linux)" by force
  with eq have "b = c" by (simp add: linux_errno_headers_listed)
  with mb nc have "(b, m) \<in> set (errno_to_host_cases Linux)" "(b, n) \<in> set (errno_to_host_cases Linux)"
    by (simp_all add: errno_table.in_dec_iff)
  then show "m = n" using errno_codes_once [of Linux] by (rule eq_key_imp_eq_value [rotated])
qed

lemma linux_errno_headers_nonzero:
  "0 \<notin> linux_errno_headers ` fst ` set (errno_from_host_cases Linux)"
  using errno_codes_nonzero [of Linux] linux_errno_headers_listed by force

lemma linux_errno_headers_EINVAL [simp]:
  "linux_errno_headers ''EINVAL'' = 22" "translate_errno_from_host os linux_errno_headers 22 = 22"
proof -
  have row: "(''EINVAL'', 22) \<in> set (errno_from_host_cases os)"
    by (simp add: errno_from_host_cases_def)
  show EINVAL: "linux_errno_headers ''EINVAL'' = 22"
    by (rule linux_errno_headers_listed, rule subsetD [OF errno_cases_linux row])
  from translate_errno_listed(1) [OF linux_errno_headers_inj row] EINVAL
  show "translate_errno_from_host os linux_errno_headers 22 = 22" by simp
qed

lemma errno_ETIMEDOUT_row: "(''ETIMEDOUT'', 110) \<in> set (errno_from_host_cases os)"
  by (simp add: errno_from_host_cases_def)

theorem translate_errno_roundtrip_witness:
  "translate_errno_from_host Apple linux_errno_headers
     (translate_errno_to_host Apple linux_errno_headers 110) = 110"
  using translate_errno_roundtrip [OF linux_errno_headers_inj, where b = 110]
    image_eqI [OF _ errno_ETIMEDOUT_row, of 110 snd Apple] by simp

text \<open>
  On a host whose headers number every listed macro as bionic does (Linux), both
  translations are the identity on every integer, listed or not, so that the platforms
  without translation and those with it agree.
\<close>

theorem translate_errno_identity:
  assumes "\<forall>(m, b) \<in> set (errno_from_host_cases os). h m = b"
  shows "translate_errno_from_host os h e = e \<and> translate_errno_to_host os h e = e"
  using errno_table.host_case_same [OF assms] errno_table.guest_case_same [OF assms]
  by (auto simp: translate_errno_from_host_def translate_errno_to_host_def split: option.split)

theorem translate_errno_identity_witness:
  "translate_errno_from_host Linux linux_errno_headers 35 = 35 \<and>
   translate_errno_to_host Linux linux_errno_headers 4095 = 4095"
  using translate_errno_identity [of Linux linux_errno_headers] linux_errno_headers_listed
  by blast

text \<open>
  C23. A call registered with \<open>WithErrnoUpdate\<close> on Apple lets no exception of the shim
  escape: it returns -1 or NULL with the guest's error number set to the translation of
  EINVAL; and whenever it returns, the guest reads the translation of the host's \<open>errno\<close>.
\<close>

theorem errno_wrapper_catches:
  assumes "WithErrnoUpdate Apple h ret_is_pointer f (w, s) = (r, w', s')"
  shows "(\<forall>fmt args. r \<noteq> Inl (Runtime_error fmt args)) \<and>
    (\<forall>v. r = Inr v \<longrightarrow>
       load_errno (get_errno Apple) s' = translate_errno_from_host Apple h (host_errno s')) \<and>
    (\<forall>fmt args. fst (f (w, sync_errno Apple h s)) = Inl (Runtime_error fmt args) \<longrightarrow>
       r = Inr (if ret_is_pointer then 0 else -1) \<and> host_errno s' = h ''EINVAL'')"
  using assms
  by (cases "f (w, sync_errno Apple h s)")
    (auto simp: WithErrnoUpdate_def errno_state_defs split: sum.splits fault.splits)

theorem errno_wrapper_catches_witness:
  "WithErrnoUpdate Apple linux_errno_headers False (\<lambda>(w, s). (Inl (Runtime_error ''e'' []), w, s))
     ((), \<lparr>host_errno = 0, errno_value = 0\<rparr>) =
     (Inr (-1), (), \<lparr>host_errno = 22, errno_value = 22\<rparr>) \<and>
   load_errno (get_errno Apple) \<lparr>host_errno = 22, errno_value = 22\<rparr> =
     translate_errno_from_host Apple linux_errno_headers 22"
proof -
  have run: "WithErrnoUpdate Apple linux_errno_headers False
      (\<lambda>(w, s). (Inl (Runtime_error ''e'' []), w, s)) ((), \<lparr>host_errno = 0, errno_value = 0\<rparr>) =
     (Inr (-1), (), \<lparr>host_errno = 22, errno_value = 22\<rparr>)"
    by (simp add: WithErrnoUpdate_def errno_state_defs)
  from errno_wrapper_catches [OF run] run show ?thesis by simp
qed

text \<open>
  A call that leaves the host's \<open>errno\<close> as it found it leaves the number the guest
  reads as it was, for every number the tables carry both ways: an \<open>errno = 0\<close> of the guest
  before the call is still there after it.
\<close>

theorem errno_wrapper_transparent:
  assumes "inj_on h (set (map fst (errno_from_host_cases os)))"
    and "load_errno (get_errno os) s \<in> snd ` set (errno_from_host_cases os) \<or>
         load_errno (get_errno os) s \<notin> h ` fst ` set (errno_from_host_cases os)"
    and "\<And>t. f (w, t) = (Inr v, w', t)"
  shows "\<exists>s'. WithErrnoUpdate os h ret_is_pointer f (w, s) = (Inr v, w', s') \<and>
    load_errno (get_errno os) s' = load_errno (get_errno os) s"
proof (cases "errno_translation os")
  case True
  then have os: "os = Apple" by (simp add: errno_translation_def)
  have "translate_errno_from_host os h (translate_errno_to_host os h (errno_value s)) = errno_value s"
    by (rule translate_errno_roundtrip_ok [OF assms(1)])
      (use assms(2) os in \<open>simp add: errno_state_defs\<close>)
  with assms(3) os show ?thesis by (simp add: WithErrnoUpdate_def errno_state_defs)
next
  case False
  with assms(3) show ?thesis by (simp add: WithErrnoUpdate_def)
qed

theorem errno_wrapper_transparent_witness:
  "\<exists>s'. WithErrnoUpdate Linux linux_errno_headers False (\<lambda>(w, s). (Inr 7, w, s))
      ((), \<lparr>host_errno = 110, errno_value = 0\<rparr>) = (Inr 7, (), s') \<and>
    load_errno (get_errno Linux) s' = load_errno (get_errno Linux) \<lparr>host_errno = 110, errno_value = 0\<rparr>"
  by (rule errno_wrapper_transparent [OF linux_errno_headers_inj])
    (use image_eqI [OF _ errno_ETIMEDOUT_row, of 110 snd Linux] in \<open>simp_all add: errno_state_defs\<close>)

end
