(* ===== verification/Flags.thy ===== *)
theory Flags
  imports Prelude
begin

text \<open>
  Translation of bit masks between bionic and the host: the \<open>getaddrinfo\<close> and
  \<open>getnameinfo\<close> flags of src/src/network.cpp, the file status flags of
  src/src/file_misc.cpp and the \<open>mmap\<close> flags of src/src/common.cpp. All are chains of
  \<open>if (flags & A) ret |= B;\<close> statements over 32-bit integers, written as rows \<open>(A, B)\<close>.
\<close>

section \<open>Chains of conditional or-assignments\<close>

definition translate_flags :: "(u32 \<times> u32) list \<Rightarrow> u32 \<Rightarrow> u32" where
  "translate_flags rows flags =
     fold (\<lambda>(test, out) ret. if flags AND test \<noteq> 0 then ret OR out else ret) rows 0"

lemma bit_fold_flags:
  "bit (fold (\<lambda>(test, out) ret. if flags AND test \<noteq> 0 then ret OR out else ret) rows r) n \<longleftrightarrow>
     bit r n \<or> (\<exists>(test, out) \<in> set rows. flags AND test \<noteq> 0 \<and> bit out n)"
  by (induction rows arbitrary: r) (auto simp: bit_or_iff split: if_splits)

lemma bit_translate_flags:
  "bit (translate_flags rows flags) n \<longleftrightarrow>
     (\<exists>(test, out) \<in> set rows. flags AND test \<noteq> 0 \<and> bit out n)"
  by (simp add: translate_flags_def bit_fold_flags)

lemma translate_flags_zero [simp]: "translate_flags rows 0 = 0"
  by (rule bit_eqI) (auto simp: bit_translate_flags)

lemma and_eq_0_iff: "(a :: u32) AND b = 0 \<longleftrightarrow> (\<forall>n. \<not> (bit a n \<and> bit b n))"
  unfolding bit_and_iff [symmetric] by (auto intro: bit_eqI)

section \<open>Interface: a pair of inverse flag tables\<close>

text \<open>
  \<open>enc\<close> lists host macros with the bionic bit they become, \<open>dec\<close> bionic bits with the
  host macro they become. On bionic's side every flag is one bit.
\<close>

definition single_bit :: "u32 \<Rightarrow> bool" where
  "single_bit g \<longleftrightarrow> length (filter (bit g) [0..<32]) = 1"

lemma single_bitD:
  assumes "single_bit g"
  shows "\<exists>i. \<forall>n. bit g n \<longleftrightarrow> n = i"
proof -
  from assms obtain i where "filter (bit g) [0..<32] = [i]"
    unfolding single_bit_def by (auto simp: length_Suc_conv)
  then have "set (filter (bit g) [0..<32]) = {i}" by simp
  then have "bit g n \<longleftrightarrow> n = i" for n
    using bit_imp_le_length [of g n] by (auto simp: set_eq_iff)
  then show ?thesis by blast
qed

definition to_host_flags :: "headers \<Rightarrow> (u32 \<times> string) list \<Rightarrow> u32 \<Rightarrow> u32" where
  "to_host_flags h dec = translate_flags (map (\<lambda>(g, m). (g, hmask h m)) dec)"

definition from_host_flags :: "headers \<Rightarrow> (string \<times> u32) list \<Rightarrow> u32 \<Rightarrow> u32" where
  "from_host_flags h enc = translate_flags (map (\<lambda>(m, g). (hmask h m, g)) enc)"

lemma bit_to_host_flags:
  "bit (to_host_flags h dec f) n \<longleftrightarrow> (\<exists>(g, m) \<in> set dec. f AND g \<noteq> 0 \<and> bit (hmask h m) n)"
  by (simp add: to_host_flags_def bit_translate_flags case_prod_beta)

lemma bit_from_host_flags:
  "bit (from_host_flags h enc f) n \<longleftrightarrow> (\<exists>(m, g) \<in> set enc. f AND hmask h m \<noteq> 0 \<and> bit g n)"
  by (simp add: from_host_flags_def bit_translate_flags case_prod_beta)

text \<open>What the host's headers promise of a group of flags: distinct non-empty bits.\<close>

definition disjoint_masks :: "headers \<Rightarrow> string set \<Rightarrow> bool" where
  "disjoint_masks h ms \<longleftrightarrow>
     (\<forall>m \<in> ms. hmask h m \<noteq> 0) \<and>
     (\<forall>m \<in> ms. \<forall>m' \<in> ms. m \<noteq> m' \<longrightarrow> hmask h m AND hmask h m' = 0)"

locale flag_table =
  fixes enc :: "(string \<times> u32) list" and dec :: "(u32 \<times> string) list" and known :: u32
  assumes guest_bits: "list_all (\<lambda>(m, g). single_bit g) enc"
    and macros_once: "distinct (map fst enc)"
    and same_pairs: "set dec = prod.swap ` set enc"
    and known_bits: "known = fold (\<lambda>(m, g) r. r OR g) enc 0"
begin

lemma bit_fold_or: "bit (fold (\<lambda>(m, g) r. r OR g) xs r) n \<longleftrightarrow> bit r n \<or> (\<exists>(m, g) \<in> set xs. bit g n)"
  for xs :: "(string \<times> u32) list" and r :: u32
  by (induction xs arbitrary: r) (auto simp: bit_or_iff)

lemma bit_known: "bit known n \<longleftrightarrow> (\<exists>(m, g) \<in> set enc. bit g n)"
  by (simp add: known_bits bit_fold_or)

lemma bit_to_host:
  "bit (to_host_flags h dec f) n \<longleftrightarrow> (\<exists>(m, g) \<in> set enc. f AND g \<noteq> 0 \<and> bit (hmask h m) n)"
  by (force simp: bit_to_host_flags same_pairs)

lemma guest_bit_test:
  assumes "(m, g) \<in> set enc" and "bit g n"
  shows "f AND g \<noteq> 0 \<longleftrightarrow> bit f n"
proof -
  from assms(1) guest_bits have "single_bit g" by (auto simp: list_all_iff)
  then obtain i where i: "\<And>n. bit g n \<longleftrightarrow> n = i" using single_bitD by blast
  with assms(2) show ?thesis by (simp add: and_eq_0_iff)
qed

lemma host_bit_set:
  assumes "disjoint_masks h (fst ` set enc)" and row: "(m, g) \<in> set enc"
  shows "to_host_flags h dec f AND hmask h m \<noteq> 0 \<longleftrightarrow> f AND g \<noteq> 0"
proof
  assume "to_host_flags h dec f AND hmask h m \<noteq> 0"
  then obtain n where "bit (to_host_flags h dec f) n" and n: "bit (hmask h m) n"
    by (auto simp: and_eq_0_iff)
  then obtain m' g' where row': "(m', g') \<in> set enc" and g': "f AND g' \<noteq> 0" "bit (hmask h m') n"
    by (auto simp: bit_to_host)
  have "m' = m"
  proof (rule ccontr)
    assume "m' \<noteq> m"
    with assms(1) row row' have "hmask h m' AND hmask h m = 0"
      unfolding disjoint_masks_def by force
    with n g'(2) show False by (simp add: and_eq_0_iff)
  qed
  with row row' macros_once have "g' = g" by (auto dest: eq_key_imp_eq_value)
  with g'(1) show "f AND g \<noteq> 0" by simp
next
  assume g: "f AND g \<noteq> 0"
  from assms have "hmask h m \<noteq> 0" unfolding disjoint_masks_def by force
  then obtain n where "bit (hmask h m) n" by (auto simp: bit_eq_iff)
  with row g show "to_host_flags h dec f AND hmask h m \<noteq> 0"
    by (auto simp: and_eq_0_iff bit_to_host)
qed

text \<open>Every known bionic flag survives the way to the host and back; others are dropped.\<close>

lemma guest_roundtrip:
  assumes "disjoint_masks h (fst ` set enc)"
  shows "from_host_flags h enc (to_host_flags h dec f) = f AND known"
proof (rule bit_eqI)
  fix n
  have "bit (from_host_flags h enc (to_host_flags h dec f)) n \<longleftrightarrow>
      (\<exists>(m, g) \<in> set enc. f AND g \<noteq> 0 \<and> bit g n)"
    using host_bit_set [OF assms] by (fastforce simp: bit_from_host_flags)
  also have "\<dots> \<longleftrightarrow> bit (f AND known) n"
    using guest_bit_test by (fastforce simp: bit_and_iff bit_known)
  finally show "bit (from_host_flags h enc (to_host_flags h dec f)) n \<longleftrightarrow> bit (f AND known) n" .
qed

end

section \<open>Flags of getaddrinfo and getnameinfo\<close>

definition ai_from_host_rows :: "(string \<times> u32) list" where
  "ai_from_host_rows = [(''AI_PASSIVE'', 1), (''AI_CANONNAME'', 2), (''AI_NUMERICHOST'', 4)]"

definition ai_to_host_rows :: "(u32 \<times> string) list" where
  "ai_to_host_rows = [(1, ''AI_PASSIVE''), (2, ''AI_CANONNAME''), (4, ''AI_NUMERICHOST'')]"

definition from_host_ai_flags :: "headers \<Rightarrow> u32 \<Rightarrow> u32" where
  "from_host_ai_flags h flags = from_host_flags h ai_from_host_rows flags"

definition to_host_ai_flags :: "headers \<Rightarrow> u32 \<Rightarrow> u32" where
  "to_host_ai_flags h flags = to_host_flags h ai_to_host_rows flags"

definition to_host_nameinfo_flags :: "headers \<Rightarrow> u32 \<Rightarrow> u32" where
  "to_host_nameinfo_flags h flags =
     to_host_flags h [(1, ''NI_NOFQDN''), (2, ''NI_NUMERICHOST''), (4, ''NI_NAMEREQD''),
       (8, ''NI_NUMERICSERV''), (16, ''NI_DGRAM'')] flags"

interpretation ai_table: flag_table ai_from_host_rows ai_to_host_rows 7
  by unfold_locales (simp_all add: ai_from_host_rows_def ai_to_host_rows_def single_bit_def upt_rec)

section \<open>File status flags\<close>

text \<open>
  The enumerators of \<open>bionic::file_status_flags\<close> are octal in the source; \<open>RDONLY\<close> is
  zero, so its two statements never set anything.
\<close>

definition file_to_host_rows :: "(u32 \<times> string) list" where
  "file_to_host_rows =
    [(0x1, ''O_WRONLY''), (0x2, ''O_RDWR''), (0x40, ''O_CREAT''),
     (0x80, ''O_EXCL''), (0x100, ''O_NOCTTY''), (0x200, ''O_TRUNC''), (0x400, ''O_APPEND''),
     (0x800, ''O_NONBLOCK''), (0x80000, ''O_CLOEXEC'')]"

definition file_from_host_rows :: "(string \<times> u32) list" where
  "file_from_host_rows =
    [(''O_WRONLY'', 0x1), (''O_RDWR'', 0x2), (''O_CREAT'', 0x40),
     (''O_EXCL'', 0x80), (''O_NOCTTY'', 0x100), (''O_TRUNC'', 0x200), (''O_APPEND'', 0x400),
     (''O_NONBLOCK'', 0x800), (''O_CLOEXEC'', 0x80000)]"

definition KNOWN_FLAGS :: u32 where
  "KNOWN_FLAGS = 0x0 OR 0x1 OR 0x2 OR 0x40 OR 0x80 OR 0x100 OR 0x200 OR 0x400 OR 0x800 OR 0x80000"

definition to_host_file_status_flags :: "headers \<Rightarrow> u32 \<Rightarrow> u32" where
  "to_host_file_status_flags h flags =
     to_host_flags h ((0x0, ''O_RDONLY'') # file_to_host_rows) flags"

definition from_host_file_status_flags :: "headers \<Rightarrow> u32 \<Rightarrow> u32 result" where
  "from_host_file_status_flags h flags =
     (if flags AND NOT KNOWN_FLAGS \<noteq> 0
      then Inl (Runtime_error ''Unsupported fd flag used %d'' [sint flags])
      else Inr (from_host_flags h ((''O_RDONLY'', 0x0) # file_from_host_rows) flags))"

interpretation file_table: flag_table file_from_host_rows file_to_host_rows KNOWN_FLAGS
  by unfold_locales
    (simp_all add: file_from_host_rows_def file_to_host_rows_def single_bit_def upt_rec KNOWN_FLAGS_def)

lemma rdonly_row_inert [simp]:
  "to_host_flags h ((0, m) # rows) f = to_host_flags h rows f"
  "from_host_flags h ((m, 0) # enc) f = from_host_flags h enc f"
  by (auto intro!: bit_eqI simp: bit_to_host_flags bit_from_host_flags)

section \<open>Flags of mmap\<close>

text \<open>
  \<open>defd m\<close> tells whether the host defines the optional macro \<open>m\<close>. The row for bionic's
  \<open>FIXED\<close> names \<open>MAP_FILE\<close>, as the source does.
\<close>

definition mmap_supported :: u32 where
  "mmap_supported = 0x10 OR 0x20 OR 0x4000 OR 0x2 OR 0x1 OR 0x20000 OR 0x100"

definition mmap_rows :: "(string \<Rightarrow> bool) \<Rightarrow> (u32 \<times> string) list" where
  "mmap_rows defd =
     [(0x2, ''MAP_PRIVATE''), (0x10, ''MAP_FILE''), (0x20, ''MAP_ANONYMOUS''), (0x1, ''MAP_SHARED'')] @
     (if defd ''MAP_NORESERVE'' then [(0x4000, ''MAP_NORESERVE'')] else []) @
     (if defd ''MAP_GROWSDOWN'' then [(0x100, ''MAP_GROWSDOWN'')] else []) @
     (if defd ''MAP_STACK'' then [(0x20000, ''MAP_STACK'')] else [])"

definition to_host_mmap_flags :: "(string \<Rightarrow> bool) \<Rightarrow> headers \<Rightarrow> u32 \<Rightarrow> u32 result" where
  "to_host_mmap_flags defd h flags =
     (if flags AND NOT mmap_supported \<noteq> 0
      then Inl (Runtime_error ''Used unsupported mmap flags %d'' [sint flags])
      else Inr (to_host_flags h (mmap_rows defd) flags))"

section \<open>Properties\<close>

text \<open>
  A host whose headers number these flags as bionic does (Linux); it serves as the concrete
  host of the witnesses.
\<close>

definition linux_flag_headers :: headers where
  "linux_flag_headers m =
     (case map_of (file_from_host_rows @ ai_from_host_rows) m of
        Some g \<Rightarrow> uint g
      | None \<Rightarrow>
          (case map_of [(''MAP_SHARED'', 0x1), (''MAP_PRIVATE'', 0x2), (''MAP_FIXED'', 0x10),
             (''MAP_ANONYMOUS'', 0x20), (''MAP_NORESERVE'', 0x4000), (''MAP_GROWSDOWN'', 0x100),
             (''MAP_STACK'', 0x20000)] m of Some v \<Rightarrow> v | None \<Rightarrow> 0))"

lemma linux_file_masks: "disjoint_masks linux_flag_headers (fst ` set file_from_host_rows)"
  by (simp add: disjoint_masks_def linux_flag_headers_def file_from_host_rows_def)

lemma linux_ai_masks: "disjoint_masks linux_flag_headers (fst ` set ai_from_host_rows)"
  by (simp add: disjoint_masks_def linux_flag_headers_def ai_from_host_rows_def file_from_host_rows_def)

text \<open>
  Open flags sent to the host and read back with \<open>F_GETFL\<close> are the known bionic flags
  that were set, nothing else; the way back throws exactly when the host's numbering of them
  uses a bit outside bionic's \<open>KNOWN_FLAGS\<close>.
\<close>

theorem file_flags_roundtrip:
  assumes "disjoint_masks h (fst ` set file_from_host_rows)"
  shows "from_host_file_status_flags h (to_host_file_status_flags h f) =
    (if to_host_file_status_flags h f AND NOT KNOWN_FLAGS \<noteq> 0
     then Inl (Runtime_error ''Unsupported fd flag used %d'' [sint (to_host_file_status_flags h f)])
     else Inr (f AND KNOWN_FLAGS))"
  using file_table.guest_roundtrip [OF assms, of f]
  by (simp add: from_host_file_status_flags_def to_host_file_status_flags_def)

theorem file_flags_roundtrip_witness:
  "from_host_file_status_flags linux_flag_headers
     (to_host_file_status_flags linux_flag_headers 0x8842) = Inr 0x842"
  using file_flags_roundtrip [OF linux_file_masks, where f = "0x8842"]
  by (simp add: to_host_file_status_flags_def to_host_flags_def translate_flags_def
      linux_flag_headers_def file_to_host_rows_def file_from_host_rows_def KNOWN_FLAGS_def)

text \<open>
  The \<open>getaddrinfo\<close> hints' flags survive the way to the host and back, and no other
  bit appears.
\<close>

theorem ai_flags_roundtrip:
  assumes "disjoint_masks h (fst ` set ai_from_host_rows)"
  shows "from_host_ai_flags h (to_host_ai_flags h f) = f AND 7"
  using ai_table.guest_roundtrip [OF assms] by (simp add: from_host_ai_flags_def to_host_ai_flags_def)

theorem ai_flags_roundtrip_witness:
  "from_host_ai_flags linux_flag_headers (to_host_ai_flags linux_flag_headers 0x25) = 5"
  using ai_flags_roundtrip [OF linux_ai_masks, where f = "0x25"] by simp

text \<open>
  A request \<open>to_host_mmap_flags\<close> accepts carries every supported flag the host has a
  macro for, and only those, to the host.
\<close>

theorem mmap_flags_carried:
  assumes "to_host_mmap_flags defd h f = Inr r"
  shows "bit r n \<longleftrightarrow> (\<exists>(g, m) \<in> set (mmap_rows defd). f AND g \<noteq> 0 \<and> bit (hmask h m) n)"
proof -
  from assms have "r = to_host_flags h (mmap_rows defd) f"
    by (simp add: to_host_mmap_flags_def split: if_splits)
  then show ?thesis by (simp add: bit_to_host_flags)
qed

theorem mmap_flags_carried_witness:
  "to_host_mmap_flags (\<lambda>m. True) linux_flag_headers 0x22 = Inr 0x22 \<and> bit (0x22 :: u32) 5"
proof -
  have run: "to_host_mmap_flags (\<lambda>m. True) linux_flag_headers 0x22 = Inr 0x22"
    by (simp add: to_host_mmap_flags_def mmap_supported_def mmap_rows_def to_host_flags_def
        translate_flags_def linux_flag_headers_def file_from_host_rows_def ai_from_host_rows_def)
  from mmap_flags_carried [OF run, of 5] run show ?thesis by simp
qed

text \<open>
  bionic's \<open>MAP_FIXED\<close> never reaches the host: where \<open>MAP_FILE\<close> is zero, as on Linux
  and on Apple, and the host's \<open>MAP_FIXED\<close> is a bit of its own, no accepted request sets
  it, and asking for a fixed mapping is the same request as not asking.
\<close>

theorem mmap_fixed_lost:
  assumes "hmask h ''MAP_FILE'' = 0"
    and "\<forall>(g, m) \<in> set (mmap_rows defd). hmask h m AND hmask h ''MAP_FIXED'' = 0"
    and "to_host_mmap_flags defd h f = Inr r"
  shows "r AND hmask h ''MAP_FIXED'' = 0 \<and> to_host_mmap_flags defd h (f OR 0x10) = Inr r"
proof
  have r: "r = to_host_flags h (mmap_rows defd) f" "f AND NOT mmap_supported = 0"
    using assms(3) by (auto simp: to_host_mmap_flags_def split: if_splits)
  from assms(2) show "r AND hmask h ''MAP_FIXED'' = 0"
    unfolding r by (fastforce simp: and_eq_0_iff bit_to_host_flags)
  have other: "(f OR 0x10) AND g = f AND g" if "(g, m) \<in> set (mmap_rows defd)" "m \<noteq> ''MAP_FILE''" for g m
  proof -
    from that have "(0x10 :: u32) AND g = 0" by (auto simp: mmap_rows_def split: if_splits)
    then show ?thesis by (simp add: and_eq_0_iff bit_eq_iff bit_simps) blast
  qed
  have "to_host_flags h (mmap_rows defd) (f OR 0x10) = to_host_flags h (mmap_rows defd) f"
  proof (rule bit_eqI)
    fix n
    have "(f OR 0x10) AND g \<noteq> 0 \<and> bit (hmask h m) n \<longleftrightarrow> f AND g \<noteq> 0 \<and> bit (hmask h m) n"
      if "(g, m) \<in> set (mmap_rows defd)" for g m
      using other [OF that] assms(1) by (cases "m = ''MAP_FILE''") simp_all
    then show "bit (to_host_flags h (mmap_rows defd) (f OR 0x10)) n \<longleftrightarrow>
        bit (to_host_flags h (mmap_rows defd) f) n"
      by (auto simp: bit_to_host_flags)
  qed
  moreover have "(f OR 0x10) AND NOT mmap_supported = 0"
    using r(2) by (simp add: mmap_supported_def bit.conj_disj_distrib2)
  ultimately show "to_host_mmap_flags defd h (f OR 0x10) = Inr r"
    by (simp add: to_host_mmap_flags_def r)
qed

theorem mmap_fixed_lost_witness:
  "(0x22 :: u32) AND hmask linux_flag_headers ''MAP_FIXED'' = 0 \<and>
   to_host_mmap_flags (\<lambda>m. True) linux_flag_headers (0x22 OR 0x10) = Inr 0x22"
  by (rule mmap_fixed_lost)
    (simp_all add: to_host_mmap_flags_def mmap_supported_def mmap_rows_def to_host_flags_def
      translate_flags_def linux_flag_headers_def file_from_host_rows_def ai_from_host_rows_def)

end
