(* ===== verification/Net_Codes.thy ===== *)
theory Net_Codes
  imports Flags
begin

text \<open>
  The enumerations of src/src/network.h and the switches of src/src/network.cpp that
  translate them: address families, socket types, protocols, and the three groups of socket
  options. A C++ scoped enumeration with an \<open>int\<close> base holds any integer, and the
  \<open>default\<close> branches are reached, so enumeration values are integers here.
\<close>

section \<open>Address families\<close>

definition af_from_host_rows :: "(string \<Rightarrow> bool) \<Rightarrow> (string \<times> int) list" where
  "af_from_host_rows defd =
     [(''AF_UNSPEC'', 0), (''AF_UNIX'', 1), (''AF_INET'', 2), (''AF_INET6'', 10)] @
     (if defd ''AF_NETLINK'' then [(''AF_NETLINK'', 16)] else [])"

definition af_to_host_rows :: "(string \<Rightarrow> bool) \<Rightarrow> (int \<times> string) list" where
  "af_to_host_rows defd =
     [(0, ''AF_UNSPEC''), (1, ''AF_UNIX''), (2, ''AF_INET''), (10, ''AF_INET6'')] @
     (if defd ''AF_NETLINK'' then [(16, ''AF_NETLINK'')] else [])"

definition from_host_af_family :: "(string \<Rightarrow> bool) \<Rightarrow> headers \<Rightarrow> int \<Rightarrow> int" where
  "from_host_af_family defd h family =
     (case host_case h (af_from_host_rows defd) family of Some f \<Rightarrow> f | None \<Rightarrow> 0)"

definition to_host_af_family :: "(string \<Rightarrow> bool) \<Rightarrow> headers \<Rightarrow> int \<Rightarrow> int" where
  "to_host_af_family defd h family =
     (case guest_case h (af_to_host_rows defd) family of Some f \<Rightarrow> f | None \<Rightarrow> h ''AF_UNSPEC'')"

interpretation af_table: code_table "af_from_host_rows defd" "af_to_host_rows defd" for defd
proof unfold_locales
  have "af_to_host_rows defd = map prod.swap (af_from_host_rows defd)"
    by (simp add: af_from_host_rows_def af_to_host_rows_def)
  then show "set (af_to_host_rows defd) = prod.swap ` set (af_from_host_rows defd)" by simp
qed (simp_all add: af_from_host_rows_def af_to_host_rows_def)

section \<open>Socket types\<close>

definition socktype_from_host_rows :: "(string \<times> int) list" where
  "socktype_from_host_rows = [(''SOCK_STREAM'', 1), (''SOCK_DGRAM'', 2), (''SOCK_RAW'', 3)]"

definition socktype_to_host_rows :: "(int \<times> string) list" where
  "socktype_to_host_rows = [(1, ''SOCK_STREAM''), (2, ''SOCK_DGRAM''), (3, ''SOCK_RAW'')]"

definition from_host_socktype :: "headers \<Rightarrow> int \<Rightarrow> int result" where
  "from_host_socktype h socktype =
     or_throw (host_case h socktype_from_host_rows socktype) ''Unknown socktype %d'' [socktype]"

text \<open>Only the two low bits of the guest's socket type are looked at.\<close>

definition to_host_socktype :: "headers \<Rightarrow> int \<Rightarrow> int result" where
  "to_host_socktype h socktype =
     or_throw (guest_case h socktype_to_host_rows (socktype AND 3)) ''Unknown socktype %d'' [socktype]"

interpretation socktype_table: code_table socktype_from_host_rows socktype_to_host_rows
  by unfold_locales (simp_all add: socktype_from_host_rows_def socktype_to_host_rows_def)

section \<open>Protocols\<close>

definition ipproto_from_host_rows :: "(string \<times> int) list" where
  "ipproto_from_host_rows =
     [(''IPPROTO_IP'', 0), (''IPPROTO_TCP'', 6), (''IPPROTO_UDP'', 17), (''IPPROTO_IPV6'', 41)]"

definition ipproto_to_host_rows :: "(int \<times> string) list" where
  "ipproto_to_host_rows =
     [(0, ''IPPROTO_IP''), (6, ''IPPROTO_TCP''), (17, ''IPPROTO_UDP''), (41, ''IPPROTO_IPV6'')]"

definition from_host_ipproto :: "headers \<Rightarrow> int \<Rightarrow> int result" where
  "from_host_ipproto h proto =
     or_throw (host_case h ipproto_from_host_rows proto) ''Unknown ipproto %d'' [proto]"

definition to_host_ipproto :: "headers \<Rightarrow> int \<Rightarrow> int result" where
  "to_host_ipproto h proto =
     or_throw (guest_case h ipproto_to_host_rows proto) ''Unknown ipproto %d'' [proto]"

interpretation ipproto_table: code_table ipproto_from_host_rows ipproto_to_host_rows
  by unfold_locales (simp_all add: ipproto_from_host_rows_def ipproto_to_host_rows_def)

section \<open>Socket options\<close>

definition to_host_sockopt_so :: "(string \<Rightarrow> bool) \<Rightarrow> headers \<Rightarrow> int \<Rightarrow> int result" where
  "to_host_sockopt_so defd h opt =
     or_throw (guest_case h
       ([(1, ''SO_DEBUG''), (2, ''SO_REUSEADDR''), (3, ''SO_TYPE''), (4, ''SO_ERROR''),
         (5, ''SO_DONTROUTE''), (6, ''SO_BROADCAST''), (7, ''SO_SNDBUF''), (8, ''SO_RCVBUF''),
         (9, ''SO_KEEPALIVE''), (10, ''SO_OOBINLINE''), (13, ''SO_LINGER''), (15, ''SO_REUSEPORT''),
         (29, if defd ''SO_TIMESTAMP_OLD'' then ''SO_TIMESTAMP_OLD'' else ''SO_TIMESTAMP'')] @
        (if defd ''SO_TIMESTAMP_NEW'' then [(63, ''SO_TIMESTAMP_NEW'')] else [])) opt)
     ''Unknown SO sockopt %d'' [opt]"

definition to_host_sockopt_ip :: "headers \<Rightarrow> int \<Rightarrow> int result" where
  "to_host_sockopt_ip h opt =
     or_throw (guest_case h
       [(1, ''IP_TOS''), (2, ''IP_TTL''), (3, ''IP_HDRINCL''), (4, ''IP_OPTIONS''),
        (6, ''IP_RECVOPTS''), (7, ''IP_RETOPTS''), (16, ''IP_IPSEC_POLICY''),
        (32, ''IP_MULTICAST_IF''), (33, ''IP_MULTICAST_TTL''), (34, ''IP_MULTICAST_LOOP''),
        (35, ''IP_ADD_MEMBERSHIP''), (36, ''IP_DROP_MEMBERSHIP'')] opt)
     ''Unknown IP sockopt %d'' [opt]"

definition to_host_sockopt_ipv6 :: "headers \<Rightarrow> int \<Rightarrow> int result" where
  "to_host_sockopt_ipv6 h opt =
     or_throw (guest_case h
       [(2, ''IPV6_2292PKTINFO''), (3, ''IPV6_2292HOPOPTS''), (4, ''IPV6_2292DSTOPTS''),
        (5, ''IPV6_2292RTHDR''), (6, ''IPV6_2292PKTOPTIONS''), (7, ''IPV6_CHECKSUM''),
        (8, ''IPV6_2292HOPLIMIT''), (16, ''IPV6_UNICAST_HOPS''), (17, ''IPV6_MULTICAST_IF''),
        (18, ''IPV6_MULTICAST_HOPS''), (19, ''IPV6_MULTICAST_LOOP''), (20, ''IPV6_JOIN_GROUP''),
        (21, ''IPV6_LEAVE_GROUP''), (26, ''IPV6_V6ONLY''), (34, ''IPV6_IPSEC_POLICY'')] opt)
     ''Unknown IPv6 sockopt %d'' [opt]"

definition to_host_sockopt_level :: "headers \<Rightarrow> int \<Rightarrow> int result" where
  "to_host_sockopt_level h level =
     (if level = 1 then Inr (h ''SOL_SOCKET'') else to_host_ipproto h level)"

text \<open>The option switch looks at the translated level, whose labels are host macros.\<close>

definition to_host_sockopt :: "(string \<Rightarrow> bool) \<Rightarrow> headers \<Rightarrow> int \<Rightarrow> int \<Rightarrow> int result" where
  "to_host_sockopt defd h level opt =
     bindR (to_host_sockopt_level h level) (\<lambda>level.
       if level = h ''SOL_SOCKET'' then to_host_sockopt_so defd h opt
       else if level = h ''IPPROTO_IP'' then to_host_sockopt_ip h opt
       else if level = h ''IPPROTO_IPV6'' then to_host_sockopt_ipv6 h opt
       else if level = h ''IPPROTO_TCP'' then Inr opt
       else Inl (Runtime_error ''Unknown sockopt level %d'' [level]))"

section \<open>Properties\<close>

definition linux_net_headers :: headers where
  "linux_net_headers m =
     (case map_of (af_from_host_rows (\<lambda>_. True) @ socktype_from_host_rows @ ipproto_from_host_rows @
        [(''SOL_SOCKET'', 1), (''SO_REUSEADDR'', 2), (''IP_TTL'', 2), (''IPV6_V6ONLY'', 26),
         (''MSG_NOSIGNAL'', 0x4000), (''MSG_DONTWAIT'', 0x40), (''MSG_PEEK'', 2)]) m
      of Some v \<Rightarrow> v | None \<Rightarrow> 0)"

lemma linux_net_values [simp]:
  "linux_net_headers ''AF_UNSPEC'' = 0" "linux_net_headers ''AF_UNIX'' = 1"
  "linux_net_headers ''AF_INET'' = 2" "linux_net_headers ''AF_INET6'' = 10"
  "linux_net_headers ''AF_NETLINK'' = 16" "linux_net_headers ''SOCK_STREAM'' = 1"
  "linux_net_headers ''SOCK_DGRAM'' = 2" "linux_net_headers ''SOCK_RAW'' = 3"
  "linux_net_headers ''IPPROTO_IP'' = 0" "linux_net_headers ''IPPROTO_TCP'' = 6"
  "linux_net_headers ''IPPROTO_UDP'' = 17" "linux_net_headers ''IPPROTO_IPV6'' = 41"
  "linux_net_headers ''SOL_SOCKET'' = 1" "linux_net_headers ''SO_REUSEADDR'' = 2"
  "linux_net_headers ''MSG_NOSIGNAL'' = 0x4000" "linux_net_headers ''MSG_DONTWAIT'' = 0x40"
  "linux_net_headers ''MSG_PEEK'' = 2"
  by (simp_all add: linux_net_headers_def af_from_host_rows_def socktype_from_host_rows_def
      ipproto_from_host_rows_def)



lemma distinct5D:
  "distinct [a, b, c, d, e] \<Longrightarrow>
     b \<noteq> a \<and> c \<noteq> a \<and> d \<noteq> a \<and> e \<noteq> a \<and> c \<noteq> b \<and> d \<noteq> b \<and> e \<noteq> b \<and> d \<noteq> c \<and> e \<noteq> c \<and> e \<noteq> d"
  by auto

text \<open>
  The option translation dispatches on the level the guest names: although the code
  compares host values, bionic's levels 1, 0, 41 and 6 select the socket, IPv4, IPv6 and
  TCP options, UDP options and every other level are refused.
\<close>

theorem sockopt_dispatch:
  assumes "distinct [h ''SOL_SOCKET'', h ''IPPROTO_IP'', h ''IPPROTO_IPV6'', h ''IPPROTO_TCP'',
      h ''IPPROTO_UDP'']"
  shows "to_host_sockopt defd h level opt =
    (if level = 1 then to_host_sockopt_so defd h opt
     else if level = 0 then to_host_sockopt_ip h opt
     else if level = 41 then to_host_sockopt_ipv6 h opt
     else if level = 6 then Inr opt
     else if level = 17 then Inl (Runtime_error ''Unknown sockopt level %d'' [h ''IPPROTO_UDP''])
     else Inl (Runtime_error ''Unknown ipproto %d'' [level]))"
  using assms
proof -
  have "to_host_sockopt_level h level =
    (if level = 1 then Inr (h ''SOL_SOCKET'')
     else if level = 0 then Inr (h ''IPPROTO_IP'') else if level = 6 then Inr (h ''IPPROTO_TCP'')
     else if level = 17 then Inr (h ''IPPROTO_UDP'') else if level = 41 then Inr (h ''IPPROTO_IPV6'')
     else Inl (Runtime_error ''Unknown ipproto %d'' [level]))"
    by (simp add: to_host_sockopt_level_def to_host_ipproto_def ipproto_to_host_rows_def)
  note level = this
  note other = distinct5D [OF assms]
  consider "level = 1" | "level = 0" | "level = 6" | "level = 17" | "level = 41"
    | "level \<notin> {0, 1, 6, 17, 41}" by blast
  then show ?thesis by cases (use level in \<open>simp_all add: to_host_sockopt_def other\<close>)
qed

theorem sockopt_dispatch_witness:
  "to_host_sockopt (\<lambda>_. True) linux_net_headers 1 2 = Inr 2 \<and>
   to_host_sockopt (\<lambda>_. True) linux_net_headers 17 1 =
     Inl (Runtime_error ''Unknown sockopt level %d'' [17])"
  using sockopt_dispatch [of linux_net_headers "\<lambda>_. True" 1 2]
    sockopt_dispatch [of linux_net_headers "\<lambda>_. True" 17 1]
  by (simp add: to_host_sockopt_so_def)

text \<open>
  The mask that keeps the two low bits drops \<open>SOCK_NONBLOCK\<close> and \<open>SOCK_CLOEXEC\<close> from a
  socket type without a word, and makes type 5, \<open>SOCK_SEQPACKET\<close>, the type 1, \<open>SOCK_STREAM\<close>.
\<close>

lemma socktype_high_bits_dropped:
  assumes "to_host_socktype h (t AND 3) = Inr v"
  shows "to_host_socktype h t = Inr v"
  using assms by (auto simp: to_host_socktype_def or_throw_def and.assoc split: option.splits)

lemma seqpacket_becomes_stream:
  "to_host_socktype h 5 = Inr (h ''SOCK_STREAM'')"
  by (simp add: to_host_socktype_def socktype_to_host_rows_def)

end
