(* ===== verification/Buffers.thy ===== *)
theory Buffers
  imports Prelude
begin

text \<open>
  Objects in memory as lists of bytes. An access outside the object is \<open>Memory_fault\<close>.
  Multi-byte integers are little endian, as on every architecture the shim supports.
\<close>

type_synonym byte = "8 word"
type_synonym bytes = "byte list"

section \<open>Reading and writing\<close>

definition rd :: "bytes \<Rightarrow> nat \<Rightarrow> nat \<Rightarrow> bytes result" where
  "rd m off n = (if off + n \<le> length m then Inr (take n (drop off m)) else Inl Memory_fault)"

definition wr :: "bytes \<Rightarrow> nat \<Rightarrow> bytes \<Rightarrow> bytes result" where
  "wr m off bs =
     (if off + length bs \<le> length m then Inr (take off m @ bs @ drop (off + length bs) m)
      else Inl Memory_fault)"

text \<open>\<open>memcpy\<close> of \<open>n\<close> bytes from one object into another.\<close>

definition copy_field :: "bytes \<Rightarrow> nat \<Rightarrow> bytes \<Rightarrow> nat \<Rightarrow> nat \<Rightarrow> bytes result" where
  "copy_field src soff dst doff n = bindR (rd src soff n) (wr dst doff)"

lemma rd_Inr_iff: "rd m off n = Inr bs \<longleftrightarrow> off + n \<le> length m \<and> bs = take n (drop off m)"
  by (auto simp: rd_def)

lemma wr_Inr_iff:
  "wr m off bs = Inr m' \<longleftrightarrow>
     off + length bs \<le> length m \<and> m' = take off m @ bs @ drop (off + length bs) m"
  by (auto simp: wr_def)

lemma rd_length [buffer_simps]: "rd m off n = Inr bs \<Longrightarrow> length bs = n"
  by (auto simp: rd_Inr_iff)

lemma wr_length [buffer_simps]: "wr m off bs = Inr m' \<Longrightarrow> length m' = length m"
  by (auto simp: wr_Inr_iff)

lemma take_drop_splice_before:
  "off + n \<le> o' \<Longrightarrow> o' \<le> length m \<Longrightarrow> take n (drop off (take o' m @ xs)) = take n (drop off m)"
  by (simp add: take_drop min_def)

lemma take_drop_splice_after:
  "o' + length bs \<le> off \<Longrightarrow> o' + length bs \<le> length m \<Longrightarrow>
   drop off (take o' m @ bs @ drop (o' + length bs) m) = drop off m"
  by (simp add: drop_append add.commute)

section \<open>Interface: an object with addressable fields\<close>

text \<open>Writing several fields one after the other, and fields in ascending order up to \<open>hi\<close>.\<close>

fun put_all :: "('m \<Rightarrow> nat \<Rightarrow> bytes \<Rightarrow> 'm result) \<Rightarrow> (nat \<times> bytes) list \<Rightarrow> 'm \<Rightarrow> 'm result" where
  "put_all put [] m = Inr m"
| "put_all put ((off, bs) # fs) m = bindR (put m off bs) (put_all put fs)"

lemma put_all_fun:
  "put_all put [] = Inr"
  "put_all put ((off, bs) # fs) = (\<lambda>m. bindR (put m off bs) (put_all put fs))"
  by (rule ext, simp)+

fun ascending :: "nat \<Rightarrow> (nat \<times> bytes) list \<Rightarrow> nat \<Rightarrow> bool" where
  "ascending lo [] hi \<longleftrightarrow> lo \<le> hi"
| "ascending lo ((off, bs) # fs) hi \<longleftrightarrow> lo \<le> off \<and> ascending (off + length bs) fs hi"

lemma ascending_le: "ascending lo fs hi \<Longrightarrow> lo \<le> hi"
  by (induction fs arbitrary: lo) fastforce+

text \<open>
  What the users of a buffer rely on: a write that fits succeeds and keeps the size, the
  written field reads back, and disjoint fields are untouched.
\<close>

locale field_store =
  fixes size_of :: "'m \<Rightarrow> nat"
    and get :: "'m \<Rightarrow> nat \<Rightarrow> nat \<Rightarrow> bytes result"
    and put :: "'m \<Rightarrow> nat \<Rightarrow> bytes \<Rightarrow> 'm result"
  assumes get_ok: "off + n \<le> size_of m \<Longrightarrow> \<exists>bs. get m off n = Inr bs \<and> length bs = n"
    and get_bad: "\<not> off + n \<le> size_of m \<Longrightarrow> get m off n = Inl Memory_fault"
    and put_ok: "off + length bs \<le> size_of m \<Longrightarrow> \<exists>m'. put m off bs = Inr m'"
    and put_bad: "\<not> off + length bs \<le> size_of m \<Longrightarrow> put m off bs = Inl Memory_fault"
    and size_put: "put m off bs = Inr m' \<Longrightarrow> size_of m' = size_of m"
    and get_put: "put m off bs = Inr m' \<Longrightarrow> n = length bs \<Longrightarrow> get m' off n = Inr bs"
    and get_put_other: "put m off bs = Inr m' \<Longrightarrow> off' + n \<le> off \<or> off + length bs \<le> off' \<Longrightarrow>
      get m' off' n = get m off' n"
begin

lemma get_length: "get m off n = Inr bs \<Longrightarrow> length bs = n"
  using get_ok [of off n m] get_bad [of off n m] by (cases "off + n \<le> size_of m") auto

text \<open>Ascending fields that fit are all written, read back, and nothing else changes.\<close>

lemma put_all_ok:
  "ascending lo fs hi \<Longrightarrow> hi \<le> size_of m \<Longrightarrow>
   \<exists>m'. put_all put fs m = Inr m' \<and> size_of m' = size_of m \<and>
     (\<forall>(off, bs) \<in> set fs. get m' off (length bs) = Inr bs) \<and>
     (\<forall>off n. off + n \<le> lo \<or> hi \<le> off \<longrightarrow> get m' off n = get m off n)"
proof (induction fs arbitrary: lo m)
  case (Cons f fs)
  obtain off bs where f: "f = (off, bs)" by (cases f)
  from Cons.prems f have lo: "lo \<le> off" and asc: "ascending (off + length bs) fs hi" by simp_all
  from ascending_le [OF asc] Cons.prems(2) have "off + length bs \<le> size_of m" by simp
  then obtain m1 where m1: "put m off bs = Inr m1" using put_ok by blast
  then have sz: "size_of m1 = size_of m" by (rule size_put)
  with Cons.prems(2) Cons.IH [OF asc, of m1] obtain m' where m': "put_all put fs m1 = Inr m'"
    "size_of m' = size_of m" "\<forall>(off, bs) \<in> set fs. get m' off (length bs) = Inr bs"
    and frame: "\<forall>o' n. o' + n \<le> off + length bs \<or> hi \<le> o' \<longrightarrow> get m' o' n = get m1 o' n"
    by auto
  have "get m' off (length bs) = Inr bs"
    using frame get_put [OF m1] by simp
  moreover have "get m' o' n = get m o' n" if "o' + n \<le> lo \<or> hi \<le> o'" for o' n
  proof -
    from that lo ascending_le [OF asc] have "o' + n \<le> off \<or> off + length bs \<le> o'" by auto
    from get_put_other [OF m1 this] frame that lo show ?thesis by auto
  qed
  ultimately show ?case using m1 m' f by auto
qed simp

text \<open>Copying a field makes the target read as the source did.\<close>

lemma copy_reads:
  "bindR (get src soff n) (put dst doff) = Inr dst' \<Longrightarrow> get dst' doff n = get src soff n"
proof -
  assume "bindR (get src soff n) (put dst doff) = Inr dst'"
  then obtain bs where bs: "get src soff n = Inr bs" and "put dst doff bs = Inr dst'"
    by (auto simp: bindR_Inr_iff)
  from get_put [OF this(2)] get_length [OF bs] bs show ?thesis by simp
qed

end

interpretation bytes_store: field_store length rd wr
proof unfold_locales
  fix m :: bytes and off n and bs m' :: bytes and off'
  show "off + n \<le> length m \<Longrightarrow> \<exists>bs. rd m off n = Inr bs \<and> length bs = n"
    by (simp add: rd_def)
  show "\<not> off + n \<le> length m \<Longrightarrow> rd m off n = Inl Memory_fault"
    by (simp add: rd_def)
  show "off + length bs \<le> length m \<Longrightarrow> \<exists>m'. wr m off bs = Inr m'"
    by (simp add: wr_def)
  show "\<not> off + length bs \<le> length m \<Longrightarrow> wr m off bs = Inl Memory_fault"
    by (simp add: wr_def)
  show "wr m off bs = Inr m' \<Longrightarrow> length m' = length m"
    by (rule wr_length)
  show "wr m off bs = Inr m' \<Longrightarrow> n = length bs \<Longrightarrow> rd m' off n = Inr bs"
    by (auto simp: wr_Inr_iff rd_def)
  show "rd m' off' n = rd m off' n"
    if "wr m off bs = Inr m'" "off' + n \<le> off \<or> off + length bs \<le> off'"
  proof -
    from that(1) have m': "m' = take off m @ bs @ drop (off + length bs) m"
      and fits: "off + length bs \<le> length m" and len: "length m' = length m"
      by (auto simp: wr_Inr_iff)
    from that(2) have "take n (drop off' m') = take n (drop off' m)"
    proof
      assume "off' + n \<le> off"
      with fits show ?thesis unfolding m' by (simp only: take_drop_splice_before)
    next
      assume "off + length bs \<le> off'"
      with fits show ?thesis unfolding m' by (simp only: take_drop_splice_after)
    qed
    with len show ?thesis by (simp add: rd_def)
  qed
qed

text \<open>What lies behind the written field is untouched.\<close>

lemma wr_drop: "wr m off bs = Inr m' \<Longrightarrow> off + length bs \<le> k \<Longrightarrow> drop k m' = drop k m"
  by (auto simp: wr_Inr_iff drop_append add.commute)

section \<open>Integers in memory\<close>

fun of_le :: "bytes \<Rightarrow> nat" where
  "of_le [] = 0"
| "of_le (b # bs) = unat b + 256 * of_le bs"

fun to_le :: "nat \<Rightarrow> nat \<Rightarrow> bytes" where
  "to_le 0 v = []"
| "to_le (Suc n) v = word_of_nat v # to_le n (v div 256)"

lemma length_to_le [simp]: "length (to_le n v) = n"
  by (induction n arbitrary: v) simp_all

lemma of_le_to_le: "of_le (to_le n v) = v mod 256 ^ n"
proof (induction n arbitrary: v)
  case (Suc n)
  have "v mod 256 ^ Suc n = v mod 256 + 256 * (v div 256 mod 256 ^ n)"
    by (simp add: mod_mult2_eq)
  with Suc show ?case by (simp add: unat_of_nat)
qed simp

lemma of_le_less: "of_le bs < 256 ^ length bs"
proof (induction bs)
  case (Cons b bs)
  have "unat b < 256" using unsigned_less [of b] by simp
  with Cons show ?case by simp
qed simp

definition load_le :: "bytes \<Rightarrow> nat \<Rightarrow> nat \<Rightarrow> nat result" where
  "load_le m off n = bindR (rd m off n) (\<lambda>bs. Inr (of_le bs))"

definition store_le :: "bytes \<Rightarrow> nat \<Rightarrow> nat \<Rightarrow> nat \<Rightarrow> bytes result" where
  "store_le m off n v = wr m off (to_le n v)"

lemma load_store_le:
  "store_le m off n v = Inr m' \<Longrightarrow> load_le m' off n = Inr (v mod 256 ^ n)"
  by (simp add: store_le_def load_le_def bytes_store.get_put of_le_to_le)

lemma load_store_le_other:
  "store_le m off n v = Inr m' \<Longrightarrow> off' + k \<le> off \<or> off + n \<le> off' \<Longrightarrow>
   rd m' off' k = rd m off' k"
  by (simp add: store_le_def bytes_store.get_put_other)

end
