(* ===== verification/Sockaddr.thy ===== *)
theory Sockaddr
  imports Net_Codes Buffers
begin

text \<open>
  Socket addresses: the structures \<open>bionic::sockaddr\<close>, \<open>sockaddr_un\<close>, \<open>sockaddr_in\<close> and
  \<open>sockaddr_in6\<close> of src/src/network.h, their conversion from and to the host's structures
  in src/src/network.cpp, and the two helper objects \<open>detail::sockaddr_in\<close> and
  \<open>detail::sockaddr_out\<close> around every socket call. Addresses are byte buffers, accessed by
  cast pointers in the code and by field offsets here.
\<close>

section \<open>Layouts\<close>

text \<open>
  Where a structure's fields lie. bionic's layout is fixed by src/src/network.h; the host's
  is a parameter, since its structures are declared by the system's headers.
\<close>

record sa_layout =
  family_off :: nat
  family_len :: nat
  un_path :: nat
  un_size :: nat
  in_port :: nat
  in_addr :: nat
  in_size :: nat
  in6_port :: nat
  in6_flow :: nat
  in6_addr :: nat
  in6_scope :: nat
  in6_size :: nat

definition bionic_layout :: sa_layout where
  "bionic_layout = \<lparr>family_off = 0, family_len = 2, un_path = 2, un_size = 110,
     in_port = 2, in_addr = 4, in_size = 16,
     in6_port = 2, in6_flow = 4, in6_addr = 8, in6_scope = 24, in6_size = 28\<rparr>"

text \<open>The size of the host's \<open>sockaddr_storage\<close>, which every supported system has.\<close>

definition storage_size :: nat where
  "storage_size = 128"

section \<open>Conversions\<close>

definition from_host_sockaddr :: "sa_layout \<Rightarrow> headers \<Rightarrow> bytes \<Rightarrow> bytes \<Rightarrow> bytes result" where
  "from_host_sockaddr L h i out =
     bindR (load_le i (family_off L) (family_len L)) (\<lambda>fam.
       if int fam = h ''AF_UNSPEC'' then store_le out 0 2 0
       else if int fam = h ''AF_UNIX'' then
         bindR (store_le out 0 2 fam) (\<lambda>out. copy_field i (un_path L) out 2 108)
       else if int fam = h ''AF_INET'' then
         bindR (store_le out 0 2 2) (\<lambda>out.
         bindR (copy_field i (in_port L) out 2 2) (\<lambda>out. copy_field i (in_addr L) out 4 4))
       else if int fam = h ''AF_INET6'' then
         bindR (store_le out 0 2 10) (\<lambda>out.
         bindR (copy_field i (in6_port L) out 2 2) (\<lambda>out.
         bindR (copy_field i (in6_flow L) out 4 4) (\<lambda>out.
         bindR (copy_field i (in6_addr L) out 8 16) (\<lambda>out. copy_field i (in6_scope L) out 24 4))))
       else Inl (Runtime_error
         ''Unknown socket family when converting sockaddr from host %d'' [int fam]))"

definition to_host_sockaddr :: "sa_layout \<Rightarrow> headers \<Rightarrow> bytes \<Rightarrow> bytes \<Rightarrow> bytes result" where
  "to_host_sockaddr L h i out =
     bindR (load_le i 0 2) (\<lambda>fam.
       if fam = 0 then store_le out (family_off L) (family_len L) (nat (h ''AF_UNSPEC''))
       else if fam = 1 then
         bindR (store_le out (family_off L) (family_len L) fam) (\<lambda>out.
           copy_field i 2 out (un_path L) 108)
       else if fam = 2 then
         bindR (store_le out (family_off L) (family_len L) (nat (h ''AF_INET''))) (\<lambda>out.
         bindR (copy_field i 2 out (in_port L) 2) (\<lambda>out. copy_field i 4 out (in_addr L) 4))
       else if fam = 10 then
         bindR (store_le out (family_off L) (family_len L) (nat (h ''AF_INET6''))) (\<lambda>out.
         bindR (copy_field i 2 out (in6_port L) 2) (\<lambda>out.
         bindR (copy_field i 4 out (in6_flow L) 4) (\<lambda>out.
         bindR (copy_field i 8 out (in6_addr L) 16) (\<lambda>out. copy_field i 24 out (in6_scope L) 4))))
       else Inl (Runtime_error
         ''Unknown socket family when converting sockaddr to host %d'' [int fam]))"

definition get_host_len :: "sa_layout \<Rightarrow> bytes option \<Rightarrow> nat result" where
  "get_host_len L i =
     (case i of None \<Rightarrow> Inr 0
      | Some i \<Rightarrow>
          bindR (load_le i 0 2) (\<lambda>fam.
            if fam = 1 then Inr (un_size L)
            else if fam = 2 then Inr (in_size L)
            else if fam = 10 then Inr (in6_size L)
            else Inl (Runtime_error
              ''Unknown socket family when converting sockaddr to host %d'' [int fam])))"

definition get_bionic_len :: "sa_layout \<Rightarrow> headers \<Rightarrow> bytes option \<Rightarrow> nat result" where
  "get_bionic_len L h i =
     (case i of None \<Rightarrow> Inr 0
      | Some i \<Rightarrow>
          bindR (load_le i (family_off L) (family_len L)) (\<lambda>fam.
            if int fam = h ''AF_UNIX'' then Inr (un_size bionic_layout)
            else if int fam = h ''AF_INET'' then Inr (in_size bionic_layout)
            else if int fam = h ''AF_INET6'' then Inr (in6_size bionic_layout)
            else Inl (Runtime_error
              ''Unknown socket family when converting sockaddr from host %d'' [int fam])))"

section \<open>The helper objects around a socket call\<close>

text \<open>
  \<open>detail::sockaddr_in\<close> holds a host address converted from the guest's; its constructor
  takes the guest's length and does not look at it. A null guest pointer is \<open>None\<close>.
\<close>

record sockaddr_in =
  haddr :: bytes
  hlen :: nat

definition make_sockaddr_in :: "sa_layout \<Rightarrow> headers \<Rightarrow> bytes option \<Rightarrow> nat \<Rightarrow> sockaddr_in result" where
  "make_sockaddr_in L h addr addrlen =
     (let storage = replicate storage_size 0 in
      case addr of
        None \<Rightarrow> Inr \<lparr>haddr = storage, hlen = 0\<rparr>
      | Some a \<Rightarrow>
          bindR (to_host_sockaddr L h a storage) (\<lambda>s.
          bindR (get_host_len L (Some a)) (\<lambda>n. Inr \<lparr>haddr = s, hlen = n\<rparr>)))"

definition sockaddr_in_ptr :: "sockaddr_in \<Rightarrow> bytes option" where
  "sockaddr_in_ptr s = (if hlen s \<noteq> 0 then Some (haddr s) else None)"

text \<open>
  \<open>detail::sockaddr_out\<close> starts as zeroed storage, is filled by the host, and \<open>apply\<close>
  converts it into the guest's buffer \<open>addr\<close> whose size the guest gives in \<open>addrlen\<close>; it
  returns the buffer and the new length.
\<close>

definition sockaddr_out_storage :: bytes where
  "sockaddr_out_storage = replicate storage_size 0"

definition sockaddr_out_apply ::
  "sa_layout \<Rightarrow> headers \<Rightarrow> bytes \<Rightarrow> bytes \<Rightarrow> nat \<Rightarrow> (bytes \<times> nat) result" where
  "sockaddr_out_apply L h storage addr addrlen =
     bindR (get_bionic_len L h (Some storage)) (\<lambda>n.
       if n > addrlen then Inl (Runtime_error ''buffer for sockaddr not big enough'' [])
       else bindR (from_host_sockaddr L h storage addr) (\<lambda>addr.
         bindR (get_bionic_len L h (Some storage)) (\<lambda>n. Inr (addr, n))))"

section \<open>What an address says\<close>

text \<open>
  The abstract content of an address, read through a layout once the family is known. The
  conversions are correct when the content on one side is the content on the other.
\<close>

datatype af_kind = Af_unspec | Af_unix | Af_inet | Af_inet6

datatype sa_view =
    V_unspec
  | V_unix bytes
  | V_inet bytes bytes
  | V_inet6 bytes bytes bytes bytes

fun kind_of :: "sa_view \<Rightarrow> af_kind" where
  "kind_of V_unspec = Af_unspec"
| "kind_of (V_unix p) = Af_unix"
| "kind_of (V_inet p a) = Af_inet"
| "kind_of (V_inet6 p f a s) = Af_inet6"

fun load_view :: "sa_layout \<Rightarrow> af_kind \<Rightarrow> bytes \<Rightarrow> sa_view result" where
  "load_view L Af_unspec m = Inr V_unspec"
| "load_view L Af_unix m = bindR (rd m (un_path L) 108) (\<lambda>p. Inr (V_unix p))"
| "load_view L Af_inet m =
     bindR (rd m (in_port L) 2) (\<lambda>p. bindR (rd m (in_addr L) 4) (\<lambda>a. Inr (V_inet p a)))"
| "load_view L Af_inet6 m =
     bindR (rd m (in6_port L) 2) (\<lambda>p. bindR (rd m (in6_flow L) 4) (\<lambda>f.
     bindR (rd m (in6_addr L) 16) (\<lambda>a. bindR (rd m (in6_scope L) 4) (\<lambda>s. Inr (V_inet6 p f a s)))))"

definition host_kind :: "headers \<Rightarrow> nat \<Rightarrow> af_kind option" where
  "host_kind h fam =
     host_case h [(''AF_UNSPEC'', Af_unspec), (''AF_UNIX'', Af_unix), (''AF_INET'', Af_inet),
       (''AF_INET6'', Af_inet6)] (int fam)"

definition guest_kind :: "nat \<Rightarrow> af_kind option" where
  "guest_kind fam = map_of [(0, Af_unspec), (1, Af_unix), (2, Af_inet), (10, Af_inet6)] fam"

definition host_view :: "sa_layout \<Rightarrow> headers \<Rightarrow> bytes \<Rightarrow> sa_view result" where
  "host_view L h m = bindR (load_le m (family_off L) (family_len L)) (\<lambda>fam.
     bindR (or_throw (host_kind h fam) [] [int fam]) (\<lambda>k. load_view L k m))"

definition guest_view :: "bytes \<Rightarrow> sa_view result" where
  "guest_view m = bindR (load_le m 0 2) (\<lambda>fam.
     bindR (or_throw (guest_kind fam) [] [int fam]) (\<lambda>k. load_view bionic_layout k m))"

fun wf_view :: "sa_view \<Rightarrow> bool" where
  "wf_view V_unspec \<longleftrightarrow> True"
| "wf_view (V_unix p) \<longleftrightarrow> length p = 108"
| "wf_view (V_inet p a) \<longleftrightarrow> length p = 2 \<and> length a = 4"
| "wf_view (V_inet6 p f a s) \<longleftrightarrow> length p = 2 \<and> length f = 4 \<and> length a = 16 \<and> length s = 4"

fun view_fields :: "sa_layout \<Rightarrow> sa_view \<Rightarrow> (nat \<times> bytes) list" where
  "view_fields L V_unspec = []"
| "view_fields L (V_unix p) = [(un_path L, p)]"
| "view_fields L (V_inet p a) = [(in_port L, p), (in_addr L, a)]"
| "view_fields L (V_inet6 p f a s) =
     [(in6_port L, p), (in6_flow L, f), (in6_addr L, a), (in6_scope L, s)]"

fun view_end :: "sa_layout \<Rightarrow> sa_view \<Rightarrow> nat" where
  "view_end L V_unspec = family_off L + family_len L"
| "view_end L (V_unix p) = un_path L + 108"
| "view_end L (V_inet p a) = in_addr L + 4"
| "view_end L (V_inet6 p f a s) = in6_scope L + 4"

lemma load_view_wf: "load_view L k m = Inr v \<Longrightarrow> wf_view v \<and> kind_of v = k"
  by (cases k) (auto simp: bindR_Inr_iff rd_Inr_iff)

text \<open>Storing an address of a given family number, the effect both conversions should have.\<close>

definition store_view :: "sa_layout \<Rightarrow> nat \<Rightarrow> sa_view \<Rightarrow> bytes \<Rightarrow> bytes result" where
  "store_view L fam v = put_all wr ((family_off L, to_le (family_len L) fam) # view_fields L v)"

section \<open>Interface: a usable layout\<close>

text \<open>
  The family comes first and the fields of each structure do not overlap. A stored address
  then reads back, whatever the buffer held, and bytes behind its last field survive.
\<close>

locale sa_layout_ok =
  fixes L :: sa_layout
  assumes family_first: "family_off L + family_len L \<le> un_path L"
      "family_off L + family_len L \<le> in_port L" "family_off L + family_len L \<le> in6_port L"
    and in_fields: "in_port L + 2 \<le> in_addr L"
    and in6_fields: "in6_port L + 2 \<le> in6_flow L" "in6_flow L + 4 \<le> in6_addr L"
      "in6_addr L + 16 \<le> in6_scope L"
begin

lemma fields_ascending:
  "wf_view v \<Longrightarrow>
   ascending 0 ((family_off L, to_le (family_len L) fam) # view_fields L v) (view_end L v)"
  using family_first in_fields in6_fields by (cases v) auto

lemma store_view_ok:
  assumes "wf_view v" and "view_end L v \<le> length m" and "fam < 256 ^ family_len L"
  shows "\<exists>m'. store_view L fam v m = Inr m' \<and> length m' = length m \<and>
    load_le m' (family_off L) (family_len L) = Inr fam \<and> load_view L (kind_of v) m' = Inr v \<and>
    (\<forall>off n. view_end L v \<le> off \<longrightarrow> rd m' off n = rd m off n)"
proof -
  from bytes_store.put_all_ok [OF fields_ascending [OF assms(1)] assms(2)]
  obtain m' where m': "store_view L fam v m = Inr m'" "length m' = length m"
    and stored: "\<forall>(off, bs) \<in> set ((family_off L, to_le (family_len L) fam) # view_fields L v).
      rd m' off (length bs) = Inr bs"
    and frame: "\<forall>off n. off + n \<le> 0 \<or> view_end L v \<le> off \<longrightarrow> rd m' off n = rd m off n"
    unfolding store_view_def by blast
  from stored assms(3) have "load_le m' (family_off L) (family_len L) = Inr fam"
    by (simp add: load_le_def of_le_to_le)
  moreover from stored assms(1) have "load_view L (kind_of v) m' = Inr v"
    by (cases v) auto
  ultimately show ?thesis using m' frame by blast
qed

end

lemma bionic_sizes:
  "family_off bionic_layout = 0" "family_len bionic_layout = 2"
  "un_path bionic_layout = 2" "un_size bionic_layout = 110"
  "in_port bionic_layout = 2" "in_addr bionic_layout = 4" "in_size bionic_layout = 16"
  "in6_port bionic_layout = 2" "in6_flow bionic_layout = 4" "in6_addr bionic_layout = 8"
  "in6_scope bionic_layout = 24" "in6_size bionic_layout = 28"
  by (simp_all add: bionic_layout_def)

interpretation bionic: sa_layout_ok bionic_layout
  by unfold_locales (simp_all add: bionic_layout_def)

section \<open>The conversions store what they load\<close>

fun guest_code :: "sa_view \<Rightarrow> nat" where
  "guest_code V_unspec = 0"
| "guest_code (V_unix p) = 1"
| "guest_code (V_inet p a) = 2"
| "guest_code (V_inet6 p f a s) = 10"

fun host_code :: "headers \<Rightarrow> sa_view \<Rightarrow> nat" where
  "host_code h V_unspec = nat (h ''AF_UNSPEC'')"
| "host_code h (V_unix p) = nat (h ''AF_UNIX'')"
| "host_code h (V_inet p a) = nat (h ''AF_INET'')"
| "host_code h (V_inet6 p f a s) = nat (h ''AF_INET6'')"

text \<open>
  What the conversions rely on of the host's address families: different numbers that fit
  the family field, and \<open>AF_UNIX\<close> numbered 1 as in bionic, since it is copied untranslated.
\<close>

definition af_headers_ok :: "sa_layout \<Rightarrow> headers \<Rightarrow> bool" where
  "af_headers_ok L h \<longleftrightarrow>
     distinct [h ''AF_UNSPEC'', h ''AF_UNIX'', h ''AF_INET'', h ''AF_INET6''] \<and>
     list_all (\<lambda>i. 0 \<le> i \<and> i < 256 ^ family_len L)
       [h ''AF_UNSPEC'', h ''AF_UNIX'', h ''AF_INET'', h ''AF_INET6''] \<and> h ''AF_UNIX'' = 1"

lemma host_viewD:
  assumes "host_view L h m = Inr v"
  shows "\<exists>fam. load_le m (family_off L) (family_len L) = Inr fam \<and>
    host_kind h fam = Some (kind_of v) \<and> load_view L (kind_of v) m = Inr v \<and> wf_view v"
proof -
  from assms obtain fam k where "load_le m (family_off L) (family_len L) = Inr fam"
    "host_kind h fam = Some k" "load_view L k m = Inr v"
    unfolding host_view_def by (auto simp: bindR_Inr_iff)
  with load_view_wf [OF this(3)] show ?thesis by simp
qed

lemma guest_viewD:
  assumes "guest_view m = Inr v"
  shows "load_le m 0 2 = Inr (guest_code v)" "load_view bionic_layout (kind_of v) m = Inr v" "wf_view v"
proof -
  from assms obtain fam k where fam: "load_le m 0 2 = Inr fam" "guest_kind fam = Some k"
    and load: "load_view bionic_layout k m = Inr v"
    unfolding guest_view_def by (auto simp: bindR_Inr_iff)
  note v = load_view_wf [OF load]
  from fam(2) v have "fam = guest_code v"
    by (cases v) (auto simp: guest_kind_def split: if_splits)
  with fam load v show "load_le m 0 2 = Inr (guest_code v)"
    "load_view bionic_layout (kind_of v) m = Inr v" "wf_view v" by auto
qed

text \<open>The family switch over four different numbers, free of their names.\<close>

lemma map_of_four:
  "distinct [a, b, c, d] \<Longrightarrow> map_of [(a, w), (b, x), (c, y), (d, z)] k = Some r \<longleftrightarrow>
     (k = a \<and> r = w) \<or> (k = b \<and> r = x) \<or> (k = c \<and> r = y) \<or> (k = d \<and> r = z)"
  by auto

lemma host_kind_eq:
  assumes "af_headers_ok L h"
  shows "host_kind h fam = Some k \<longleftrightarrow>
    (int fam = h ''AF_UNSPEC'' \<and> k = Af_unspec) \<or> (int fam = h ''AF_UNIX'' \<and> k = Af_unix) \<or>
    (int fam = h ''AF_INET'' \<and> k = Af_inet) \<or> (int fam = h ''AF_INET6'' \<and> k = Af_inet6)"
proof -
  from assms have "distinct [h ''AF_UNSPEC'', h ''AF_UNIX'', h ''AF_INET'', h ''AF_INET6'']"
    unfolding af_headers_ok_def by blast
  from map_of_four [OF this, of Af_unspec Af_unix Af_inet Af_inet6 "int fam" k]
  show ?thesis by (simp only: host_kind_def host_case_def list.map prod.case)
qed

lemma host_code_int:
  assumes "af_headers_ok L h"
  shows "int (host_code h V_unspec) = h ''AF_UNSPEC''" "int (host_code h (V_unix b1)) = h ''AF_UNIX''"
    "int (host_code h (V_inet b1 b2)) = h ''AF_INET''"
    "int (host_code h (V_inet6 b1 b2 b3 b4)) = h ''AF_INET6''"
  using assms unfolding af_headers_ok_def by simp_all

lemma host_kind_code:
  assumes "af_headers_ok L h"
  shows "host_kind h (host_code h v) = Some (kind_of v)"
  unfolding host_kind_eq [OF assms] by (cases v) (simp_all only: host_code_int [OF assms] kind_of.simps simp_thms)

lemma host_code_fits:
  assumes "af_headers_ok L h"
  shows "host_code h v < 256 ^ family_len L"
proof -
  from assms have "0 \<le> int (host_code h v) \<and> int (host_code h v) < 256 ^ family_len L"
    by (cases v) (simp_all only: host_code_int [OF assms], simp_all add: af_headers_ok_def)
  then have "int (host_code h v) < int (256 ^ family_len L)" by simp
  then show ?thesis by (simp only: of_nat_less_iff)
qed

lemma distinct4D:
  "distinct [a, b, c, d] \<Longrightarrow> b \<noteq> a \<and> c \<noteq> a \<and> d \<noteq> a \<and> c \<noteq> b \<and> d \<noteq> b \<and> d \<noteq> c"
  by auto

lemma family_codes_differ:
  assumes "af_headers_ok L h"
  shows "h ''AF_UNIX'' \<noteq> h ''AF_UNSPEC'' \<and> h ''AF_INET'' \<noteq> h ''AF_UNSPEC'' \<and>
    h ''AF_INET6'' \<noteq> h ''AF_UNSPEC'' \<and> h ''AF_INET'' \<noteq> h ''AF_UNIX'' \<and>
    h ''AF_INET6'' \<noteq> h ''AF_UNIX'' \<and> h ''AF_INET6'' \<noteq> h ''AF_INET''"
  using assms unfolding af_headers_ok_def by (intro distinct4D) blast

lemma store_view_simps:
  "store_view L fam v out =
     bindR (store_le out (family_off L) (family_len L) fam) (put_all wr (view_fields L v))"
  by (simp add: store_view_def store_le_def)

text \<open>The fields of a loaded address, and the writes of a stored one, one by one.\<close>

lemma load_view_iff:
  "load_view L Af_unix m = Inr (V_unix p) \<longleftrightarrow> rd m (un_path L) 108 = Inr p"
  "load_view L Af_inet m = Inr (V_inet p a) \<longleftrightarrow> rd m (in_port L) 2 = Inr p \<and> rd m (in_addr L) 4 = Inr a"
  "load_view L Af_inet6 m = Inr (V_inet6 p f a s) \<longleftrightarrow>
     rd m (in6_port L) 2 = Inr p \<and> rd m (in6_flow L) 4 = Inr f \<and>
     rd m (in6_addr L) 16 = Inr a \<and> rd m (in6_scope L) 4 = Inr s"
  by (auto simp: bindR_Inr_iff)

declare load_view.simps [simp del]

lemma from_host_stores:
  assumes ok: "af_headers_ok L h" and "host_view L h i = Inr v"
  shows "from_host_sockaddr L h i out = store_view bionic_layout (guest_code v) v out"
proof -
  from host_viewD [OF assms(2)] obtain fam where fam: "load_le i (family_off L) (family_len L) = Inr fam"
    and kind: "host_kind h fam = Some (kind_of v)" and load: "load_view L (kind_of v) i = Inr v"
    by blast
  note differ = family_codes_differ [OF ok]
  from ok have unix: "h ''AF_UNIX'' = 1" unfolding af_headers_ok_def by blast
  note steps = from_host_sockaddr_def store_view_simps copy_field_def put_all_fun bionic_layout_def
    load_view_iff
  show ?thesis
  proof (cases v)
    case V_unspec
    with kind fam show ?thesis by (simp add: steps host_kind_eq [OF ok])
  next
    case (V_unix p)
    with kind have "int fam = 1" by (simp add: host_kind_eq [OF ok] unix)
    then have "fam = 1" by simp
    with V_unix fam load unix differ show ?thesis by (simp add: steps)
  next
    case (V_inet p a)
    with kind fam load differ show ?thesis by (simp add: steps host_kind_eq [OF ok])
  next
    case (V_inet6 p f a s)
    with kind fam load differ show ?thesis by (simp add: steps host_kind_eq [OF ok])
  qed
qed

lemma to_host_stores:
  assumes ok: "af_headers_ok L h" and "guest_view i = Inr v"
  shows "to_host_sockaddr L h i out = store_view L (host_code h v) v out"
proof -
  note g = guest_viewD [OF assms(2)]
  from ok have unix: "h ''AF_UNIX'' = 1" unfolding af_headers_ok_def by blast
  with g show ?thesis
    by (cases v) (simp_all add: to_host_sockaddr_def store_view_simps copy_field_def put_all_fun
        bionic_layout_def load_view_iff)
qed


text \<open>A stored address is read back by the side it was stored for.\<close>

lemma bionic_store_view:
  assumes "wf_view v" and "view_end bionic_layout v \<le> length m"
  shows "\<exists>m'. store_view bionic_layout (guest_code v) v m = Inr m' \<and> guest_view m' = Inr v \<and>
    length m' = length m \<and> (\<forall>off n. view_end bionic_layout v \<le> off \<longrightarrow> rd m' off n = rd m off n)"
proof -
  have "guest_code v < 256 ^ family_len bionic_layout"
    by (cases v) (simp_all add: bionic_layout_def)
  from bionic.store_view_ok [OF assms this] obtain m' where
    m': "store_view bionic_layout (guest_code v) v m = Inr m'" "length m' = length m"
    "load_le m' 0 2 = Inr (guest_code v)" "load_view bionic_layout (kind_of v) m' = Inr v"
    "\<forall>off n. view_end bionic_layout v \<le> off \<longrightarrow> rd m' off n = rd m off n"
    by (auto simp: bionic_layout_def)
  have "guest_kind (guest_code v) = Some (kind_of v)"
    by (cases v) (simp_all add: guest_kind_def)
  with m' show ?thesis by (auto simp: guest_view_def)
qed

lemma host_store_view:
  assumes "sa_layout_ok L" and "af_headers_ok L h" and "wf_view v" and "view_end L v \<le> length m"
  shows "\<exists>m'. store_view L (host_code h v) v m = Inr m' \<and> host_view L h m' = Inr v \<and>
    length m' = length m \<and> (\<forall>off n. view_end L v \<le> off \<longrightarrow> rd m' off n = rd m off n)"
proof -
  from sa_layout_ok.store_view_ok [OF assms(1,3,4) host_code_fits [OF assms(2)]]
  obtain m' where "store_view L (host_code h v) v m = Inr m'" "length m' = length m"
    "load_le m' (family_off L) (family_len L) = Inr (host_code h v)"
    "load_view L (kind_of v) m' = Inr v"
    "\<forall>off n. view_end L v \<le> off \<longrightarrow> rd m' off n = rd m off n"
    by blast
  then show ?thesis by (auto simp: host_view_def host_kind_code [OF assms(2)])
qed

lemma host_view_wf: "host_view L h i = Inr v \<Longrightarrow> wf_view v"
  using host_viewD by blast

text \<open>The lengths the shim announces: the size of the structure of the address's family.\<close>

fun view_size :: "sa_layout \<Rightarrow> sa_view \<Rightarrow> nat" where
  "view_size L V_unspec = 0"
| "view_size L (V_unix p) = un_size L"
| "view_size L (V_inet p a) = in_size L"
| "view_size L (V_inet6 p f a s) = in6_size L"

lemma host_len_view:
  assumes "guest_view i = Inr v" and "v \<noteq> V_unspec"
  shows "get_host_len L (Some i) = Inr (view_size L v)"
  using guest_viewD(1) [OF assms(1)] assms(2) by (cases v) (simp_all add: get_host_len_def)

lemma bionic_len_view:
  assumes ok: "af_headers_ok L h" and "host_view L h i = Inr v" and "v \<noteq> V_unspec"
  shows "get_bionic_len L h (Some i) = Inr (view_size bionic_layout v)"
proof -
  from host_viewD [OF assms(2)] obtain fam where "load_le i (family_off L) (family_len L) = Inr fam"
    "host_kind h fam = Some (kind_of v)" by blast
  with family_codes_differ [OF ok] assms(3) show ?thesis
    by (cases v) (simp_all add: get_bionic_len_def host_kind_eq [OF ok])
qed

lemma view_end_size: "v \<noteq> V_unspec \<Longrightarrow> view_end bionic_layout v \<le> view_size bionic_layout v"
  by (cases v) (simp_all add: bionic_layout_def)

lemma apply_fits:
  assumes "af_headers_ok L h" and "host_view L h storage = Inr v" and "v \<noteq> V_unspec"
    and "view_size bionic_layout v \<le> addrlen" and "view_size bionic_layout v \<le> length addr"
  shows "\<exists>addr'. sockaddr_out_apply L h storage addr addrlen = Inr (addr', view_size bionic_layout v) \<and>
    guest_view addr' = Inr v \<and> length addr' = length addr \<and>
    (\<forall>off n. view_size bionic_layout v \<le> off \<longrightarrow> rd addr' off n = rd addr off n)"
proof -
  note le = view_end_size [OF assms(3)]
  with assms(5) have "view_end bionic_layout v \<le> length addr" by linarith
  from bionic_store_view [OF host_view_wf [OF assms(2)] this] le assms(4) show ?thesis
    by (auto simp: sockaddr_out_apply_def bionic_len_view [OF assms(1-3)] from_host_stores [OF assms(1,2)])
qed

lemma apply_small:
  assumes "af_headers_ok L h" and "host_view L h storage = Inr v" and "v \<noteq> V_unspec"
    and "\<not> view_size bionic_layout v \<le> addrlen"
  shows "sockaddr_out_apply L h storage addr addrlen =
    Inl (Runtime_error ''buffer for sockaddr not big enough'' [])"
  using assms(4) by (simp add: sockaddr_out_apply_def bionic_len_view [OF assms(1-3)])

lemma make_sockaddr_in_view:
  assumes "sa_layout_ok L" and "af_headers_ok L h" and "guest_view a = Inr v" and "v \<noteq> V_unspec"
    and "view_end L v \<le> storage_size"
  shows "\<exists>m. make_sockaddr_in L h (Some a) addrlen = Inr \<lparr>haddr = m, hlen = view_size L v\<rparr> \<and>
    host_view L h m = Inr v"
  using host_store_view [OF assms(1,2) guest_viewD(3) [OF assms(3)], of "replicate storage_size 0"] assms
  by (auto simp: make_sockaddr_in_def to_host_stores [OF assms(2,3)] host_len_view)

section \<open>Properties\<close>

lemma linux_af_headers: "af_headers_ok bionic_layout linux_net_headers"
  by (simp add: af_headers_ok_def bionic_layout_def)

text \<open>A concrete address: port 80 of 127.0.0.1.\<close>

definition loopback_80 :: bytes where
  "loopback_80 = [2, 0, 0, 80, 127, 0, 0, 1, 0, 0, 0, 0, 0, 0, 0, 0]"

lemma loopback_80_view:
  "guest_view loopback_80 = Inr (V_inet [0, 80] [127, 0, 0, 1])"
  by (simp add: guest_view_def loopback_80_def load_le_def rd_def guest_kind_def load_view.simps
      bionic_layout_def)

lemma loopback_80_host_view:
  "host_view bionic_layout linux_net_headers loopback_80 = Inr (V_inet [0, 80] [127, 0, 0, 1])"
  by (simp add: host_view_def loopback_80_def load_le_def rd_def load_view.simps
      host_kind_def bionic_layout_def)

text \<open>
  C12. Converting an address from the host into a buffer large enough for it succeeds, the
  guest reads from the buffer exactly what the host's address says, and no byte behind the
  address is written.
\<close>

theorem from_host_sockaddr_refines:
  assumes "af_headers_ok L h" and "host_view L h i = Inr v"
    and "view_end bionic_layout v \<le> length out"
  shows "\<exists>out'. from_host_sockaddr L h i out = Inr out' \<and> guest_view out' = Inr v \<and>
    length out' = length out \<and>
    (\<forall>off n. view_end bionic_layout v \<le> off \<longrightarrow> rd out' off n = rd out off n)"
  unfolding from_host_stores [OF assms(1,2)]
  by (rule bionic_store_view [OF host_view_wf [OF assms(2)] assms(3)])

theorem from_host_sockaddr_refines_witness:
  "\<exists>out'. from_host_sockaddr bionic_layout linux_net_headers loopback_80 (replicate 16 0) = Inr out' \<and>
     guest_view out' = Inr (V_inet [0, 80] [127, 0, 0, 1])"
  using from_host_sockaddr_refines [OF linux_af_headers loopback_80_host_view, of "replicate 16 0"]
  by (auto simp: bionic_layout_def)

text \<open>
  C20. Converting the guest's address into a host buffer large enough for it succeeds and
  the host reads from it exactly what the guest's address says, for every host layout whose
  fields do not overlap.
\<close>

theorem to_host_sockaddr_refines:
  assumes "sa_layout_ok L" and "af_headers_ok L h" and "guest_view i = Inr v"
    and "view_end L v \<le> length out"
  shows "\<exists>out'. to_host_sockaddr L h i out = Inr out' \<and> host_view L h out' = Inr v \<and>
    length out' = length out \<and> (\<forall>off n. view_end L v \<le> off \<longrightarrow> rd out' off n = rd out off n)"
  unfolding to_host_stores [OF assms(2,3)]
  by (rule host_store_view [OF assms(1,2) guest_viewD(3) [OF assms(3)] assms(4)])

theorem to_host_sockaddr_refines_witness:
  "\<exists>out'. to_host_sockaddr bionic_layout linux_net_headers loopback_80 (replicate 128 0) = Inr out' \<and>
     host_view bionic_layout linux_net_headers out' = Inr (V_inet [0, 80] [127, 0, 0, 1])"
  using to_host_sockaddr_refines [OF bionic.sa_layout_ok_axioms linux_af_headers loopback_80_view,
      of "replicate 128 0"]
  by (auto simp: bionic_layout_def)

text \<open>
  C13. Handing an address back to the guest (\<open>accept\<close>, \<open>getsockname\<close>, \<open>recvfrom\<close>
  \<dots>) is memory safe: if the guest's buffer, whose size it announced truthfully, holds the
  bionic structure, the buffer then reads as the host's address, the new length is the
  structure's size and every byte beyond it is untouched; otherwise the call is refused
  before anything is written.
\<close>

theorem sockaddr_out_apply_safe:
  assumes "af_headers_ok L h" and "host_view L h storage = Inr v" and "v \<noteq> V_unspec"
    and "addrlen \<le> length addr"
  shows "if view_size bionic_layout v \<le> addrlen
    then \<exists>addr'. sockaddr_out_apply L h storage addr addrlen = Inr (addr', view_size bionic_layout v) \<and>
      guest_view addr' = Inr v \<and> length addr' = length addr \<and>
      (\<forall>off n. view_size bionic_layout v \<le> off \<longrightarrow> rd addr' off n = rd addr off n)
    else sockaddr_out_apply L h storage addr addrlen =
      Inl (Runtime_error ''buffer for sockaddr not big enough'' [])"
  using apply_fits [OF assms(1-3), of addrlen addr] apply_small [OF assms(1-3)] assms(4) by auto

theorem sockaddr_out_apply_safe_witness:
  "(\<exists>addr'. sockaddr_out_apply bionic_layout linux_net_headers loopback_80 (replicate 16 0) 16 =
       Inr (addr', 16) \<and> guest_view addr' = Inr (V_inet [0, 80] [127, 0, 0, 1])) \<and>
   sockaddr_out_apply bionic_layout linux_net_headers loopback_80 (replicate 16 0) 8 =
     Inl (Runtime_error ''buffer for sockaddr not big enough'' [])"
  using sockaddr_out_apply_safe [OF linux_af_headers loopback_80_host_view, of 16 "replicate 16 0"]
    sockaddr_out_apply_safe [OF linux_af_headers loopback_80_host_view, of 8 "replicate 16 0"]
  by (auto simp: bionic_layout_def)

text \<open>
  The address a guest passes in reaches the host with the host's length for its family
  and the same content, whatever length the guest announced.
\<close>

theorem make_sockaddr_in_converts:
  assumes "sa_layout_ok L" and "af_headers_ok L h" and "guest_view a = Inr v" and "v \<noteq> V_unspec"
    and "view_end L v \<le> storage_size"
  shows "\<exists>s. make_sockaddr_in L h (Some a) addrlen = Inr s \<and> hlen s = view_size L v \<and>
    host_view L h (haddr s) = Inr v"
  using make_sockaddr_in_view [OF assms, of addrlen] by fastforce

theorem make_sockaddr_in_converts_witness:
  "\<exists>s. make_sockaddr_in bionic_layout linux_net_headers (Some loopback_80) 16 = Inr s \<and> hlen s = 16 \<and>
      host_view bionic_layout linux_net_headers (haddr s) = Inr (V_inet [0, 80] [127, 0, 0, 1])"
  using make_sockaddr_in_converts [OF bionic.sa_layout_ok_axioms linux_af_headers loopback_80_view, of 16]
  by (simp add: bionic_layout_def storage_size_def)

text \<open>
  The announced length is not looked at: a Unix address shorter than the full structure, as
  most are, is read past its end.
\<close>

lemma unix_address_overread:
  assumes "sa_layout_ok L" and "load_le a 0 2 = Inr 1" and "length a < 110"
    and "un_path L + 108 \<le> storage_size"
  shows "make_sockaddr_in L h (Some a) addrlen = Inl Memory_fault"
proof -
  have "family_off L + family_len L \<le> storage_size"
    using sa_layout_ok.family_first(1) [OF assms(1)] assms(4) by linarith
  with assms show ?thesis
    by (simp add: make_sockaddr_in_def to_host_sockaddr_def copy_field_def store_le_def wr_def rd_def)
qed

text \<open>An unspecified address, which dissolves a datagram association, is refused.\<close>

lemma unspec_address_refused:
  assumes "load_le a 0 2 = Inr 0" and "family_off L + family_len L \<le> storage_size"
  shows "make_sockaddr_in L h (Some a) addrlen = Inl (Runtime_error
    ''Unknown socket family when converting sockaddr to host %d'' [0])"
  using assms
  by (simp add: make_sockaddr_in_def to_host_sockaddr_def get_host_len_def store_le_def wr_def)

lemma make_sockaddr_in_null [simp]:
  "make_sockaddr_in L h None n = Inr \<lparr>haddr = replicate storage_size 0, hlen = 0\<rparr>"
  by (simp add: make_sockaddr_in_def)

end
