(* ===== verification/Heap_Lists.thy ===== *)
theory Heap_Lists
  imports Buffers
begin

text \<open>
  Memory the shim allocates: list nodes (\<open>new\<close> and \<open>delete\<close>) and character buffers
  (\<open>malloc\<close>, \<open>strdup\<close> and \<open>free\<close>), named by addresses with 0 as the null pointer,
  and the singly linked lists it builds and takes down. Freeing a null pointer does nothing;
  freeing or following an address that is not allocated is a \<open>Memory_fault\<close>. Allocation
  does not fail.
\<close>

section \<open>The heap\<close>

record 'n heap =
  nodes :: "nat \<Rightarrow> 'n option"
  bufs :: "nat \<Rightarrow> bytes option"
  brk :: nat

definition empty_heap :: "'n heap" where
  "empty_heap = \<lparr>nodes = (\<lambda>_. None), bufs = (\<lambda>_. None), brk = 1\<rparr>"

definition heap_ok :: "'n heap \<Rightarrow> bool" where
  "heap_ok s \<longleftrightarrow> 0 < brk s \<and> (\<forall>p. nodes s p \<noteq> None \<or> bufs s p \<noteq> None \<longrightarrow> 0 < p \<and> p < brk s)"

definition new_node :: "'n \<Rightarrow> ('n heap, nat) act" where
  "new_node n s = (Inr (brk s), s\<lparr>nodes := (nodes s)(brk s \<mapsto> n), brk := Suc (brk s)\<rparr>)"

definition get_node :: "nat \<Rightarrow> ('n heap, 'n) act" where
  "get_node p s = (case nodes s p of Some n \<Rightarrow> (Inr n, s) | None \<Rightarrow> (Inl Memory_fault, s))"

definition set_node :: "nat \<Rightarrow> 'n \<Rightarrow> ('n heap, unit) act" where
  "set_node p n s =
     (if nodes s p = None then (Inl Memory_fault, s) else (Inr (), s\<lparr>nodes := (nodes s)(p \<mapsto> n)\<rparr>))"

definition delete_node :: "nat \<Rightarrow> ('n heap, unit) act" where
  "delete_node p s =
     (if nodes s p = None then (Inl Memory_fault, s) else (Inr (), s\<lparr>nodes := (nodes s)(p := None)\<rparr>))"

definition new_buf :: "bytes \<Rightarrow> ('n heap, nat) act" where
  "new_buf b s = (Inr (brk s), s\<lparr>bufs := (bufs s)(brk s \<mapsto> b), brk := Suc (brk s)\<rparr>)"

definition free_buf :: "nat \<Rightarrow> ('n heap, unit) act" where
  "free_buf p s =
     (if p = 0 then (Inr (), s) else if bufs s p = None then (Inl Memory_fault, s)
      else (Inr (), s\<lparr>bufs := (bufs s)(p := None)\<rparr>))"

text \<open>\<open>strdup\<close> of a string that may be null; the terminating zero is part of the buffer.\<close>

definition dup_string :: "bytes option \<Rightarrow> ('n heap, nat) act" where
  "dup_string str = (case str of None \<Rightarrow> retA 0 | Some b \<Rightarrow> new_buf (b @ [0]))"

text \<open>\<open>p = malloc(n)\<close> followed by a fill of the new buffer that may fail.\<close>

definition alloc_filled :: "nat \<Rightarrow> (bytes \<Rightarrow> bytes result) \<Rightarrow> ('n heap, nat) act" where
  "alloc_filled n fill = bindA (liftA (fill (replicate n 0))) new_buf"

text \<open>Freeing several buffers one after the other.\<close>

fun free_bufs :: "nat list \<Rightarrow> ('n heap, unit) act" where
  "free_bufs [] = retA ()"
| "free_bufs (p # ps) = bindA (free_buf p) (\<lambda>_. free_bufs ps)"

section \<open>Interface: a list that owns its nodes and their buffers\<close>

text \<open>
  \<open>nodes_at s p ps\<close>: the list at \<open>p\<close> consists of the nodes \<open>ps\<close>. \<open>drop_blocks\<close> removes
  blocks from a heap.
\<close>

fun nodes_at :: "('n \<Rightarrow> nat) \<Rightarrow> (nat \<Rightarrow> 'n option) \<Rightarrow> nat \<Rightarrow> nat list \<Rightarrow> bool" where
  "nodes_at nxt N p [] \<longleftrightarrow> p = 0"
| "nodes_at nxt N p (q # ps) \<longleftrightarrow> p = q \<and> q \<noteq> 0 \<and> (\<exists>n. N q = Some n \<and> nodes_at nxt N (nxt n) ps)"

definition drop_blocks :: "nat set \<Rightarrow> nat set \<Rightarrow> 'n heap \<Rightarrow> 'n heap" where
  "drop_blocks P B s =
     s\<lparr>nodes := (\<lambda>p. if p \<in> P then None else nodes s p), bufs := (\<lambda>p. if p \<in> B then None else bufs s p)\<rparr>"

definition owned_of :: "('n \<Rightarrow> nat list) \<Rightarrow> (nat \<Rightarrow> 'n option) \<Rightarrow> nat list \<Rightarrow> nat list" where
  "owned_of own N ps = filter (\<lambda>b. b \<noteq> 0) (concat (map (\<lambda>p. own (the (N p))) ps))"

text \<open>Everything a list rests on: its chain of nodes, each with live buffers of its own.\<close>

definition list_owned ::
  "('n \<Rightarrow> nat) \<Rightarrow> ('n \<Rightarrow> nat list) \<Rightarrow> 'n heap \<Rightarrow> nat \<Rightarrow> nat list \<Rightarrow> bool" where
  "list_owned nxt own s p ps \<longleftrightarrow>
     nodes_at nxt (nodes s) p ps \<and> distinct ps \<and> distinct (owned_of own (nodes s) ps) \<and>
     (\<forall>b \<in> set (owned_of own (nodes s) ps). bufs s b \<noteq> None)"

lemma nodes_at_cong:
  "\<forall>q \<in> set ps. N' q = N q \<Longrightarrow> nodes_at nxt N' p ps = nodes_at nxt N p ps"
  by (induction ps arbitrary: p) auto

lemma owned_of_cong:
  "\<forall>q \<in> set ps. N' q = N q \<Longrightarrow> owned_of own N' ps = owned_of own N ps"
  unfolding owned_of_def by (metis (mono_tags, lifting) map_eq_conv)

lemma owned_of_Cons: "owned_of own N (q # ps) = filter (\<lambda>b. b \<noteq> 0) (own (the (N q))) @ owned_of own N ps"
  by (simp add: owned_of_def)

lemma owned_of_Nil [simp]: "owned_of own N [] = []"
  by (simp add: owned_of_def)

lemma free_bufs_ok:
  "distinct (filter (\<lambda>b. b \<noteq> 0) ps) \<Longrightarrow> \<forall>b \<in> set ps. b \<noteq> 0 \<longrightarrow> bufs s b \<noteq> None \<Longrightarrow>
   free_bufs ps s = (Inr (), drop_blocks {} (set (filter (\<lambda>b. b \<noteq> 0) ps)) s)"
proof (induction ps arbitrary: s)
  case (Cons p ps)
  show ?case
  proof (cases "p = 0")
    case True
    with Cons show ?thesis by (simp add: bindA_def free_buf_def)
  next
    case False
    define s1 where "s1 = s\<lparr>bufs := (bufs s)(p := None)\<rparr>"
    from False Cons.prems have "free_buf p s = (Inr (), s1)" by (simp add: free_buf_def s1_def)
    moreover have "free_bufs ps s1 = (Inr (), drop_blocks {} (set (filter (\<lambda>b. b \<noteq> 0) ps)) s1)"
      using Cons.prems False by (intro Cons.IH) (auto simp: s1_def)
    ultimately show ?thesis using False
      by (auto simp: bindA_def drop_blocks_def s1_def fun_eq_iff)
  qed
qed (simp add: drop_blocks_def)

text \<open>
  A loop that frees each node's buffers, moves on and deletes the node takes down exactly
  the blocks of its list: no block is left, none is freed twice.
\<close>

locale owning_list =
  fixes nxt :: "'n \<Rightarrow> nat" and own :: "'n \<Rightarrow> nat list"
    and free_loop :: "nat \<Rightarrow> 'n heap \<Rightarrow> (unit result \<times> 'n heap) option"
  assumes loop_null: "free_loop 0 s = Some (Inr (), s)"
    and loop_step: "p \<noteq> 0 \<Longrightarrow> nodes s p = Some n \<Longrightarrow> free_bufs (own n) s = (Inr (), s') \<Longrightarrow>
      nodes s' = nodes s \<Longrightarrow> free_loop p s = free_loop (nxt n) (s'\<lparr>nodes := (nodes s)(p := None)\<rparr>)"
begin

lemma frees_exactly:
  "list_owned nxt own s p ps \<Longrightarrow>
   free_loop p s = Some (Inr (), drop_blocks (set ps) (set (owned_of own (nodes s) ps)) s)"
proof (induction ps arbitrary: p s)
  case Nil
  then show ?case by (simp add: list_owned_def loop_null drop_blocks_def)
next
  case (Cons q ps)
  from Cons.prems obtain n where q: "p = q" "q \<noteq> 0" "nodes s q = Some n"
    and rest: "nodes_at nxt (nodes s) (nxt n) ps" and fresh: "q \<notin> set ps" "distinct ps"
    by (auto simp: list_owned_def)
  define B where "B = set (filter (\<lambda>b. b \<noteq> 0) (own n))"
  from Cons.prems q(3) have dist: "distinct (filter (\<lambda>b. b \<noteq> 0) (own n))"
    and live: "\<forall>b \<in> set (own n). b \<noteq> 0 \<longrightarrow> bufs s b \<noteq> None"
    and disj: "B \<inter> set (owned_of own (nodes s) ps) = {}"
    by (auto simp: list_owned_def owned_of_Cons B_def)
  define s1 where "s1 = (drop_blocks {} B s)\<lparr>nodes := (nodes s)(q := None)\<rparr>"
  have step: "free_loop p s = free_loop (nxt n) s1"
    unfolding s1_def B_def q(1)
    by (rule loop_step [OF q(2,3) free_bufs_ok [OF dist live]]) (simp add: drop_blocks_def)
  have same: "\<forall>r \<in> set ps. nodes s1 r = nodes s r" using fresh by (auto simp: s1_def)
  have owned: "owned_of own (nodes s1) ps = owned_of own (nodes s) ps" by (rule owned_of_cong [OF same])
  have "list_owned nxt own s1 (nxt n) ps"
    using Cons.prems rest fresh disj
    by (auto simp: list_owned_def nodes_at_cong [OF same] owned owned_of_Cons) (auto simp: s1_def drop_blocks_def)
  note run = Cons.IH [OF this, unfolded owned]
  have "drop_blocks (set ps) (set (owned_of own (nodes s) ps)) s1 =
      drop_blocks (set (q # ps)) (set (owned_of own (nodes s) (q # ps))) s"
    using q(3) by (intro heap.equality)
      (auto simp: owned_of_Cons drop_blocks_def s1_def B_def fun_eq_iff)
  with run step show ?case by simp
qed

end

section \<open>Growing a heap\<close>

text \<open>
  \<open>grown s s' P B\<close>: between the two heaps the nodes \<open>P\<close> and the buffers \<open>B\<close> were
  allocated, and nothing else changed. Dropping them gives the old blocks back.
\<close>

definition grown :: "'n heap \<Rightarrow> 'n heap \<Rightarrow> nat set \<Rightarrow> nat set \<Rightarrow> bool" where
  "grown s s' P B \<longleftrightarrow>
     brk s \<le> brk s' \<and> (\<forall>p \<in> P \<union> B. brk s \<le> p \<and> p < brk s') \<and>
     (\<forall>p. p \<notin> P \<longrightarrow> nodes s' p = nodes s p) \<and> (\<forall>b. b \<notin> B \<longrightarrow> bufs s' b = bufs s b)"

lemma grownI:
  "brk s \<le> brk s' \<Longrightarrow> (\<And>p. p \<in> P \<union> B \<Longrightarrow> brk s \<le> p \<and> p < brk s') \<Longrightarrow>
   (\<And>p. p \<notin> P \<Longrightarrow> nodes s' p = nodes s p) \<Longrightarrow> (\<And>b. b \<notin> B \<Longrightarrow> bufs s' b = bufs s b) \<Longrightarrow> grown s s' P B"
  unfolding grown_def by blast

lemma grown_refl [simp]: "grown s s {} {}"
  by (simp add: grown_def)

lemma grown_ok: "heap_ok s \<Longrightarrow> grown s s' P B \<Longrightarrow> heap_ok s'"
  unfolding heap_ok_def grown_def
  by (metis UnI1 UnI2 dual_order.strict_trans1)

lemma grown_below:
  assumes "grown s s' P B" and "x < brk s"
  shows "x \<notin> P \<and> x \<notin> B \<and> nodes s' x = nodes s x \<and> bufs s' x = bufs s x"
proof -
  have "x \<notin> P \<union> B" using assms unfolding grown_def by (meson leD)
  with assms(1) show ?thesis unfolding grown_def by blast
qed

lemma heap_ok_fresh:
  "heap_ok s \<Longrightarrow> brk s \<le> p \<Longrightarrow> nodes s p = None \<and> bufs s p = None"
  unfolding heap_ok_def by (meson leD)

lemma grown_dropped:
  assumes "heap_ok s" and "grown s s' P B"
  shows "nodes (drop_blocks P B s') = nodes s \<and> bufs (drop_blocks P B s') = bufs s"
  using assms heap_ok_fresh [OF assms(1)] unfolding grown_def drop_blocks_def
  by (auto simp: fun_eq_iff)

text \<open>
  The step both list builders of the address code take: node \<open>brk s\<close> is allocated, given
  buffers, and linked to a list built after it.
\<close>

lemma list_owned_cons:
  assumes "heap_ok s" and s1: "brk s < brk s1" "nodes s1 = (nodes s)(brk s \<mapsto> n)"
    and bufs1: "\<forall>b. b \<notin> set (own n) \<longrightarrow> bufs s1 b = bufs s b"
      "\<forall>b \<in> set (own n). b \<noteq> 0 \<longrightarrow> brk s \<le> b \<and> b < brk s1 \<and> bufs s1 b \<noteq> None"
      "bufs s1 0 = None" "distinct (filter (\<lambda>b. b \<noteq> 0) (own n))"
    and rest: "list_owned nxt own s2 q ps" "grown s1 s2 (set ps) (set (owned_of own (nodes s2) ps))"
    and n': "nxt n' = q" "own n' = own n"
    and s3: "s3 = s2\<lparr>nodes := (nodes s2)(brk s \<mapsto> n')\<rparr>"
  shows "list_owned nxt own s3 (brk s) (brk s # ps) \<and>
    grown s s3 (set (brk s # ps)) (set (owned_of own (nodes s3) (brk s # ps)))"
proof -
  let ?B = "set (owned_of own (nodes s2) ps)" and ?O = "set (filter (\<lambda>b. b \<noteq> 0) (own n))"
  from assms(1) have pos: "0 < brk s" by (simp add: heap_ok_def)
  have out: "brk s \<notin> set ps" using rest(2) s1(1) unfolding grown_def by (metis UnI1 leD)
  then have same: "\<forall>r \<in> set ps. nodes s3 r = nodes s2 r" by (simp add: s3)
  note owned = owned_of_cong [OF same, of own]
  have owned_out: "owned_of own (nodes s3) (brk s # ps) =
      filter (\<lambda>b. b \<noteq> 0) (own n) @ owned_of own (nodes s2) ps"
    using n' by (simp add: owned_of_Cons owned) (simp add: s3)
  from rest(2) have high: "\<forall>b \<in> ?B. brk s1 \<le> b" and kept: "\<forall>b. b \<notin> ?B \<longrightarrow> bufs s2 b = bufs s1 b"
    unfolding grown_def by blast+
  have low: "\<forall>b \<in> ?O. b < brk s1 \<and> brk s \<le> b \<and> bufs s1 b \<noteq> None" using bufs1(2) by simp
  from high low have sep: "?O \<inter> ?B = {}" by (meson disjoint_iff leD)
  with kept low have live: "\<forall>b \<in> ?O. bufs s2 b \<noteq> None" by (metis disjoint_iff)
  have "list_owned nxt own s3 (brk s) (brk s # ps)"
    using rest(1) pos out n' bufs1(4) sep live
    by (auto simp: list_owned_def nodes_at_cong [OF same] owned_out) (auto simp: s3)
  moreover have "grown s s3 (set (brk s # ps)) (set (owned_of own (nodes s3) (brk s # ps)))"
  proof -
    have keep: "bufs s3 b = bufs s b" if "b \<notin> ?O" "b \<notin> ?B" for b
    proof -
      have "bufs s3 b = bufs s1 b" using that(2) rest(2) by (simp add: grown_def s3)
      also have "\<dots> = bufs s b"
      proof (cases "b = 0")
        case True
        with bufs1(3) assms(1) show ?thesis unfolding heap_ok_def by (metis less_irrefl)
      qed (use that(1) bufs1(1) in simp)
      finally show ?thesis .
    qed
    from rest(2) have ps: "\<forall>p \<in> set ps \<union> ?B. brk s1 \<le> p \<and> p < brk s2" "brk s1 \<le> brk s2"
      "\<forall>p. p \<notin> set ps \<longrightarrow> nodes s2 p = nodes s1 p" unfolding grown_def by blast+
    have brk3: "brk s3 = brk s2" by (simp add: s3)
    have "brk s \<le> p \<and> p < brk s3" if "p \<in> set (brk s # ps) \<union> (?O \<union> ?B)" for p
    proof -
      from that consider "p = brk s" | "p \<in> set ps \<union> ?B" | "p \<in> ?O" by auto
      then show ?thesis
      proof cases
        case 1
        with s1(1) ps(2) brk3 show ?thesis by simp
      next
        case 2
        with ps(1) have "brk s1 \<le> p \<and> p < brk s2" by blast
        with s1(1) brk3 show ?thesis by simp
      next
        case 3
        with low have "brk s \<le> p \<and> p < brk s1" by blast
        with ps(2) brk3 show ?thesis by simp
      qed
    qed
    moreover have "nodes s3 p = nodes s p" if "p \<notin> set (brk s # ps)" for p
      using that ps(3) s1(2) by (simp add: s3)
    moreover have "brk s \<le> brk s3" using ps(2) s1(1) brk3 by simp
    ultimately show ?thesis
      unfolding owned_out set_append using keep by (intro grownI) blast+
  qed
  ultimately show ?thesis by blast
qed

text \<open>
  The step of a builder that appends: a new node \<open>brk s\<close> is allocated, given buffers, and
  the last node of the list so far is pointed to it.
\<close>

lemma nodes_at_snoc:
  "nodes_at nxt N p ps \<Longrightarrow> ps \<noteq> [] \<Longrightarrow> distinct ps \<Longrightarrow> q \<notin> set ps \<Longrightarrow> N q = Some n \<Longrightarrow> nxt n = 0 \<Longrightarrow>
   q \<noteq> 0 \<Longrightarrow> nxt t' = q \<Longrightarrow> nodes_at nxt (N(last ps \<mapsto> t')) p (ps @ [q])"
proof (induction ps arbitrary: p)
  case (Cons r ps)
  show ?case
  proof (cases "ps = []")
    case False
    with Cons.prems(3) have "r \<noteq> last ps" by auto
    with Cons False show ?thesis by auto
  qed (use Cons.prems in auto)
qed simp

lemma owned_of_snoc:
  "owned_of own N (ps @ [q]) = owned_of own N ps @ filter (\<lambda>b. b \<noteq> 0) (own (the (N q)))"
  by (simp add: owned_of_def)

lemma owned_of_upd:
  "N r = Some t \<Longrightarrow> own t' = own t \<Longrightarrow> owned_of own (N(r \<mapsto> t')) ps = owned_of own N ps"
  unfolding owned_of_def by (intro arg_cong [of _ _ "\<lambda>x. filter (\<lambda>b. b \<noteq> 0) (concat x)"] map_cong) auto

lemma nodes_at_alloc: "nodes_at nxt N p ps \<Longrightarrow> r \<in> set ps \<Longrightarrow> N r \<noteq> None"
  by (induction ps arbitrary: p) auto

lemma list_owned_snoc:
  assumes ok: "heap_ok s0" and grow: "grown s0 s (set ps) (set (owned_of own (nodes s) ps))"
    and list: "list_owned nxt own s p ps"
    and s1: "brk s < brk s1" "nodes s1 = (nodes s)(brk s \<mapsto> n)" "nxt n = 0"
    and bufs1: "\<forall>b. b \<notin> set (own n) \<longrightarrow> bufs s1 b = bufs s b"
      "\<forall>b \<in> set (own n). b \<noteq> 0 \<longrightarrow> brk s \<le> b \<and> b < brk s1 \<and> bufs s1 b \<noteq> None"
      "bufs s1 0 = None" "distinct (filter (\<lambda>b. b \<noteq> 0) (own n))"
    and link: "ps \<noteq> [] \<Longrightarrow> nodes s (last ps) = Some t \<and> nxt t' = brk s \<and> own t' = own t"
    and s2: "s2 = (if ps = [] then s1 else s1\<lparr>nodes := (nodes s1)(last ps \<mapsto> t')\<rparr>)"
  shows "list_owned nxt own s2 (if ps = [] then brk s else p) (ps @ [brk s]) \<and>
    grown s0 s2 (set (ps @ [brk s])) (set (owned_of own (nodes s2) (ps @ [brk s])))"
proof -
  let ?O = "set (filter (\<lambda>b. b \<noteq> 0) (own n))" and ?B = "set (owned_of own (nodes s) ps)"
  from ok grow have pos: "0 < brk s" unfolding heap_ok_def grown_def by linarith
  from grow have range: "\<forall>r \<in> set ps \<union> ?B. brk s0 \<le> r \<and> r < brk s" and up: "brk s0 \<le> brk s"
    unfolding grown_def by blast+
  then have new: "brk s \<notin> set ps" by auto
  have keep: "\<forall>r \<in> set ps. nodes s1 r = nodes s r" using new s1(2) by auto
  have last: "nodes s1 (last ps) = Some t" if "ps \<noteq> []"
    using link [OF that] keep last_in_set [OF that] by simp
  have owned: "owned_of own (nodes s2) qs = owned_of own (nodes s1) qs" for qs
    using link last by (auto simp: s2 intro: owned_of_upd)
  have owned_out: "owned_of own (nodes s2) (ps @ [brk s]) =
      owned_of own (nodes s) ps @ filter (\<lambda>b. b \<noteq> 0) (own n)"
    unfolding owned [of "ps @ [brk s]"] owned_of_snoc [of own "nodes s1"] owned_of_cong [OF keep]
    by (simp add: s1(2))
  have low: "\<forall>b \<in> ?O. brk s \<le> b \<and> b < brk s1 \<and> bufs s1 b \<noteq> None" using bufs1(2) by simp
  with range have sep: "?B \<inter> ?O = {}" by (meson UnI2 disjoint_iff leD)
  have same: "bufs s1 b = bufs s b" if "b \<notin> ?O" "b \<noteq> 0" for b
    using that bufs1(1) by simp
  have old: "bufs s1 b \<noteq> None" if "b \<in> ?B" for b
  proof -
    from that sep have "b \<notin> ?O" by blast
    moreover from that have "b \<noteq> 0" by (simp add: owned_of_def)
    ultimately have "bufs s1 b = bufs s b" by (rule same)
    moreover from list that have "bufs s b \<noteq> None" unfolding list_owned_def by blast
    ultimately show ?thesis by simp
  qed
  have chain: "nodes_at nxt (nodes s2) (if ps = [] then brk s else p) (ps @ [brk s])"
  proof (cases "ps = []")
    case False
    from list have "nodes_at nxt (nodes s1) p ps" "distinct ps"
      by (simp_all add: list_owned_def nodes_at_cong [OF keep])
    from nodes_at_snoc [OF this(1) False this(2) new, of n t'] link [OF False] pos s1(2,3)
    show ?thesis using False by (simp add: s2)
  qed (use pos s1(2,3) s2 in simp)
  have bufs2: "bufs s2 = bufs s1" "brk s2 = brk s1" by (simp_all add: s2)
  have "list_owned nxt own s2 (if ps = [] then brk s else p) (ps @ [brk s])"
    unfolding list_owned_def owned_out bufs2 set_append
    using chain new list bufs1(4) sep old low by (auto simp: list_owned_def)
  moreover have "grown s0 s2 (set (ps @ [brk s])) (?B \<union> ?O)"
  proof (rule grownI)
    show "brk s0 \<le> brk s2" using up s1(1) bufs2 by simp
    show "brk s0 \<le> r \<and> r < brk s2" if "r \<in> set (ps @ [brk s]) \<union> (?B \<union> ?O)" for r
    proof -
      from that consider "r \<in> set ps \<union> ?B" | "r = brk s" | "r \<in> ?O" by auto
      then show ?thesis
      proof cases
        case 1
        with range have "brk s0 \<le> r \<and> r < brk s" by blast
        with s1(1) bufs2 show ?thesis by simp
      next
        case 2
        with up s1(1) bufs2 show ?thesis by simp
      next
        case 3
        with low have "brk s \<le> r \<and> r < brk s1" by blast
        with up bufs2 show ?thesis by simp
      qed
    qed
    show "nodes s2 r = nodes s0 r" if "r \<notin> set (ps @ [brk s])" for r
    proof -
      have "nodes s2 r = nodes s r" using that s1(2) last_in_set [of ps] by (auto simp: s2)
      with that grow show ?thesis unfolding grown_def by simp
    qed
    show "bufs s2 b = bufs s0 b" if "b \<notin> ?B \<union> ?O" for b
    proof (cases "b = 0")
      case True
      with bufs1(3) ok show ?thesis unfolding bufs2 heap_ok_def by (metis less_irrefl)
    next
      case False
      with that same [of b] grow show ?thesis unfolding bufs2 grown_def by simp
    qed
  qed
  ultimately show ?thesis unfolding owned_out set_append by blast
qed

end
