(* ===== verification/Addrinfo.thy ===== *)
theory Addrinfo
  imports Sockaddr Heap_Lists
begin

text \<open>
  Host lookup (src/src/network.cpp): the conversion of \<open>addrinfo\<close> lists in both
  directions, the loops that free them, \<open>shim::getaddrinfo\<close> and \<open>shim::freeaddrinfo\<close>.
  A list handed over by the caller is a HOL list of its entries; a list the shim builds
  lives in the heap of Heap_Lists.
\<close>

section \<open>Data\<close>

text \<open>
  What the host decides about addresses: its headers, which optional macros they define, and
  its structure layout.
\<close>

record host_net =
  hdr :: headers
  defd :: "string \<Rightarrow> bool"
  lay :: sa_layout

text \<open>
  An entry to convert. The canonical name is a string when the host supplies the list and
  an address, passed on as it is, when the guest supplies hints.
\<close>

record 'c addrinfo_src =
  src_flags :: u32
  src_family :: int
  src_socktype :: int
  src_protocol :: int
  src_addr :: "bytes option"
  src_canonname :: 'c

record addrinfo =
  ai_flags :: u32
  ai_family :: int
  ai_socktype :: int
  ai_protocol :: int
  ai_addrlen :: nat
  ai_canonname :: nat
  ai_addr :: nat
  ai_next :: nat

definition blank_addrinfo :: addrinfo where
  "blank_addrinfo = \<lparr>ai_flags = 0, ai_family = 0, ai_socktype = 0, ai_protocol = 0, ai_addrlen = 0,
     ai_canonname = 0, ai_addr = 0, ai_next = 0\<rparr>"

section \<open>Conversion\<close>

definition from_host_fill ::
  "host_net \<Rightarrow> bytes option addrinfo_src \<Rightarrow> nat \<Rightarrow> (addrinfo heap, addrinfo) act" where
  "from_host_fill c i out =
     bindA (liftA (from_host_socktype (hdr c) (src_socktype i))) (\<lambda>st.
     bindA (liftA (from_host_ipproto (hdr c) (src_protocol i))) (\<lambda>pr.
     bindA (liftA (get_bionic_len (lay c) (hdr c) (src_addr i))) (\<lambda>len.
     bindA (if len \<noteq> 0
            then alloc_filled len (\<lambda>b. case src_addr i of None \<Rightarrow> Inl Memory_fault
              | Some a \<Rightarrow> from_host_sockaddr (lay c) (hdr c) a b)
            else retA 0) (\<lambda>addr.
     bindA (dup_string (src_canonname i)) (\<lambda>name.
     let n = \<lparr>ai_flags = from_host_ai_flags (hdr c) (src_flags i),
         ai_family = from_host_af_family (defd c) (hdr c) (src_family i), ai_socktype = st,
         ai_protocol = pr, ai_addrlen = len, ai_canonname = name, ai_addr = addr, ai_next = 0\<rparr>
     in bindA (set_node out n) (\<lambda>_. retA n))))))"

fun from_host_alloc :: "host_net \<Rightarrow> bytes option addrinfo_src list \<Rightarrow> (addrinfo heap, nat) act" where
  "from_host_alloc c [] = retA 0"
| "from_host_alloc c (i # rest) =
     bindA (new_node blank_addrinfo) (\<lambda>out.
       tryA (bindA (from_host_fill c i out) (\<lambda>n.
             bindA (from_host_alloc c rest) (\<lambda>next.
             bindA (set_node out (n\<lparr>ai_next := next\<rparr>)) (\<lambda>_. retA out))))
         (bindA (delete_node out) (\<lambda>_. from_host_alloc c rest)))"

definition to_host_fill :: "host_net \<Rightarrow> nat addrinfo_src \<Rightarrow> nat \<Rightarrow> (addrinfo heap, addrinfo) act" where
  "to_host_fill c i out =
     bindA (if src_socktype i \<noteq> 0 then liftA (to_host_socktype (hdr c) (src_socktype i)) else retA 0) (\<lambda>st.
     bindA (liftA (to_host_ipproto (hdr c) (src_protocol i))) (\<lambda>pr.
     bindA (liftA (get_host_len (lay c) (src_addr i))) (\<lambda>len.
     bindA (if len \<noteq> 0
            then alloc_filled len (\<lambda>b. case src_addr i of None \<Rightarrow> Inl Memory_fault
              | Some a \<Rightarrow> to_host_sockaddr (lay c) (hdr c) a b)
            else retA 0) (\<lambda>addr.
     let n = \<lparr>ai_flags = to_host_ai_flags (hdr c) (src_flags i),
         ai_family = to_host_af_family (defd c) (hdr c) (src_family i), ai_socktype = st,
         ai_protocol = pr, ai_addrlen = len, ai_canonname = src_canonname i, ai_addr = addr,
         ai_next = 0\<rparr>
     in bindA (set_node out n) (\<lambda>_. retA n)))))"

fun to_host_alloc :: "host_net \<Rightarrow> nat addrinfo_src list \<Rightarrow> (addrinfo heap, nat) act" where
  "to_host_alloc c [] = retA 0"
| "to_host_alloc c (i # rest) =
     bindA (new_node blank_addrinfo) (\<lambda>out.
     bindA (to_host_fill c i out) (\<lambda>n.
     bindA (to_host_alloc c rest) (\<lambda>next.
     bindA (set_node out (n\<lparr>ai_next := next\<rparr>)) (\<lambda>_. retA out))))"

section \<open>Taking lists down\<close>

text \<open>One round of each loop: free, advance, delete; the loops run while the list goes on.\<close>

definition free_bionic_step :: "nat \<Rightarrow> (addrinfo heap, nat) act" where
  "free_bionic_step list =
     bindA (get_node list) (\<lambda>n.
     bindA (free_bufs [ai_addr n, ai_canonname n]) (\<lambda>_.
     bindA (get_node list) (\<lambda>n.
     bindA (delete_node list) (\<lambda>_. retA (ai_next n)))))"

partial_function (option) free_bionic_list ::
  "nat \<Rightarrow> addrinfo heap \<Rightarrow> (unit result \<times> addrinfo heap) option" where
  "free_bionic_list list s =
     (if list = 0 then Some (Inr (), s)
      else case free_bionic_step list s of
          (Inl e, s') \<Rightarrow> Some (Inl e, s')
        | (Inr next, s') \<Rightarrow> free_bionic_list next s')"

definition free_host_step :: "nat \<Rightarrow> (addrinfo heap, nat) act" where
  "free_host_step list =
     bindA (get_node list) (\<lambda>n.
     bindA (free_bufs [ai_addr n]) (\<lambda>_.
     bindA (get_node list) (\<lambda>n.
     bindA (delete_node list) (\<lambda>_. retA (ai_next n)))))"

partial_function (option) free_host_list ::
  "nat \<Rightarrow> addrinfo heap \<Rightarrow> (unit result \<times> addrinfo heap) option" where
  "free_host_list list s =
     (if list = 0 then Some (Inr (), s)
      else case free_host_step list s of
          (Inl e, s') \<Rightarrow> Some (Inl e, s')
        | (Inr next, s') \<Rightarrow> free_host_list next s')"

abbreviation bionic_owned :: "addrinfo \<Rightarrow> nat list" where
  "bionic_owned n \<equiv> [ai_addr n, ai_canonname n]"

abbreviation host_owned :: "addrinfo \<Rightarrow> nat list" where
  "host_owned n \<equiv> [ai_addr n]"

text \<open>Both loops own the lists they walk.\<close>

interpretation bionic_ai: owning_list ai_next bionic_owned free_bionic_list
proof unfold_locales
  fix p and s s' :: "addrinfo heap" and n
  assume "p \<noteq> 0" "nodes s p = Some n" "free_bufs (bionic_owned n) s = (Inr (), s')" "nodes s' = nodes s"
  then show "free_bionic_list p s = free_bionic_list (ai_next n) (s'\<lparr>nodes := (nodes s)(p := None)\<rparr>)"
    by (subst free_bionic_list.simps)
      (simp add: free_bionic_step_def bindA_def get_node_def delete_node_def del: free_bufs.simps)
qed (subst free_bionic_list.simps, simp)

interpretation host_ai: owning_list ai_next host_owned free_host_list
proof unfold_locales
  fix p and s s' :: "addrinfo heap" and n
  assume "p \<noteq> 0" "nodes s p = Some n" "free_bufs (host_owned n) s = (Inr (), s')" "nodes s' = nodes s"
  then show "free_host_list p s = free_host_list (ai_next n) (s'\<lparr>nodes := (nodes s)(p := None)\<rparr>)"
    by (subst free_host_list.simps)
      (simp add: free_host_step_def bindA_def get_node_def delete_node_def del: free_bufs.simps)
qed (subst free_host_list.simps, simp)

section \<open>Looking hosts up\<close>

text \<open>
  The host's \<open>getaddrinfo\<close> is a parameter: given the memory and the address of the hints
  in it, it returns an error code or a list of entries. \<open>*res\<close> is written on success only.
\<close>

definition getaddrinfo ::
  "host_net \<Rightarrow> (addrinfo heap \<Rightarrow> nat \<Rightarrow> int \<times> bytes option addrinfo_src list) \<Rightarrow>
   nat addrinfo_src list \<Rightarrow> nat \<Rightarrow> addrinfo heap \<Rightarrow> ((int \<times> nat) result \<times> addrinfo heap) option" where
  "getaddrinfo c host hints res s =
     (case to_host_alloc c hints s of
        (Inl e, s) \<Rightarrow> Some (Inl e, s)
      | (Inr hhints, s) \<Rightarrow>
          let (ret, hres) = host s hhints in
          (case free_host_list hhints s of
             None \<Rightarrow> None
           | Some (Inl e, s) \<Rightarrow> Some (Inl e, s)
           | Some (Inr _, s) \<Rightarrow>
               if ret \<noteq> 0 then Some (Inr (ret, res), s)
               else (case from_host_alloc c hres s of
                       (Inl e, s) \<Rightarrow> Some (Inl e, s)
                     | (Inr p, s) \<Rightarrow> Some (Inr (0, p), s))))"

definition freeaddrinfo :: "nat \<Rightarrow> addrinfo heap \<Rightarrow> (unit result \<times> addrinfo heap) option" where
  "freeaddrinfo ai = free_bionic_list ai"

section \<open>What a converted list says\<close>

record ai_entry =
  e_flags :: u32
  e_family :: int
  e_socktype :: int
  e_protocol :: int
  e_addr :: "sa_view option"
  e_canon :: "bytes option"

definition describes :: "(nat \<Rightarrow> bytes option) \<Rightarrow> addrinfo \<Rightarrow> ai_entry \<Rightarrow> bool" where
  "describes B n e \<longleftrightarrow>
     ai_flags n = e_flags e \<and> ai_family n = e_family e \<and> ai_socktype n = e_socktype e \<and>
     ai_protocol n = e_protocol e \<and>
     (case e_addr e of None \<Rightarrow> ai_addr n = 0 \<and> ai_addrlen n = 0
      | Some v \<Rightarrow> ai_addr n \<noteq> 0 \<and> ai_addrlen n = view_size bionic_layout v \<and>
          (\<exists>b. B (ai_addr n) = Some b \<and> length b = view_size bionic_layout v \<and> guest_view b = Inr v)) \<and>
     (case e_canon e of None \<Rightarrow> ai_canonname n = 0
      | Some str \<Rightarrow> ai_canonname n \<noteq> 0 \<and> B (ai_canonname n) = Some (str @ [0]))"

definition denotes :: "addrinfo heap \<Rightarrow> nat list \<Rightarrow> ai_entry list \<Rightarrow> bool" where
  "denotes s ps es \<longleftrightarrow>
     list_all2 (\<lambda>p e. \<exists>n. nodes s p = Some n \<and> describes (bufs s) n e) ps es"

text \<open>
  The entry the guest should see for one of the host's, if it can be expressed at all: its
  type and protocol must be known and its address of a family with a structure.
\<close>

definition guest_entry :: "host_net \<Rightarrow> bytes option addrinfo_src \<Rightarrow> ai_entry option" where
  "guest_entry c i =
     (case (from_host_socktype (hdr c) (src_socktype i), from_host_ipproto (hdr c) (src_protocol i)) of
        (Inr st, Inr pr) \<Rightarrow>
          map_option (\<lambda>v. \<lparr>e_flags = from_host_ai_flags (hdr c) (src_flags i),
              e_family = from_host_af_family (defd c) (hdr c) (src_family i), e_socktype = st,
              e_protocol = pr, e_addr = v, e_canon = src_canonname i\<rparr>)
            (case src_addr i of None \<Rightarrow> Some None
             | Some a \<Rightarrow> (case host_view (lay c) (hdr c) a of
                 Inr v \<Rightarrow> if v = V_unspec then None else Some (Some v) | Inl _ \<Rightarrow> None))
      | _ \<Rightarrow> None)"

text \<open>What the host supplies: addresses that are complete, if their family is a known one.\<close>

definition src_ok :: "host_net \<Rightarrow> bytes option addrinfo_src \<Rightarrow> bool" where
  "src_ok c i \<longleftrightarrow>
     (case src_addr i of None \<Rightarrow> True
      | Some a \<Rightarrow> (\<exists>v. host_view (lay c) (hdr c) a = Inr v) \<or>
          (\<exists>fam. load_le a (family_off (lay c)) (family_len (lay c)) = Inr fam \<and>
            host_kind (hdr c) fam = None))"

lemma view_size_pos: "v \<noteq> V_unspec \<Longrightarrow> 0 < view_size bionic_layout v"
  by (cases v) (simp_all add: bionic_layout_def)

lemma bionic_len_unknown:
  assumes "af_headers_ok L h" and "load_le a (family_off L) (family_len L) = Inr fam"
    and "host_kind h fam = None \<or> host_kind h fam = Some Af_unspec"
  shows "\<exists>fmt args. get_bionic_len L h (Some a) = Inl (Runtime_error fmt args)"
proof -
  have "host_kind h fam \<noteq> Some k" if "k \<noteq> Af_unspec" for k
    using assms(3) that by auto
  from this [of Af_unix] this [of Af_inet] this [of Af_inet6]
  have "int fam \<noteq> h ''AF_UNIX'' \<and> int fam \<noteq> h ''AF_INET'' \<and> int fam \<noteq> h ''AF_INET6''"
    unfolding host_kind_eq [OF assms(1)] by blast
  with assms(2) show ?thesis by (simp add: get_bionic_len_def)
qed

text \<open>The address part of an entry: its length and the buffer it is converted into.\<close>

lemma addr_converts:
  assumes "af_headers_ok L h" and "host_view L h a = Inr v" and "v \<noteq> V_unspec"
  shows "\<exists>b. get_bionic_len L h (Some a) = Inr (view_size bionic_layout v) \<and>
    from_host_sockaddr L h a (replicate (view_size bionic_layout v) 0) = Inr b \<and>
    length b = view_size bionic_layout v \<and> guest_view b = Inr v"
  using bionic_store_view [OF host_view_wf [OF assms(2)], of "replicate (view_size bionic_layout v) 0"]
    view_end_size [OF assms(3)]
  by (auto simp: bionic_len_view [OF assms] from_host_stores [OF assms(1,2)])

lemma from_host_fill_fails:
  assumes "af_headers_ok (lay c) (hdr c)" and "src_ok c i" and "guest_entry c i = None"
  shows "\<exists>fmt args. from_host_fill c i out s = (Inl (Runtime_error fmt args), s)"
proof -
  consider (ty) "\<exists>fmt args. from_host_socktype (hdr c) (src_socktype i) = Inl (Runtime_error fmt args)"
    | (pr) st fmt args where "from_host_socktype (hdr c) (src_socktype i) = Inr st"
        "from_host_ipproto (hdr c) (src_protocol i) = Inl (Runtime_error fmt args)"
    | (ad) st pr where "from_host_socktype (hdr c) (src_socktype i) = Inr st"
        "from_host_ipproto (hdr c) (src_protocol i) = Inr pr"
    by (cases "from_host_socktype (hdr c) (src_socktype i)";
        cases "from_host_ipproto (hdr c) (src_protocol i)")
      (auto simp: from_host_socktype_def from_host_ipproto_def)
  then show ?thesis
  proof cases
    case ad
    with assms(3) obtain a where a: "src_addr i = Some a"
      and no: "\<And>v. host_view (lay c) (hdr c) a = Inr v \<Longrightarrow> v = V_unspec"
      by (auto simp: guest_entry_def split: option.splits sum.splits if_splits)
    from assms(2) a consider v where "host_view (lay c) (hdr c) a = Inr v"
      | fam where "load_le a (family_off (lay c)) (family_len (lay c)) = Inr fam" "host_kind (hdr c) fam = None"
      by (auto simp: src_ok_def)
    then have "\<exists>fmt args. get_bionic_len (lay c) (hdr c) (Some a) = Inl (Runtime_error fmt args)"
    proof cases
      case 1
      with no host_viewD [OF 1] show ?thesis by (auto intro!: bionic_len_unknown [OF assms(1)])
    next
      case 2
      then show ?thesis by (auto intro!: bionic_len_unknown [OF assms(1)])
    qed
    with ad a show ?thesis by (auto simp: from_host_fill_def)
  qed (auto simp: from_host_fill_def)
qed

text \<open>A successful fill allocates the entry's own buffers and nothing else.\<close>

definition filled :: "nat \<Rightarrow> addrinfo heap \<Rightarrow> addrinfo \<Rightarrow> addrinfo heap \<Rightarrow> bool" where
  "filled out s n s' \<longleftrightarrow>
     brk s \<le> brk s' \<and> nodes s' = (nodes s)(out \<mapsto> n) \<and>
     (\<forall>b. b \<notin> set (bionic_owned n) \<longrightarrow> bufs s' b = bufs s b) \<and>
     (\<forall>b \<in> set (bionic_owned n). b \<noteq> 0 \<longrightarrow> brk s \<le> b \<and> b < brk s' \<and> bufs s' b \<noteq> None) \<and>
     bufs s' 0 = None \<and> distinct (filter (\<lambda>b. b \<noteq> 0) (bionic_owned n))"

lemma from_host_fill_ok:
  assumes "af_headers_ok (lay c) (hdr c)" and "heap_ok s" and "nodes s out \<noteq> None"
    and "guest_entry c i = Some e"
  shows "\<exists>n s'. from_host_fill c i out s = (Inr n, s') \<and> filled out s n s' \<and> describes (bufs s') n e"
proof -
  from assms(4) obtain st pr where st: "from_host_socktype (hdr c) (src_socktype i) = Inr st"
    and pr: "from_host_ipproto (hdr c) (src_protocol i) = Inr pr"
    by (auto simp: guest_entry_def split: sum.splits)
  from assms(2) have pos: "0 < brk s" "bufs s 0 = None" by (auto simp: heap_ok_def)
  note steps = from_host_fill_def st pr dup_string_def new_buf_def set_node_def bindA_def
    describes_def filled_def Let_def alloc_filled_def
  show ?thesis
  proof (cases "src_addr i")
    case None
    with assms(4) st pr have e: "e = \<lparr>e_flags = from_host_ai_flags (hdr c) (src_flags i),
        e_family = from_host_af_family (defd c) (hdr c) (src_family i), e_socktype = st,
        e_protocol = pr, e_addr = None, e_canon = src_canonname i\<rparr>"
      by (simp add: guest_entry_def)
    show ?thesis
      by (cases "src_canonname i") (use None assms(3) pos in \<open>simp_all add: e steps get_bionic_len_def\<close>)
  next
    case (Some a)
    with assms(4) st pr obtain v where v: "host_view (lay c) (hdr c) a = Inr v" "v \<noteq> V_unspec"
      and e: "e = \<lparr>e_flags = from_host_ai_flags (hdr c) (src_flags i),
        e_family = from_host_af_family (defd c) (hdr c) (src_family i), e_socktype = st,
        e_protocol = pr, e_addr = Some v, e_canon = src_canonname i\<rparr>"
      by (auto simp: guest_entry_def split: sum.splits if_splits)
    from addr_converts [OF assms(1) v] obtain b where b:
      "get_bionic_len (lay c) (hdr c) (Some a) = Inr (view_size bionic_layout v)"
      "from_host_sockaddr (lay c) (hdr c) a (replicate (view_size bionic_layout v) 0) = Inr b"
      "length b = view_size bionic_layout v" "guest_view b = Inr v" by blast
    show ?thesis
      by (cases "src_canonname i")
        (use Some assms(3) pos b view_size_pos [OF v(2)] in \<open>simp_all add: e steps\<close>)
  qed
qed

lemma describes_cong:
  "\<forall>b \<in> set (bionic_owned n). b \<noteq> 0 \<longrightarrow> B' b = B b \<Longrightarrow> describes B' n e = describes B n e"
  by (auto simp: describes_def split: option.splits) metis+

lemma describes_next: "describes B (n\<lparr>ai_next := q\<rparr>) e = describes B n e"
  by (simp add: describes_def split: option.split)

lemma heap_ok_new_node:
  "heap_ok s \<Longrightarrow> heap_ok (s\<lparr>nodes := (nodes s)(brk s \<mapsto> n), brk := Suc (brk s)\<rparr>)"
  by (auto simp: heap_ok_def)

text \<open>
  The conversion of a whole list, by induction: it never fails, its result describes the
  expressible entries in order, and it owns exactly the blocks that were allocated.
\<close>

lemma from_host_alloc_run:
  assumes "af_headers_ok (lay c) (hdr c)" and "\<forall>i \<in> set is. src_ok c i" and "heap_ok s"
  shows "\<exists>p s' ps. from_host_alloc c is s = (Inr p, s') \<and> list_owned ai_next bionic_owned s' p ps \<and>
    denotes s' ps (List.map_filter (guest_entry c) is) \<and>
    grown s s' (set ps) (set (owned_of bionic_owned (nodes s') ps))"
  using assms(2,3)
proof (induction "is" arbitrary: s)
  case Nil
  have "list_owned ai_next bionic_owned s 0 [] \<and> denotes s [] [] \<and> grown s s {} {}"
    by (simp add: list_owned_def denotes_def)
  then show ?case by (auto simp: map_filter_simps intro!: exI [of _ "[]"])
next
  case (Cons i rest)
  define out where "out = brk s"
  define s0 where "s0 = s\<lparr>nodes := (nodes s)(out \<mapsto> blank_addrinfo), brk := Suc (brk s)\<rparr>"
  have new: "new_node blank_addrinfo s = (Inr out, s0)" by (simp add: new_node_def s0_def out_def)
  have s0: "heap_ok s0" "nodes s0 out \<noteq> None"
    using heap_ok_new_node [OF Cons.prems(2)] by (simp_all add: s0_def out_def)
  show ?case
  proof (cases "guest_entry c i")
    case None
    from Cons.prems(1) have "src_ok c i" by simp
    from from_host_fill_fails [OF assms(1) this None] obtain fmt args where
      fill: "from_host_fill c i out s0 = (Inl (Runtime_error fmt args), s0)" by blast
    define s1 where "s1 = s0\<lparr>nodes := (nodes s0)(out := None)\<rparr>"
    have "nodes s out = None" using heap_ok_fresh [OF Cons.prems(2)] by (simp add: out_def)
    then have s1: "nodes s1 = nodes s" "bufs s1 = bufs s" "brk s1 = Suc (brk s)"
      by (auto simp: s1_def s0_def)
    have del: "delete_node out s0 = (Inr (), s1)" using s0(2) by (simp add: delete_node_def s1_def)
    have ok1: "heap_ok s1" using Cons.prems(2) unfolding heap_ok_def s1 by (metis less_SucI)
    have run: "from_host_alloc c (i # rest) s = from_host_alloc c rest s1"
      by (simp add: bindA_def new tryA_def fill del)
    have grow: "grown s s' P B" if "grown s1 s' P B" for s' P B
      using that unfolding grown_def s1 by (metis Suc_leD)
    from Cons.IH [OF _ ok1] Cons.prems(1) run None show ?thesis
      by (auto simp: map_filter_simps intro: grow)
  next
    case (Some e)
    from from_host_fill_ok [OF assms(1) s0 Some] obtain n s1 where
      fill: "from_host_fill c i out s0 = (Inr n, s1)" "filled out s0 n s1" "describes (bufs s1) n e" by blast
    have s1: "brk s < brk s1" "nodes s1 = (nodes s)(out \<mapsto> n)" "bufs s1 0 = None"
      "\<forall>b. b \<notin> set (bionic_owned n) \<longrightarrow> bufs s1 b = bufs s b"
      "\<forall>b \<in> set (bionic_owned n). b \<noteq> 0 \<longrightarrow> brk s \<le> b \<and> b < brk s1 \<and> bufs s1 b \<noteq> None"
      "distinct (filter (\<lambda>b. b \<noteq> 0) (bionic_owned n))"
      using fill(2) by (auto simp: filled_def s0_def)
    have ok1: "heap_ok s1"
      using s1 Cons.prems(2) unfolding heap_ok_def out_def
      by (metis (full_types) fun_upd_apply gr0I less_trans order_le_less_trans)
    from Cons.IH [OF _ ok1] Cons.prems(1) obtain q s2 ps where
      rest: "from_host_alloc c rest s1 = (Inr q, s2)" "list_owned ai_next bionic_owned s2 q ps"
      "denotes s2 ps (List.map_filter (guest_entry c) rest)"
      and grow: "grown s1 s2 (set ps) (set (owned_of bionic_owned (nodes s2) ps))" by auto
    define n' where "n' = n\<lparr>ai_next := q\<rparr>"
    define s3 where "s3 = s2\<lparr>nodes := (nodes s2)(out \<mapsto> n')\<rparr>"
    note below = grown_below [OF grow]
    have sep: "out \<notin> set ps" "\<forall>b \<in> set (bionic_owned n). b \<noteq> 0 \<longrightarrow> bufs s3 b = bufs s1 b"
      using below s1(1,5) by (simp_all add: s3_def out_def)
    have run: "from_host_alloc c (i # rest) s = (Inr out, s3)"
    proof -
      have "nodes s2 out = Some n" using grow sep(1) s1(2) by (simp add: grown_def)
      then show ?thesis
        by (simp add: bindA_def new tryA_def fill rest(1) set_node_def s3_def n'_def)
    qed
    have "list_owned ai_next bionic_owned s3 (brk s) (brk s # ps) \<and>
        grown s s3 (set (brk s # ps)) (set (owned_of bionic_owned (nodes s3) (brk s # ps)))"
      by (rule list_owned_cons [of s s1 n bionic_owned ai_next s2 q ps n'])
        (use Cons.prems(2) s1 rest(2) grow in \<open>simp_all add: out_def s3_def n'_def\<close>)
    moreover have "denotes s3 (out # ps) (e # List.map_filter (guest_entry c) rest)"
    proof -
      have "describes (bufs s3) n' e"
        using describes_cong [OF sep(2)] fill(3) by (simp add: describes_next n'_def)
      moreover have "denotes s3 ps (List.map_filter (guest_entry c) rest)"
        using rest(3) unfolding denotes_def
        by (rule list.rel_mono_strong) (use sep(1) in \<open>auto simp: s3_def\<close>)
      ultimately show ?thesis by (simp add: denotes_def s3_def)
    qed
    ultimately show ?thesis using run Some
      by (auto simp: map_filter_simps out_def intro!: exI [of _ "brk s # ps"])
  qed
qed

text \<open>
  The hints: the address of each, if present, must be convertible; then the host list the
  shim builds owns exactly what was allocated too.
\<close>

definition hint_ok :: "host_net \<Rightarrow> nat addrinfo_src \<Rightarrow> bool" where
  "hint_ok c i \<longleftrightarrow>
     (src_socktype i = 0 \<or> (\<exists>st. to_host_socktype (hdr c) (src_socktype i) = Inr st)) \<and>
     (\<exists>pr. to_host_ipproto (hdr c) (src_protocol i) = Inr pr) \<and> src_addr i = None"

lemma to_host_fill_ok:
  assumes "hint_ok c i" and "nodes s out \<noteq> None"
  shows "\<exists>n. to_host_fill c i out s = (Inr n, s\<lparr>nodes := (nodes s)(out \<mapsto> n)\<rparr>) \<and> ai_addr n = 0"
proof -
  from assms(1) obtain pr where "to_host_ipproto (hdr c) (src_protocol i) = Inr pr" "src_addr i = None"
    by (auto simp: hint_ok_def)
  moreover from assms(1) obtain st where
    "(if src_socktype i \<noteq> 0 then liftA (to_host_socktype (hdr c) (src_socktype i)) else retA 0) =
      (liftA (Inr st) :: (addrinfo heap, int) act)"
    unfolding hint_ok_def by (cases "src_socktype i = 0") (auto simp: fun_eq_iff)
  ultimately show ?thesis
    using assms(2) by (auto simp: to_host_fill_def get_host_len_def bindA_def set_node_def Let_def)
qed

lemma to_host_alloc_run:
  assumes "\<forall>i \<in> set is. hint_ok c i" and "heap_ok s"
  shows "\<exists>p s' ps. to_host_alloc c is s = (Inr p, s') \<and> list_owned ai_next host_owned s' p ps \<and>
    grown s s' (set ps) (set (owned_of host_owned (nodes s') ps))"
  using assms
proof (induction "is" arbitrary: s)
  case Nil
  have "list_owned ai_next host_owned s 0 []" by (simp add: list_owned_def)
  then show ?case by (auto intro!: exI [of _ "[]"])
next
  case (Cons i rest)
  define s0 where "s0 = s\<lparr>nodes := (nodes s)(brk s \<mapsto> blank_addrinfo), brk := Suc (brk s)\<rparr>"
  have new: "new_node blank_addrinfo s = (Inr (brk s), s0)" by (simp add: new_node_def s0_def)
  obtain n where fill: "to_host_fill c i (brk s) s0 = (Inr n, s0\<lparr>nodes := (nodes s0)(brk s \<mapsto> n)\<rparr>)"
    and n: "ai_addr n = 0"
    using to_host_fill_ok [of c i s0 "brk s"] Cons.prems(1) by (auto simp: s0_def)
  define s1 where "s1 = s0\<lparr>nodes := (nodes s0)(brk s \<mapsto> n)\<rparr>"
  have s1: "brk s1 = Suc (brk s)" "nodes s1 = (nodes s)(brk s \<mapsto> n)" "bufs s1 = bufs s"
    by (simp_all add: s1_def s0_def)
  have ok1: "heap_ok s1"
    using heap_ok_new_node [OF Cons.prems(2), of n] unfolding heap_ok_def s1 by simp
  from Cons.IH [OF _ ok1] Cons.prems(1) obtain q s2 ps where
    rest: "to_host_alloc c rest s1 = (Inr q, s2)" "list_owned ai_next host_owned s2 q ps"
    and grow: "grown s1 s2 (set ps) (set (owned_of host_owned (nodes s2) ps))" by auto
  define s3 where "s3 = s2\<lparr>nodes := (nodes s2)(brk s \<mapsto> n\<lparr>ai_next := q\<rparr>)\<rparr>"
  have "nodes s2 (brk s) = Some n" using grown_below [OF grow, of "brk s"] s1 by simp
  then have "to_host_alloc c (i # rest) s = (Inr (brk s), s3)"
    by (simp add: bindA_def new fill [folded s1_def] rest(1) set_node_def s3_def)
  moreover have "list_owned ai_next host_owned s3 (brk s) (brk s # ps) \<and>
      grown s s3 (set (brk s # ps)) (set (owned_of host_owned (nodes s3) (brk s # ps)))"
    by (rule list_owned_cons [of s s1 n host_owned ai_next s2 q ps "n\<lparr>ai_next := q\<rparr>"])
      (use Cons.prems(2) heap_ok_fresh [OF Cons.prems(2)] s1 n rest(2) grow in
        \<open>auto simp: s3_def heap_ok_def\<close>)
  ultimately show ?case by blast
qed

section \<open>Properties\<close>

text \<open>Two heaps with the same blocks: they differ at most in which address comes next.\<close>

definition same_blocks :: "'n heap \<Rightarrow> 'n heap \<Rightarrow> bool" where
  "same_blocks s t \<longleftrightarrow> nodes s = nodes t \<and> bufs s = bufs t"

text \<open>
  C11. Converting the host's list never fails: entries the guest's structures cannot express
  are left out, the others appear in order with the same content; and taking the list down
  again frees exactly the blocks the conversion allocated, each once, those of left-out
  entries included.
\<close>

theorem from_host_alloc_correct:
  assumes "af_headers_ok (lay c) (hdr c)" and "\<forall>i \<in> set is. src_ok c i" and "heap_ok s"
  shows "\<exists>p s' ps s''. from_host_alloc c is s = (Inr p, s') \<and> nodes_at ai_next (nodes s') p ps \<and>
    denotes s' ps (List.map_filter (guest_entry c) is) \<and>
    free_bionic_list p s' = Some (Inr (), s'') \<and> same_blocks s'' s"
proof -
  from from_host_alloc_run [OF assms] obtain p s' ps where
    run: "from_host_alloc c is s = (Inr p, s')" "list_owned ai_next bionic_owned s' p ps"
    "denotes s' ps (List.map_filter (guest_entry c) is)"
    and grow: "grown s s' (set ps) (set (owned_of bionic_owned (nodes s') ps))" by blast
  from run(2) have "nodes_at ai_next (nodes s') p ps" by (simp add: list_owned_def)
  with run bionic_ai.frees_exactly [OF run(2)] grown_dropped [OF assms(3) grow] show ?thesis
    unfolding same_blocks_def by blast
qed

lemma hints_freed:
  assumes "heap_ok s" and "\<forall>i \<in> set hints. hint_ok c i"
  shows "\<exists>p m s1. to_host_alloc c hints s = (Inr p, m) \<and> free_host_list p m = Some (Inr (), s1) \<and>
    heap_ok s1 \<and> same_blocks s1 s"
proof -
  from to_host_alloc_run [OF assms(2,1)] obtain p m ps where
    alloc: "to_host_alloc c hints s = (Inr p, m)" "list_owned ai_next host_owned m p ps"
    and grow: "grown s m (set ps) (set (owned_of host_owned (nodes m) ps))" by blast
  define s1 where "s1 = drop_blocks (set ps) (set (owned_of host_owned (nodes m) ps)) m"
  have free: "free_host_list p m = Some (Inr (), s1)"
    unfolding s1_def by (rule host_ai.frees_exactly [OF alloc(2)])
  have same: "nodes s1 = nodes s" "bufs s1 = bufs s" "brk s \<le> brk s1"
    using grown_dropped [OF assms(1) grow] grow by (simp_all add: s1_def grown_def drop_blocks_def)
  have "heap_ok s1"
    using assms(1) same unfolding heap_ok_def same(1,2) by (meson le_trans not_le order_less_le_trans)
  with alloc(1) free same show ?thesis by (auto simp: same_blocks_def)
qed

text \<open>A lookup the host answers with a list.\<close>

lemma getaddrinfo_found:
  assumes "af_headers_ok (lay c) (hdr c)" and "heap_ok s" and "\<forall>i \<in> set hints. hint_ok c i"
    and "to_host_alloc c hints s = (Inr p, m)" and "host m p = (0, hres)" and "\<forall>i \<in> set hres. src_ok c i"
  shows "\<exists>q ps s' s''. getaddrinfo c host hints res s = Some (Inr (0, q), s') \<and>
    nodes_at ai_next (nodes s') q ps \<and> denotes s' ps (List.map_filter (guest_entry c) hres) \<and>
    freeaddrinfo q s' = Some (Inr (), s'') \<and> same_blocks s'' s"
proof -
  from hints_freed [OF assms(2,3)] assms(4) obtain s1 where
    free: "free_host_list p m = Some (Inr (), s1)" and ok1: "heap_ok s1" and same: "same_blocks s1 s" by auto
  from from_host_alloc_run [OF assms(1,6) ok1] obtain q s' qs where
    run: "from_host_alloc c hres s1 = (Inr q, s')" "list_owned ai_next bionic_owned s' q qs"
    "denotes s' qs (List.map_filter (guest_entry c) hres)"
    and grow: "grown s1 s' (set qs) (set (owned_of bionic_owned (nodes s') qs))" by blast
  from run(2) have "nodes_at ai_next (nodes s') q qs" by (simp add: list_owned_def)
  moreover have "getaddrinfo c host hints res s = Some (Inr (0, q), s')"
    by (simp add: getaddrinfo_def assms(4,5) free run(1))
  ultimately show ?thesis
    using run(3) bionic_ai.frees_exactly [OF run(2)] grown_dropped [OF ok1 grow] same
    unfolding same_blocks_def freeaddrinfo_def by auto
qed


text \<open>A host list of one usable entry and one of an unknown socket type.\<close>

definition sample_net :: host_net where
  "sample_net = \<lparr>hdr = linux_net_headers, defd = (\<lambda>_. True), lay = bionic_layout\<rparr>"

definition sample_results :: "bytes option addrinfo_src list" where
  "sample_results =
     [\<lparr>src_flags = 0, src_family = 2, src_socktype = 5, src_protocol = 6, src_addr = Some loopback_80,
       src_canonname = Some [97]\<rparr>,
      \<lparr>src_flags = 0, src_family = 2, src_socktype = 1, src_protocol = 6, src_addr = Some loopback_80,
       src_canonname = Some [97]\<rparr>]"

definition sample_hints :: "nat addrinfo_src list" where
  "sample_hints = [\<lparr>src_flags = 2, src_family = 0, src_socktype = 0, src_protocol = 6, src_addr = None,
     src_canonname = 0\<rparr>]"

lemma empty_heap_ok [simp]: "heap_ok empty_heap"
  by (simp add: heap_ok_def empty_heap_def)

lemma sample_ok:
  "af_headers_ok (lay sample_net) (hdr sample_net)" "\<forall>i \<in> set sample_results. src_ok sample_net i"
  "\<forall>i \<in> set sample_hints. hint_ok sample_net i"
  using loopback_80_host_view linux_af_headers
  by (simp_all add: sample_net_def sample_results_def sample_hints_def src_ok_def hint_ok_def
      to_host_ipproto_def ipproto_to_host_rows_def)

lemma sample_entries:
  "map (guest_entry sample_net) sample_results =
     [None, Some \<lparr>e_flags = from_host_ai_flags linux_net_headers 0, e_family = 2, e_socktype = 1,
       e_protocol = 6, e_addr = Some (V_inet [0, 80] [127, 0, 0, 1]), e_canon = Some [97]\<rparr>]"
  by (simp add: sample_results_def guest_entry_def sample_net_def loopback_80_host_view
      from_host_socktype_def socktype_from_host_rows_def from_host_ipproto_def
      ipproto_from_host_rows_def from_host_af_family_def af_from_host_rows_def)

lemma map_filter_length: "length (List.map_filter f xs) = length (filter (\<lambda>y. y \<noteq> None) (map f xs))"
  by (induction xs) (auto simp: map_filter_simps split: option.splits)

theorem from_host_alloc_correct_witness:
  "\<exists>p s' ps s''. from_host_alloc sample_net sample_results empty_heap = (Inr p, s') \<and>
     nodes_at ai_next (nodes s') p ps \<and> length ps = 1 \<and>
     free_bionic_list p s' = Some (Inr (), s'') \<and> same_blocks s'' empty_heap"
proof -
  have "length (List.map_filter (guest_entry sample_net) sample_results) = 1"
    by (simp add: map_filter_length sample_entries)
  then have "length ps = 1"
    if "denotes t ps (List.map_filter (guest_entry sample_net) sample_results)" for t ps
    using that unfolding denotes_def by (simp only: list_all2_lengthD)
  with from_host_alloc_correct [OF sample_ok(1,2) empty_heap_ok] show ?thesis by blast
qed


text \<open>
  Hints that cannot be converted make \<open>getaddrinfo\<close> throw, and the structure allocated for
  them is never freed.
\<close>

lemma getaddrinfo_bad_hints_leak:
  "\<exists>fmt args s'. getaddrinfo sample_net host
       [\<lparr>src_flags = 0, src_family = 0, src_socktype = 4, src_protocol = 0, src_addr = None,
         src_canonname = 0\<rparr>] 0 empty_heap = Some (Inl (Runtime_error fmt args), s') \<and>
     nodes s' 1 \<noteq> None"
  by (simp add: getaddrinfo_def sample_net_def to_host_fill_def to_host_socktype_def
      socktype_to_host_rows_def new_node_def empty_heap_def bindA_def)

end
