(* ===== verification/Ifaddrs.thy ===== *)
theory Ifaddrs
  imports Addrinfo
begin

text \<open>
  Network interfaces (src/src/network.cpp): \<open>shim::getifaddrs\<close>, which copies the host's
  interface list node by node and appends each to the result, the translation of the
  interface flags, and \<open>shim::freeifaddrs\<close>.
\<close>

section \<open>Interface flags\<close>

text \<open>One row per \<open>#ifdef\<close>'d test, with the enumerators of \<open>enum class IFF\<close>.\<close>

definition IFF :: "(string \<times> u32) list" where
  "IFF =
     [(''IFF_UP'', 0x1), (''IFF_BROADCAST'', 0x2), (''IFF_DEBUG'', 0x4), (''IFF_LOOPBACK'', 0x8),
      (''IFF_POINTOPOINT'', 0x10), (''IFF_NOTRAILERS'', 0x20), (''IFF_RUNNING'', 0x40),
      (''IFF_NOARP'', 0x80), (''IFF_PROMISC'', 0x100), (''IFF_ALLMULTI'', 0x200),
      (''IFF_MASTER'', 0x400), (''IFF_SLAVE'', 0x800), (''IFF_MULTICAST'', 0x1000),
      (''IFF_PORTSEL'', 0x2000), (''IFF_AUTOMEDIA'', 0x4000), (''IFF_DYNAMIC'', 0x8000),
      (''IFF_LOWER_UP'', 0x10000), (''IFF_DORMANT'', 0x20000), (''IFF_ECHO'', 0x40000)]"

definition iff_flags :: "host_net \<Rightarrow> u32 \<Rightarrow> u32" where
  "iff_flags c = from_host_flags (hdr c) (filter (\<lambda>(m, _). defd c m) IFF)"

section \<open>Data and operations\<close>

record host_ifaddr =
  hif_name :: "bytes option"
  hif_flags :: u32
  hif_addr :: "bytes option"
  hif_netmask :: "bytes option"

record ifaddrs =
  ifa_next :: nat
  ifa_name :: nat
  ifa_flags :: u32
  ifa_addr :: nat
  ifa_netmask :: nat

definition blank_ifaddrs :: ifaddrs where
  "blank_ifaddrs = \<lparr>ifa_next = 0, ifa_name = 0, ifa_flags = 0, ifa_addr = 0, ifa_netmask = 0\<rparr>"

definition is_inet :: "host_net \<Rightarrow> bytes option \<Rightarrow> bool result" where
  "is_inet c a =
     (case a of None \<Rightarrow> Inr False
      | Some a \<Rightarrow> bindR (load_le a (family_off (lay c)) (family_len (lay c))) (\<lambda>f.
          Inr (int f = hdr c ''AF_INET'' \<or> int f = hdr c ''AF_INET6'')))"

text \<open>\<open>malloc(get_bionic_len(a))\<close> and \<open>from_host\<close> into it.\<close>

definition copy_addr :: "host_net \<Rightarrow> bytes option \<Rightarrow> ('n heap, nat) act" where
  "copy_addr c a =
     bindA (liftA (get_bionic_len (lay c) (hdr c) a)) (\<lambda>len.
       alloc_filled len (\<lambda>b. case a of None \<Rightarrow> Inl Memory_fault
         | Some a \<Rightarrow> from_host_sockaddr (lay c) (hdr c) a b))"

definition ifaddr_fill :: "host_net \<Rightarrow> host_ifaddr \<Rightarrow> nat \<Rightarrow> (ifaddrs heap, unit) act" where
  "ifaddr_fill c i n =
     bindA (copy_addr c (hif_addr i)) (\<lambda>addr.
     bindA (liftA (is_inet c (hif_netmask i))) (\<lambda>m.
     bindA (if m then copy_addr c (hif_netmask i) else retA 0) (\<lambda>mask.
     bindA (dup_string (hif_name i)) (\<lambda>name.
     set_node n \<lparr>ifa_next = 0, ifa_name = name, ifa_flags = iff_flags c (hif_flags i),
       ifa_addr = addr, ifa_netmask = mask\<rparr>))))"

definition ifaddr_link :: "nat \<Rightarrow> nat \<Rightarrow> nat \<Rightarrow> (ifaddrs heap, nat) act" where
  "ifaddr_link pc n result =
     (if pc = 0 then retA n
      else bindA (get_node pc) (\<lambda>t. bindA (set_node pc (t\<lparr>ifa_next := n\<rparr>)) (\<lambda>_. retA result)))"

text \<open>The loop, with the tail of the list so far and its head \<open>*result\<close>.\<close>

fun getifaddrs_loop :: "host_net \<Rightarrow> host_ifaddr list \<Rightarrow> nat \<Rightarrow> nat \<Rightarrow> (ifaddrs heap, nat) act" where
  "getifaddrs_loop c [] pc result = retA result"
| "getifaddrs_loop c (i # rest) pc result =
     bindA (liftA (is_inet c (hif_addr i))) (\<lambda>inet.
       if inet then
         bindA (new_node blank_ifaddrs) (\<lambda>n.
         bindA (ifaddr_fill c i n) (\<lambda>_.
         bindA (ifaddr_link pc n result) (\<lambda>result.
         getifaddrs_loop c rest n result)))
       else getifaddrs_loop c rest pc result)"

text \<open>The host's \<open>getifaddrs\<close>: its return value and its list, a parameter.\<close>

definition getifaddrs :: "host_net \<Rightarrow> int \<times> host_ifaddr list \<Rightarrow> nat \<Rightarrow> (ifaddrs heap, int \<times> nat) act" where
  "getifaddrs c host res =
     (if fst host \<noteq> 0 then retA (fst host, res)
      else bindA (getifaddrs_loop c (snd host) 0 0) (\<lambda>p. retA (0, p)))"

definition freeifaddrs_step :: "nat \<Rightarrow> (ifaddrs heap, nat) act" where
  "freeifaddrs_step c =
     bindA (get_node c) (\<lambda>x.
     bindA (free_bufs [ifa_addr x, ifa_netmask x, ifa_name x]) (\<lambda>_.
     bindA (get_node c) (\<lambda>x.
     bindA (delete_node c) (\<lambda>_. retA (ifa_next x)))))"

partial_function (option) freeifaddrs ::
  "nat \<Rightarrow> ifaddrs heap \<Rightarrow> (unit result \<times> ifaddrs heap) option" where
  "freeifaddrs c s =
     (if c = 0 then Some (Inr (), s)
      else case freeifaddrs_step c s of
          (Inl e, s') \<Rightarrow> Some (Inl e, s')
        | (Inr n, s') \<Rightarrow> freeifaddrs n s')"

abbreviation ifa_owned :: "ifaddrs \<Rightarrow> nat list" where
  "ifa_owned n \<equiv> [ifa_addr n, ifa_netmask n, ifa_name n]"

interpretation ifa_list: owning_list ifa_next ifa_owned freeifaddrs
proof unfold_locales
  fix p and s s' :: "ifaddrs heap" and n
  assume "p \<noteq> 0" "nodes s p = Some n" "free_bufs (ifa_owned n) s = (Inr (), s')" "nodes s' = nodes s"
  then show "freeifaddrs p s = freeifaddrs (ifa_next n) (s'\<lparr>nodes := (nodes s)(p := None)\<rparr>)"
    by (subst freeifaddrs.simps)
      (simp add: freeifaddrs_step_def bindA_def get_node_def delete_node_def del: free_bufs.simps)
qed (subst freeifaddrs.simps, simp)

section \<open>What the guest's list says\<close>

record ifa_entry =
  ie_name :: "bytes option"
  ie_flags :: u32
  ie_addr :: sa_view
  ie_netmask :: "sa_view option"

definition holds_addr :: "(nat \<Rightarrow> bytes option) \<Rightarrow> nat \<Rightarrow> sa_view option \<Rightarrow> bool" where
  "holds_addr B p v \<longleftrightarrow>
     (case v of None \<Rightarrow> p = 0
      | Some v \<Rightarrow> p \<noteq> 0 \<and> (\<exists>b. B p = Some b \<and> length b = view_size bionic_layout v \<and> guest_view b = Inr v))"

definition holds_string :: "(nat \<Rightarrow> bytes option) \<Rightarrow> nat \<Rightarrow> bytes option \<Rightarrow> bool" where
  "holds_string B p s \<longleftrightarrow> (case s of None \<Rightarrow> p = 0 | Some s \<Rightarrow> p \<noteq> 0 \<and> B p = Some (s @ [0]))"

definition ifa_describes :: "(nat \<Rightarrow> bytes option) \<Rightarrow> ifaddrs \<Rightarrow> ifa_entry \<Rightarrow> bool" where
  "ifa_describes B n e \<longleftrightarrow>
     ifa_flags n = ie_flags e \<and> holds_addr B (ifa_addr n) (Some (ie_addr e)) \<and>
     holds_addr B (ifa_netmask n) (ie_netmask e) \<and> holds_string B (ifa_name n) (ie_name e)"

definition ifa_denotes :: "ifaddrs heap \<Rightarrow> nat list \<Rightarrow> ifa_entry list \<Rightarrow> bool" where
  "ifa_denotes s ps es \<longleftrightarrow>
     list_all2 (\<lambda>p e. \<exists>n. nodes s p = Some n \<and> ifa_describes (bufs s) n e) ps es"

text \<open>The internet address at a host pointer, if it is one.\<close>

definition inet_view :: "host_net \<Rightarrow> bytes option \<Rightarrow> sa_view option" where
  "inet_view c a =
     (case a of None \<Rightarrow> None
      | Some a \<Rightarrow> (case host_view (lay c) (hdr c) a of
          Inr v \<Rightarrow> if kind_of v = Af_inet \<or> kind_of v = Af_inet6 then Some v else None
        | Inl _ \<Rightarrow> None))"

definition ifa_guest_entry :: "host_net \<Rightarrow> host_ifaddr \<Rightarrow> ifa_entry option" where
  "ifa_guest_entry c i =
     map_option (\<lambda>v. \<lparr>ie_name = hif_name i, ie_flags = iff_flags c (hif_flags i), ie_addr = v,
       ie_netmask = inet_view c (hif_netmask i)\<rparr>) (inet_view c (hif_addr i))"

text \<open>An address the host supplies: null, complete, or of a family the shim does not know.\<close>

definition addr_ok :: "host_net \<Rightarrow> bytes option \<Rightarrow> bool" where
  "addr_ok c a \<longleftrightarrow>
     (case a of None \<Rightarrow> True
      | Some a \<Rightarrow> (\<exists>v. host_view (lay c) (hdr c) a = Inr v) \<or>
          (\<exists>fam. load_le a (family_off (lay c)) (family_len (lay c)) = Inr fam \<and>
            host_kind (hdr c) fam = None))"

lemma host_kind_inet:
  assumes ok: "af_headers_ok L h" and "host_kind h fam = Some k"
  shows "(int fam = h ''AF_INET'' \<or> int fam = h ''AF_INET6'') = (k = Af_inet \<or> k = Af_inet6)"
  using assms(2) family_codes_differ [OF ok] by (cases k) (simp_all add: host_kind_eq [OF ok])

lemma is_inet_eq:
  assumes ok: "af_headers_ok (lay c) (hdr c)" and "addr_ok c a"
  shows "is_inet c a = Inr (inet_view c a \<noteq> None)"
proof (cases a)
  case (Some m)
  with assms(2) consider v where "host_view (lay c) (hdr c) m = Inr v"
    | fam where "load_le m (family_off (lay c)) (family_len (lay c)) = Inr fam" "host_kind (hdr c) fam = None"
    by (auto simp: addr_ok_def)
  then show ?thesis
  proof cases
    case 1
    from host_viewD [OF 1] obtain fam where
      fam: "load_le m (family_off (lay c)) (family_len (lay c)) = Inr fam"
      "host_kind (hdr c) fam = Some (kind_of v)" by blast
    from host_kind_inet [OF ok fam(2)] fam(1) 1 Some show ?thesis
      by (simp add: is_inet_def inet_view_def)
  next
    case 2
    then have no: "\<not> host_kind (hdr c) fam = Some k" for k by simp
    have "int fam \<noteq> hdr c ''AF_INET'' \<and> int fam \<noteq> hdr c ''AF_INET6''"
      using no [of Af_inet] no [of Af_inet6] unfolding host_kind_eq [OF ok] by blast
    with 2 Some show ?thesis by (simp add: is_inet_def inet_view_def host_view_def)
  qed
qed (simp add: is_inet_def inet_view_def)

lemma copy_addr_ok:
  assumes "af_headers_ok (lay c) (hdr c)" and "inet_view c a = Some v"
  shows "\<exists>b. copy_addr c a s = (Inr (brk s), s\<lparr>bufs := (bufs s)(brk s \<mapsto> b), brk := Suc (brk s)\<rparr>) \<and>
    length b = view_size bionic_layout v \<and> guest_view b = Inr v"
proof -
  from assms(2) obtain m where m: "a = Some m" "host_view (lay c) (hdr c) m = Inr v" "v \<noteq> V_unspec"
    by (cases v) (auto simp: inet_view_def split: option.splits sum.splits if_splits)
  from addr_converts [OF assms(1) m(2,3)] m(1) show ?thesis
    by (auto simp: copy_addr_def alloc_filled_def new_buf_def bindA_def)
qed

definition ifa_filled :: "nat \<Rightarrow> ifaddrs heap \<Rightarrow> ifaddrs \<Rightarrow> ifaddrs heap \<Rightarrow> bool" where
  "ifa_filled out s n s' \<longleftrightarrow>
     brk s \<le> brk s' \<and> nodes s' = (nodes s)(out \<mapsto> n) \<and>
     (\<forall>b. b \<notin> set (ifa_owned n) \<longrightarrow> bufs s' b = bufs s b) \<and>
     (\<forall>b \<in> set (ifa_owned n). b \<noteq> 0 \<longrightarrow> brk s \<le> b \<and> b < brk s' \<and> bufs s' b \<noteq> None) \<and>
     bufs s' 0 = None \<and> distinct (filter (\<lambda>b. b \<noteq> 0) (ifa_owned n))"

lemma ifaddr_fill_ok:
  assumes ok: "af_headers_ok (lay c) (hdr c)" and "addr_ok c (hif_netmask i)"
    and "heap_ok s" and "nodes s out \<noteq> None" and "ifa_guest_entry c i = Some e"
  shows "\<exists>s'. ifaddr_fill c i out s = (Inr (), s') \<and> ifa_filled out s (the (nodes s' out)) s' \<and>
    ifa_describes (bufs s') (the (nodes s' out)) e \<and> ifa_next (the (nodes s' out)) = 0"
proof -
  from assms(5) obtain v where v: "inet_view c (hif_addr i) = Some v"
    and e: "e = \<lparr>ie_name = hif_name i, ie_flags = iff_flags c (hif_flags i), ie_addr = v,
      ie_netmask = inet_view c (hif_netmask i)\<rparr>" by (auto simp: ifa_guest_entry_def)
  from assms(3) have pos: "0 < brk s" "bufs s 0 = None" by (auto simp: heap_ok_def)
  from copy_addr_ok [OF ok v, of s] obtain b where b:
    "copy_addr c (hif_addr i) s = (Inr (brk s), s\<lparr>bufs := (bufs s)(brk s \<mapsto> b), brk := Suc (brk s)\<rparr>)"
    "length b = view_size bionic_layout v" "guest_view b = Inr v" by blast
  let ?s1 = "s\<lparr>bufs := (bufs s)(brk s \<mapsto> b), brk := Suc (brk s)\<rparr>"
  note steps = ifaddr_fill_def bindA_def b(1) is_inet_eq [OF ok assms(2)] dup_string_def
    new_buf_def set_node_def ifa_describes_def holds_addr_def holds_string_def ifa_filled_def
  show ?thesis
  proof (cases "inet_view c (hif_netmask i)")
    case None
    show ?thesis
      by (cases "hif_name i") (use None pos b(2,3) assms(4) in \<open>simp_all add: e steps\<close>)
  next
    case (Some w)
    from copy_addr_ok [OF ok Some, of ?s1] obtain d where d: "copy_addr c (hif_netmask i) ?s1 =
        (Inr (Suc (brk s)), s\<lparr>bufs := (bufs s)(brk s \<mapsto> b, Suc (brk s) \<mapsto> d), brk := Suc (Suc (brk s))\<rparr>)"
      "length d = view_size bionic_layout w" "guest_view d = Inr w" by auto
    show ?thesis
      by (cases "hif_name i") (use Some pos b(2,3) d(2,3) assms(4) in \<open>simp_all add: e steps d(1)\<close>)
  qed
qed

lemma ifa_describes_cong:
  "\<forall>b \<in> set (ifa_owned n). b \<noteq> 0 \<longrightarrow> B' b = B b \<Longrightarrow> ifa_describes B n e \<Longrightarrow> ifa_describes B' n e"
  by (auto simp: ifa_describes_def holds_addr_def holds_string_def split: option.splits)

text \<open>Nodes of the list so far describe the same entries after one more node is linked in.\<close>

lemma ifa_denotes_extend:
  assumes "ifa_denotes s ps es" and "list_owned ifa_next ifa_owned s p ps" and "distinct ps"
    and "\<forall>r \<in> set ps. \<exists>n. nodes s r = Some n \<and>
      (nodes s' r = Some n \<or> (\<exists>x. nodes s' r = Some (n\<lparr>ifa_next := x\<rparr>)))"
    and "\<forall>b \<in> set (owned_of ifa_owned (nodes s) ps). bufs s' b = bufs s b"
  shows "ifa_denotes s' ps es"
  unfolding ifa_denotes_def
proof (rule list.rel_mono_strong [OF assms(1) [unfolded ifa_denotes_def]])
  fix r e
  assume r: "r \<in> set ps" and "\<exists>n. nodes s r = Some n \<and> ifa_describes (bufs s) n e"
  then obtain n where n: "nodes s r = Some n" "ifa_describes (bufs s) n e" by blast
  have "\<forall>b \<in> set (ifa_owned n). b \<noteq> 0 \<longrightarrow> bufs s' b = bufs s b"
    using assms(5) r n(1) by (force simp: owned_of_def)
  from ifa_describes_cong [OF this n(2)] have "ifa_describes (bufs s') n e" .
  moreover have "ifa_describes (bufs s') (n\<lparr>ifa_next := x\<rparr>) e = ifa_describes (bufs s') n e" for x
    by (simp add: ifa_describes_def)
  ultimately show "\<exists>n. nodes s' r = Some n \<and> ifa_describes (bufs s') n e"
    using assms(4) r n(1) by fastforce
qed

text \<open>The state of the loop: the list built so far and what it owns.\<close>

definition ifa_inv :: "ifaddrs heap \<Rightarrow> ifaddrs heap \<Rightarrow> nat \<Rightarrow> nat \<Rightarrow> nat list \<Rightarrow> ifa_entry list \<Rightarrow> bool" where
  "ifa_inv s0 s result pc ps es \<longleftrightarrow>
     grown s0 s (set ps) (set (owned_of ifa_owned (nodes s) ps)) \<and>
     list_owned ifa_next ifa_owned s result ps \<and> ifa_denotes s ps es \<and>
     pc = (if ps = [] then 0 else last ps)"

lemma ifa_inv_step:
  assumes hok: "heap_ok s0" and inv: "ifa_inv s0 s result pc ps es"
    and filled: "ifa_filled (brk s) (s\<lparr>nodes := (nodes s)(brk s \<mapsto> m), brk := Suc (brk s)\<rparr>) n s1"
      "ifa_next n = 0" "ifa_describes (bufs s1) n e"
  shows "\<exists>s2. ifaddr_link pc (brk s) result s1 = (Inr (if ps = [] then brk s else result), s2) \<and>
    ifa_inv s0 s2 (if ps = [] then brk s else result) (brk s) (ps @ [brk s]) (es @ [e])"
proof -
  from inv have grow: "grown s0 s (set ps) (set (owned_of ifa_owned (nodes s) ps))"
    and list: "list_owned ifa_next ifa_owned s result ps" and den: "ifa_denotes s ps es"
    by (simp_all add: ifa_inv_def)
  from list have chain: "nodes_at ifa_next (nodes s) result ps" "distinct ps"
    by (simp_all add: list_owned_def)
  from filled(1) have s1: "brk s < brk s1" "nodes s1 = (nodes s)(brk s \<mapsto> n)"
    "\<forall>b. b \<notin> set (ifa_owned n) \<longrightarrow> bufs s1 b = bufs s b"
    "\<forall>b \<in> set (ifa_owned n). b \<noteq> 0 \<longrightarrow> brk s \<le> b \<and> b < brk s1 \<and> bufs s1 b \<noteq> None"
    "bufs s1 0 = None" "distinct (filter (\<lambda>b. b \<noteq> 0) (ifa_owned n))"
    by (auto simp: ifa_filled_def)
  define t where "t = the (nodes s (last ps))"
  have t: "nodes s (last ps) = Some t" "0 < last ps" "last ps \<noteq> brk s" if "ps \<noteq> []"
    using nodes_at_alloc [OF chain(1) last_in_set [OF that]] grown_ok [OF hok grow]
    by (auto simp: t_def heap_ok_def)
  define s2 where "s2 = (if ps = [] then s1 else s1\<lparr>nodes := (nodes s1)(last ps \<mapsto> t\<lparr>ifa_next := brk s\<rparr>)\<rparr>)"
  have owned: "list_owned ifa_next ifa_owned s2 (if ps = [] then brk s else result) (ps @ [brk s]) \<and>
      grown s0 s2 (set (ps @ [brk s])) (set (owned_of ifa_owned (nodes s2) (ps @ [brk s])))"
    by (rule list_owned_snoc [OF hok grow list s1(1,2) filled(2) s1(3-6), of t "t\<lparr>ifa_next := brk s\<rparr>"])
      (simp_all add: t s2_def)
  have pc: "pc = (if ps = [] then 0 else last ps)" using inv by (simp add: ifa_inv_def)
  have "nodes s1 (last ps) = Some t" if "ps \<noteq> []" using t [OF that] s1(2) by simp
  then have "ifaddr_link pc (brk s) result s1 = (Inr (if ps = [] then brk s else result), s2)"
    using t(2) by (cases "ps = []")
      (simp_all add: ifaddr_link_def pc s2_def bindA_def get_node_def set_node_def)
  moreover have "ifa_denotes s2 (ps @ [brk s]) (es @ [e])"
  proof -
    have new: "brk s \<notin> set ps" and old: "\<forall>r \<in> set ps \<union> set (owned_of ifa_owned (nodes s) ps). r < brk s"
      using grow unfolding grown_def by (meson UnI1 less_irrefl, meson)
    have "ifa_denotes s2 ps es"
    proof (rule ifa_denotes_extend [OF den list chain(2)])
      show "\<forall>r \<in> set ps. \<exists>n. nodes s r = Some n \<and>
          (nodes s2 r = Some n \<or> (\<exists>x. nodes s2 r = Some (n\<lparr>ifa_next := x\<rparr>)))"
        using nodes_at_alloc [OF chain(1)] t(1) new by (auto simp: s2_def s1(2))
      have "bufs s1 b = bufs s b" if "b \<in> set (owned_of ifa_owned (nodes s) ps)" for b
      proof (rule s1(3) [rule_format])
        from that old have "b < brk s" "b \<noteq> 0" by (auto simp: owned_of_def)
        then show "b \<notin> set (ifa_owned n)" using s1(4) by (meson not_le)
      qed
      then show "\<forall>b \<in> set (owned_of ifa_owned (nodes s) ps). bufs s2 b = bufs s b"
        by (simp add: s2_def)
    qed
    moreover have "nodes s2 (brk s) = Some n" "bufs s2 = bufs s1" using s1(2) t(3) by (auto simp: s2_def)
    ultimately show ?thesis using filled(3) by (auto simp: ifa_denotes_def intro!: list_all2_appendI)
  qed
  ultimately show ?thesis using owned by (auto simp: ifa_inv_def)
qed

definition ifa_src_ok :: "host_net \<Rightarrow> host_ifaddr \<Rightarrow> bool" where
  "ifa_src_ok c i \<longleftrightarrow> addr_ok c (hif_addr i) \<and> addr_ok c (hif_netmask i)"

lemma getifaddrs_loop_run:
  assumes ok: "af_headers_ok (lay c) (hdr c)" and hok: "heap_ok s0"
  shows "\<forall>i \<in> set is. ifa_src_ok c i \<Longrightarrow> ifa_inv s0 s result pc ps es \<Longrightarrow>
    \<exists>p s' pc' ps'. getifaddrs_loop c is pc result s = (Inr p, s') \<and>
      ifa_inv s0 s' p pc' ps' (es @ List.map_filter (ifa_guest_entry c) is)"
proof (induction "is" arbitrary: s result pc ps es)
  case Nil
  then show ?case by (auto simp: map_filter_simps)
next
  case (Cons i rest)
  from Cons.prems(1) have src: "addr_ok c (hif_addr i)" "addr_ok c (hif_netmask i)"
    by (simp_all add: ifa_src_ok_def)
  show ?case
  proof (cases "ifa_guest_entry c i")
    case None
    then have "is_inet c (hif_addr i) = Inr False"
      by (simp add: is_inet_eq [OF ok src(1)] ifa_guest_entry_def)
    with Cons None show ?thesis by (simp add: map_filter_simps)
  next
    case (Some e)
    then have inet: "is_inet c (hif_addr i) = Inr True"
      by (auto simp: is_inet_eq [OF ok src(1)] ifa_guest_entry_def)
    define t where "t = s\<lparr>nodes := (nodes s)(brk s \<mapsto> blank_ifaddrs), brk := Suc (brk s)\<rparr>"
    from Cons.prems(2) have "heap_ok s" unfolding ifa_inv_def using grown_ok [OF hok] by blast
    then have t: "heap_ok t" "nodes t (brk s) \<noteq> None"
      by (simp_all add: t_def heap_ok_new_node)
    from ifaddr_fill_ok [OF ok src(2) t Some] obtain n s1 where
      fill: "ifaddr_fill c i (brk s) t = (Inr (), s1)" "ifa_filled (brk s) t n s1"
      "ifa_describes (bufs s1) n e" "ifa_next n = 0" by blast
    from ifa_inv_step [OF hok Cons.prems(2) fill(2) [unfolded t_def] fill(4,3)] obtain s2 where
      link: "ifaddr_link pc (brk s) result s1 = (Inr (if ps = [] then brk s else result), s2)"
      and inv: "ifa_inv s0 s2 (if ps = [] then brk s else result) (brk s) (ps @ [brk s]) (es @ [e])"
      by blast
    have new: "new_node blank_ifaddrs s = (Inr (brk s), t)" by (simp add: new_node_def t_def)
    have run: "getifaddrs_loop c (i # rest) pc result s =
        getifaddrs_loop c rest (brk s) (if ps = [] then brk s else result) s2"
      by (simp add: inet bindA_def new fill(1) link)
    from Cons.IH [OF _ inv] Cons.prems(1) run Some show ?thesis by (simp add: map_filter_simps)
  qed
qed

section \<open>Properties\<close>

text \<open>
  C5. \<open>getifaddrs\<close> returns the host's error with \<open>*result\<close> untouched, or a list with
  exactly the host's IPv4 and IPv6 interfaces, in its order and with its names, flags,
  addresses and masks; \<open>freeifaddrs\<close> then frees exactly what was allocated.
\<close>

theorem getifaddrs_correct:
  assumes "af_headers_ok (lay c) (hdr c)" and "\<forall>i \<in> set hres. ifa_src_ok c i" and "heap_ok s"
  shows "if ret \<noteq> 0 then getifaddrs c (ret, hres) res s = (Inr (ret, res), s)
    else \<exists>p s' ps s''. getifaddrs c (ret, hres) res s = (Inr (0, p), s') \<and>
      nodes_at ifa_next (nodes s') p ps \<and>
      ifa_denotes s' ps (List.map_filter (ifa_guest_entry c) hres) \<and>
      freeifaddrs p s' = Some (Inr (), s'') \<and> same_blocks s'' s"
proof (cases "ret = 0")
  case True
  have "ifa_inv s s 0 0 [] []" by (simp add: ifa_inv_def list_owned_def ifa_denotes_def)
  from getifaddrs_loop_run [OF assms(1,3,2) this] obtain p s' pc' ps' where
    run: "getifaddrs_loop c hres 0 0 s = (Inr p, s')"
    and inv: "ifa_inv s s' p pc' ps' (List.map_filter (ifa_guest_entry c) hres)" by auto
  from inv have grow: "grown s s' (set ps') (set (owned_of ifa_owned (nodes s') ps'))"
    and list: "list_owned ifa_next ifa_owned s' p ps'"
    and den: "ifa_denotes s' ps' (List.map_filter (ifa_guest_entry c) hres)"
    by (simp_all add: ifa_inv_def)
  from list have "nodes_at ifa_next (nodes s') p ps'" by (simp add: list_owned_def)
  with True run den ifa_list.frees_exactly [OF list] grown_dropped [OF assms(3) grow] show ?thesis
    by (auto simp: getifaddrs_def bindA_def same_blocks_def)
qed (simp add: getifaddrs_def)

definition sample_ifs :: "host_ifaddr list" where
  "sample_ifs = [\<lparr>hif_name = Some [108, 111], hif_flags = 0x49, hif_addr = None, hif_netmask = None\<rparr>,
     \<lparr>hif_name = Some [108, 111], hif_flags = 0x49, hif_addr = Some loopback_80, hif_netmask = Some loopback_80\<rparr>]"

theorem getifaddrs_correct_witness:
  "\<exists>p s' ps s''. getifaddrs sample_net (0, sample_ifs) 7 empty_heap = (Inr (0, p), s') \<and>
     nodes_at ifa_next (nodes s') p ps \<and>
     ifa_denotes s' ps (List.map_filter (ifa_guest_entry sample_net) sample_ifs) \<and>
     freeifaddrs p s' = Some (Inr (), s'') \<and> same_blocks s'' empty_heap"
proof -
  have "\<forall>i \<in> set sample_ifs. ifa_src_ok sample_net i"
    using loopback_80_host_view
    by (simp add: sample_ifs_def ifa_src_ok_def addr_ok_def sample_net_def)
  from getifaddrs_correct [OF sample_ok(1) this empty_heap_ok, of 0 7] show ?thesis by simp
qed

text \<open>
  On a host that numbers the interface flags as the enumeration does, the guest sees the
  host's flags cut down to the ones the headers define.
\<close>

lemma iff_flags_same:
  assumes "\<forall>(m, g) \<in> set IFF. hmask (hdr c) m = g"
  shows "bit (iff_flags c f) n \<longleftrightarrow>
    bit f n \<and> (\<exists>(m, g) \<in> set IFF. defd c m \<and> bit g n)"
proof -
  have one: "f AND g \<noteq> 0 \<longleftrightarrow> bit f n" if "(m, g) \<in> set IFF" "bit g n" for m g n
  proof -
    have "list_all (\<lambda>(m, g). single_bit g) IFF"
      by (simp add: IFF_def single_bit_def upt_rec)
    with that(1) have "single_bit g" by (auto simp: list_all_iff)
    from single_bitD [OF this] obtain i where "\<And>n. bit g n \<longleftrightarrow> n = i" by blast
    with that(2) show ?thesis by (simp add: and_eq_0_iff)
  qed
  have "bit (iff_flags c f) n \<longleftrightarrow> (\<exists>(m, g) \<in> set IFF. defd c m \<and> f AND g \<noteq> 0 \<and> bit g n)"
    using assms by (fastforce simp: iff_flags_def bit_from_host_flags)
  also have "\<dots> \<longleftrightarrow> bit f n \<and> (\<exists>(m, g) \<in> set IFF. defd c m \<and> bit g n)"
    using one by fastforce
  finally show ?thesis .
qed

end
