(* ===== verification/Socket_Calls.thy ===== *)
theory Socket_Calls
  imports Addrinfo
begin

text \<open>
  The socket calls of src/src/network.cpp: each translates its arguments, calls the host and
  translates what comes back. The host's calls are parameters over a host state \<open>'w\<close>.
  \<open>int\<close> results are integers, flag arguments 32-bit words.
\<close>

section \<open>Host calls\<close>

text \<open>
  Beside the state of the host's calls the world keeps the socket option
  \<open>SO_NOSIGPIPE\<close> per descriptor, which the Apple build reads and sets.
\<close>

record 'w world =
  nosigpipe :: "int \<Rightarrow> int"
  hostw :: 'w

definition host_call :: "('w \<Rightarrow> 'a \<times> 'w) \<Rightarrow> ('w world, 'a) act" where
  "host_call f s = (let (r, w) = f (hostw s) in (Inr r, s\<lparr>hostw := w\<rparr>))"

lemma host_call_run [simp]: "bindA (host_call f) k s = k (fst (f (hostw s))) (s\<lparr>hostw := snd (f (hostw s))\<rparr>)"
  by (simp add: bindA_def host_call_def split: prod.split)

lemma host_call_eq [simp]: "host_call f s = (Inr (fst (f (hostw s))), s\<lparr>hostw := snd (f (hostw s))\<rparr>)"
  by (simp add: host_call_def split: prod.split)

section \<open>Creating sockets\<close>

definition socket ::
  "host_net \<Rightarrow> (int \<Rightarrow> int \<Rightarrow> int \<Rightarrow> 'w \<Rightarrow> int \<times> 'w) \<Rightarrow> int \<Rightarrow> int \<Rightarrow> int \<Rightarrow> ('w world, int) act" where
  "socket c host domain type proto =
     bindA (liftA (to_host_socktype (hdr c) type)) (\<lambda>t.
     bindA (liftA (to_host_ipproto (hdr c) proto)) (\<lambda>p.
     host_call (host (to_host_af_family (defd c) (hdr c) domain) t p)))"

text \<open>The host fills the pair of descriptors, which is part of the call's result.\<close>

definition socketpair ::
  "host_net \<Rightarrow> (int \<Rightarrow> int \<Rightarrow> int \<Rightarrow> 'w \<Rightarrow> (int \<times> int list) \<times> 'w) \<Rightarrow> int \<Rightarrow> int \<Rightarrow> int \<Rightarrow>
   ('w world, int \<times> int list) act" where
  "socketpair c host domain type proto =
     bindA (liftA (to_host_socktype (hdr c) type)) (\<lambda>t.
     bindA (liftA (to_host_ipproto (hdr c) proto)) (\<lambda>p.
     host_call (host (to_host_af_family (defd c) (hdr c) domain) t p)))"

section \<open>Calls that pass an address\<close>

definition bind_sock ::
  "host_net \<Rightarrow> (int \<Rightarrow> bytes option \<Rightarrow> nat \<Rightarrow> 'w \<Rightarrow> int \<times> 'w) \<Rightarrow> int \<Rightarrow> bytes option \<Rightarrow> nat \<Rightarrow>
   ('w world, int) act" where
  "bind_sock c host sockfd addr addrlen =
     bindA (liftA (make_sockaddr_in (lay c) (hdr c) addr addrlen)) (\<lambda>haddr.
       host_call (host sockfd (sockaddr_in_ptr haddr) (hlen haddr)))"

definition connect ::
  "host_net \<Rightarrow> (int \<Rightarrow> bytes option \<Rightarrow> nat \<Rightarrow> 'w \<Rightarrow> int \<times> 'w) \<Rightarrow> int \<Rightarrow> bytes option \<Rightarrow> nat \<Rightarrow>
   ('w world, int) act" where
  "connect c host sockfd addr addrlen =
     bindA (liftA (make_sockaddr_in (lay c) (hdr c) addr addrlen)) (\<lambda>haddr.
       host_call (host sockfd (sockaddr_in_ptr haddr) (hlen haddr)))"

text \<open>\<open>host\<close> stands for the lookup with its output buffers; 5 is \<open>EAI_FAMILY\<close>.\<close>

definition getnameinfo ::
  "host_net \<Rightarrow> (bytes option \<Rightarrow> nat \<Rightarrow> u32 \<Rightarrow> 'w \<Rightarrow> int \<times> 'w) \<Rightarrow> bytes option \<Rightarrow> nat \<Rightarrow> u32 \<Rightarrow>
   ('w world, int) act" where
  "getnameinfo c host addr addrlen flags =
     tryA (bindA (liftA (make_sockaddr_in (lay c) (hdr c) addr addrlen)) (\<lambda>haddr.
       host_call (host (sockaddr_in_ptr haddr) (hlen haddr) (to_host_nameinfo_flags (hdr c) flags))))
     (retA 5)"

section \<open>Sending\<close>

text \<open>
  \<open>detail::sock_send_flags\<close>: the constructor yields the host flags and, on Apple, the saved
  option; the destructor restores the option. A constructor that throws leaves no object, so
  its destructor does not run.
\<close>

definition send_flags_ctor :: "os \<Rightarrow> headers \<Rightarrow> int \<Rightarrow> u32 \<Rightarrow> ('w world, u32 \<times> int) act" where
  "send_flags_ctor p h fd gflags =
     bindA (if gflags AND 0x4000 \<noteq> 0
            then if p = Apple
              then bindA (getsA (\<lambda>s. nosigpipe s fd)) (\<lambda>saved.
                   bindA (modifyA (\<lambda>s. s\<lparr>nosigpipe := (nosigpipe s)(fd := 1)\<rparr>)) (\<lambda>_.
                   retA (0, saved, gflags AND NOT 0x4000)))
              else retA (hmask h ''MSG_NOSIGNAL'', 0, gflags AND NOT 0x4000)
            else retA (0, 0, gflags)) (\<lambda>(hflags, saved, flags).
       if flags \<noteq> 0
       then liftA (Inl (Runtime_error ''Unexpected flags in a socket send operation %d'' [sint flags]))
       else retA (hflags, saved))"

definition send_flags_dtor :: "os \<Rightarrow> int \<Rightarrow> u32 \<Rightarrow> int \<Rightarrow> 'w world \<Rightarrow> 'w world" where
  "send_flags_dtor p fd gflags saved s =
     (if p = Apple \<and> gflags AND 0x4000 \<noteq> 0 then s\<lparr>nosigpipe := (nosigpipe s)(fd := saved)\<rparr> else s)"

definition with_send_flags ::
  "os \<Rightarrow> headers \<Rightarrow> int \<Rightarrow> u32 \<Rightarrow> (u32 \<Rightarrow> ('w world, 'a) act) \<Rightarrow> ('w world, 'a) act" where
  "with_send_flags p h fd flags body =
     bindA (send_flags_ctor p h fd flags) (\<lambda>(hflags, saved) s.
       case body hflags s of (r, s') \<Rightarrow> (r, send_flags_dtor p fd flags saved s'))"

definition send ::
  "os \<Rightarrow> headers \<Rightarrow> (int \<Rightarrow> bytes \<Rightarrow> u32 \<Rightarrow> 'w \<Rightarrow> int \<times> 'w) \<Rightarrow> int \<Rightarrow> bytes \<Rightarrow> u32 \<Rightarrow> ('w world, int) act" where
  "send p h host sockfd buf flags =
     with_send_flags p h sockfd flags (\<lambda>hflags. host_call (host sockfd buf hflags))"

definition sendmsg ::
  "os \<Rightarrow> headers \<Rightarrow> (int \<Rightarrow> 'm \<Rightarrow> u32 \<Rightarrow> 'w \<Rightarrow> int \<times> 'w) \<Rightarrow> int \<Rightarrow> 'm \<Rightarrow> u32 \<Rightarrow> ('w world, int) act" where
  "sendmsg p h host sockfd data flags =
     with_send_flags p h sockfd flags (\<lambda>hflags. host_call (host sockfd data hflags))"

definition sendto ::
  "os \<Rightarrow> host_net \<Rightarrow> (int \<Rightarrow> bytes \<Rightarrow> u32 \<Rightarrow> bytes option \<Rightarrow> nat \<Rightarrow> 'w \<Rightarrow> int \<times> 'w) \<Rightarrow>
   int \<Rightarrow> bytes \<Rightarrow> u32 \<Rightarrow> bytes option \<Rightarrow> nat \<Rightarrow> ('w world, int) act" where
  "sendto p c host sockfd buf flags addr addrlen =
     bindA (liftA (make_sockaddr_in (lay c) (hdr c) addr addrlen)) (\<lambda>haddr.
       with_send_flags p (hdr c) sockfd flags (\<lambda>hflags.
         host_call (host sockfd buf hflags (sockaddr_in_ptr haddr) (hlen haddr))))"

text \<open>
  \<open>sendmmsg\<close> sends one message after the other and records each length. A vector shorter
  than \<open>vlen\<close> is read past its end.
\<close>

record 'm mmsghdr =
  msg_hdr :: 'm
  msg_len :: u32

fun sendmmsg_loop ::
  "(int \<Rightarrow> 'm \<Rightarrow> u32 \<Rightarrow> 'w \<Rightarrow> int \<times> 'w) \<Rightarrow> int \<Rightarrow> u32 \<Rightarrow> nat \<Rightarrow> nat \<Rightarrow> 'm mmsghdr list \<Rightarrow>
   ('w world, int \<times> 'm mmsghdr list) act" where
  "sendmmsg_loop host sockfd hflags i 0 msgvec = retA (int i, msgvec)"
| "sendmmsg_loop host sockfd hflags i (Suc n) msgvec =
     (if length msgvec \<le> i then liftA (Inl Memory_fault)
      else bindA (host_call (host sockfd (msg_hdr (msgvec ! i)) hflags)) (\<lambda>ret.
        if ret < 0 then retA (if i = 0 then - 1 else int i, msgvec)
        else sendmmsg_loop host sockfd hflags (Suc i) n
          (msgvec[i := (msgvec ! i)\<lparr>msg_len := word_of_int ret\<rparr>])))"

definition sendmmsg ::
  "os \<Rightarrow> headers \<Rightarrow> (int \<Rightarrow> 'm \<Rightarrow> u32 \<Rightarrow> 'w \<Rightarrow> int \<times> 'w) \<Rightarrow> int \<Rightarrow> 'm mmsghdr list \<Rightarrow> nat \<Rightarrow> u32 \<Rightarrow>
   ('w world, int \<times> 'm mmsghdr list) act" where
  "sendmmsg p h host sockfd msgvec vlen flags =
     with_send_flags p h sockfd flags (\<lambda>hflags. sendmmsg_loop host sockfd hflags 0 vlen msgvec)"

section \<open>Receiving\<close>

definition recv_flags :: "headers \<Rightarrow> u32 \<Rightarrow> u32" where
  "recv_flags h flags =
     translate_flags [(0x4000, hmask h ''MSG_DONTWAIT''), (2, hmask h ''MSG_PEEK'')] flags"

definition recv ::
  "headers \<Rightarrow> (int \<Rightarrow> nat \<Rightarrow> u32 \<Rightarrow> 'w \<Rightarrow> (int \<times> bytes) \<times> 'w) \<Rightarrow> int \<Rightarrow> nat \<Rightarrow> u32 \<Rightarrow>
   ('w world, int \<times> bytes) act" where
  "recv h host sockfd len flags = host_call (host sockfd len (recv_flags h flags))"

text \<open>
  A host call that writes an address into the shim's storage returns the storage beside its
  result. \<open>hand_back\<close> is \<open>haddr.apply(addr, addrlen)\<close> on the guest's two pointers.
\<close>

definition hand_back ::
  "host_net \<Rightarrow> bytes \<Rightarrow> bytes option \<Rightarrow> nat option \<Rightarrow> ('w world, bytes option \<times> nat option) act" where
  "hand_back c storage addr addrlen =
     (case (addr, addrlen) of
        (Some a, Some n) \<Rightarrow>
          bindA (liftA (sockaddr_out_apply (lay c) (hdr c) storage a n)) (\<lambda>(a, n). retA (Some a, Some n))
      | _ \<Rightarrow> liftA (Inl Memory_fault))"

text \<open>\<open>recvfrom\<close> keeps the result in an \<open>int\<close>, which has 32 bits.\<close>

definition recvfrom ::
  "host_net \<Rightarrow> (int \<Rightarrow> nat \<Rightarrow> u32 \<Rightarrow> bytes option \<Rightarrow> 'w \<Rightarrow> (int \<times> bytes \<times> bytes) \<times> 'w) \<Rightarrow>
   int \<Rightarrow> nat \<Rightarrow> u32 \<Rightarrow> bytes option \<Rightarrow> nat option \<Rightarrow>
   ('w world, int \<times> bytes \<times> bytes option \<times> nat option) act" where
  "recvfrom c host sockfd len flags addr addrlen =
     (if flags \<noteq> 0 \<and> flags \<noteq> 0x4000
      then liftA (Inl (Runtime_error ''recvfrom with unsupported flags %d'' [sint flags]))
      else let hflags = (if flags = 0x4000 then hmask (hdr c) ''MSG_NOSIGNAL'' else 0) in
      if addr = None
      then bindA (host_call (host sockfd len hflags None)) (\<lambda>(ret, data, _). retA (ret, data, addr, addrlen))
      else bindA (host_call (host sockfd len hflags (Some sockaddr_out_storage))) (\<lambda>(ret, data, storage).
        let ret = signed_take_bit 31 ret in
        if ret \<ge> 0
        then bindA (hand_back c storage addr addrlen) (\<lambda>(addr, addrlen). retA (ret, data, addr, addrlen))
        else retA (ret, data, addr, addrlen)))"

definition getsockname ::
  "host_net \<Rightarrow> (int \<Rightarrow> bytes \<Rightarrow> 'w \<Rightarrow> (int \<times> bytes) \<times> 'w) \<Rightarrow> int \<Rightarrow> bytes option \<Rightarrow> nat option \<Rightarrow>
   ('w world, int \<times> bytes option \<times> nat option) act" where
  "getsockname c host sockfd addr addrlen =
     bindA (host_call (host sockfd sockaddr_out_storage)) (\<lambda>(ret, storage).
       if ret = 0
       then bindA (hand_back c storage addr addrlen) (\<lambda>(addr, addrlen). retA (ret, addr, addrlen))
       else retA (ret, addr, addrlen))"

definition getpeername ::
  "host_net \<Rightarrow> (int \<Rightarrow> bytes \<Rightarrow> 'w \<Rightarrow> (int \<times> bytes) \<times> 'w) \<Rightarrow> int \<Rightarrow> bytes option \<Rightarrow> nat option \<Rightarrow>
   ('w world, int \<times> bytes option \<times> nat option) act" where
  "getpeername c host sockfd addr addrlen =
     bindA (host_call (host sockfd sockaddr_out_storage)) (\<lambda>(ret, storage).
       if ret = 0
       then bindA (hand_back c storage addr addrlen) (\<lambda>(addr, addrlen). retA (ret, addr, addrlen))
       else retA (ret, addr, addrlen))"

definition accept ::
  "host_net \<Rightarrow> (int \<Rightarrow> bytes \<Rightarrow> 'w \<Rightarrow> (int \<times> bytes) \<times> 'w) \<Rightarrow> int \<Rightarrow> bytes option \<Rightarrow> nat option \<Rightarrow>
   ('w world, int \<times> bytes option \<times> nat option) act" where
  "accept c host sockfd addr addrlen =
     bindA (host_call (host sockfd sockaddr_out_storage)) (\<lambda>(ret, storage).
       if ret \<ge> 0 \<and> addrlen \<noteq> None
       then bindA (hand_back c storage addr addrlen) (\<lambda>(addr, addrlen). retA (ret, addr, addrlen))
       else retA (ret, addr, addrlen))"

text \<open>\<open>accept4\<close> does not look at its flags.\<close>

definition accept4 ::
  "host_net \<Rightarrow> (int \<Rightarrow> bytes \<Rightarrow> 'w \<Rightarrow> (int \<times> bytes) \<times> 'w) \<Rightarrow> int \<Rightarrow> bytes option \<Rightarrow> nat option \<Rightarrow> u32 \<Rightarrow>
   ('w world, int \<times> bytes option \<times> nat option) act" where
  "accept4 c host sockfd addr addrlen flag =
     bindA (host_call (host sockfd sockaddr_out_storage)) (\<lambda>(ret, storage).
       if ret \<ge> 0 \<and> addrlen \<noteq> None
       then bindA (hand_back c storage addr addrlen) (\<lambda>(addr, addrlen). retA (ret, addr, addrlen))
       else retA (ret, addr, addrlen))"

section \<open>Receiving messages\<close>

text \<open>
  The parts of a \<open>msghdr\<close> the code touches. \<open>msg_name\<close> is a pointer: null, the guest's
  buffer \<open>name_buf\<close>, or the shim's storage on the stack.
\<close>

datatype name_ref = Name_null | Name_guest | Name_stack

record rmsg =
  msg_name :: name_ref
  name_buf :: bytes
  msg_namelen :: nat
  msg_controllen :: nat
  msg_flags :: u32

text \<open>What the host's \<open>recvmsg\<close> returns: its result, storage, name length and flags.\<close>

record recv_result =
  rr_ret :: int
  rr_storage :: bytes
  rr_namelen :: nat
  rr_flags :: u32

definition recvmsg ::
  "host_net \<Rightarrow> (int \<Rightarrow> rmsg \<Rightarrow> u32 \<Rightarrow> 'w \<Rightarrow> recv_result \<times> 'w) \<Rightarrow> int \<Rightarrow> rmsg \<Rightarrow> u32 \<Rightarrow>
   ('w world, int \<times> rmsg) act" where
  "recvmsg c host sockfd data flags =
     (if flags \<noteq> 0 then liftA (Inl (Runtime_error ''recvmsg with unsupported flags %d'' [sint flags]))
      else let name = msg_name data;
        d = (if name \<noteq> Name_null then data\<lparr>msg_name := Name_stack, msg_namelen := storage_size\<rparr> else data) in
      bindA (host_call (host sockfd d flags)) (\<lambda>r.
        let d = d\<lparr>msg_namelen := rr_namelen r, msg_flags := rr_flags r\<rparr> in
        bindA (if rr_ret r > 0 \<and> name \<noteq> Name_null
               then bindA (liftA (sockaddr_out_apply (lay c) (hdr c) (rr_storage r) (name_buf d) (msg_namelen d)))
                 (\<lambda>(a, n). retA (d\<lparr>name_buf := a, msg_namelen := n\<rparr>))
               else retA d) (\<lambda>d. retA (rr_ret r, d\<lparr>msg_controllen := 0\<rparr>))))"

text \<open>
  The host's clock in nanoseconds, \<open>poll\<close> on one descriptor and \<open>recvmsg\<close>, which
  \<open>recvmmsg\<close> uses; \<open>timeout\<close> is given in nanoseconds.
\<close>

record 'w mmsg_host =
  now :: "'w \<Rightarrow> int \<times> 'w"
  poll_in :: "int \<Rightarrow> int \<Rightarrow> 'w \<Rightarrow> int \<times> 'w"
  recvmsg1 :: "int \<Rightarrow> rmsg \<Rightarrow> u32 \<Rightarrow> 'w \<Rightarrow> recv_result \<times> 'w"

text \<open>Waiting before every message but the first: \<open>None\<close> to go on, or the value to return.\<close>

definition recvmmsg_wait ::
  "headers \<Rightarrow> 'w mmsg_host \<Rightarrow> int \<Rightarrow> u32 \<Rightarrow> int option \<Rightarrow> nat \<Rightarrow> ('w world, int option) act" where
  "recvmmsg_wait h host sockfd nflags deadline i =
     (case deadline of
        Some d \<Rightarrow>
          if i > 0 \<and> nflags AND hmask h ''MSG_DONTWAIT'' = 0
          then bindA (host_call (now host)) (\<lambda>t.
            if t \<ge> d then retA (Some (int i))
            else bindA (host_call (poll_in host sockfd (sint (word_of_int ((d - t) div 1000000) :: u32)))) (\<lambda>p.
              if p < 0 then retA (Some (if i = 0 then - 1 else int i))
              else if p = 0 then retA (Some (int i))
              else retA None))
          else retA None
      | None \<Rightarrow> retA None)"

definition recvmmsg_one ::
  "host_net \<Rightarrow> 'w mmsg_host \<Rightarrow> int \<Rightarrow> u32 \<Rightarrow> rmsg mmsghdr \<Rightarrow> ('w world, rmsg mmsghdr option) act" where
  "recvmmsg_one c host sockfd nflags m =
     (let name = msg_name (msg_hdr m);
        hm = (if name \<noteq> Name_null then (msg_hdr m)\<lparr>msg_name := Name_stack, msg_namelen := storage_size\<rparr>
              else msg_hdr m) in
      bindA (host_call (recvmsg1 host sockfd hm nflags)) (\<lambda>r.
        if rr_ret r < 0 then retA None
        else bindA (if name \<noteq> Name_null
            then liftA (sockaddr_out_apply (lay c) (hdr c) (rr_storage r) (name_buf (msg_hdr m))
              (msg_namelen (msg_hdr m)))
            else retA (name_buf (msg_hdr m), msg_namelen (msg_hdr m))) (\<lambda>(a, n).
          retA (Some \<lparr>msg_hdr = (msg_hdr m)\<lparr>name_buf := a, msg_namelen := n, msg_flags := rr_flags r,
            msg_controllen := 0\<rparr>, msg_len = word_of_int (rr_ret r)\<rparr>))))"

fun recvmmsg_loop ::
  "host_net \<Rightarrow> 'w mmsg_host \<Rightarrow> int \<Rightarrow> u32 \<Rightarrow> int option \<Rightarrow> nat \<Rightarrow> nat \<Rightarrow> rmsg mmsghdr list \<Rightarrow>
   ('w world, int \<times> rmsg mmsghdr list) act" where
  "recvmmsg_loop c host sockfd nflags deadline i 0 msgvec = retA (int i, msgvec)"
| "recvmmsg_loop c host sockfd nflags deadline i (Suc n) msgvec =
     bindA (recvmmsg_wait (hdr c) host sockfd nflags deadline i) (\<lambda>stop.
       case stop of Some r \<Rightarrow> retA (r, msgvec)
       | None \<Rightarrow>
           if length msgvec \<le> i then liftA (Inl Memory_fault)
           else bindA (recvmmsg_one c host sockfd nflags (msgvec ! i)) (\<lambda>m.
             case m of None \<Rightarrow> retA (if i = 0 then - 1 else int i, msgvec)
             | Some m \<Rightarrow> recvmmsg_loop c host sockfd nflags deadline (Suc i) n (msgvec[i := m])))"

definition recvmmsg ::
  "host_net \<Rightarrow> 'w mmsg_host \<Rightarrow> int \<Rightarrow> rmsg mmsghdr list \<Rightarrow> nat \<Rightarrow> u32 \<Rightarrow> int option \<Rightarrow>
   ('w world, int \<times> rmsg mmsghdr list) act" where
  "recvmmsg c host sockfd msgvec vlen flags timeout =
     (if flags AND NOT (0x4000 OR 2) \<noteq> 0
      then liftA (Inl (Runtime_error ''recvmmsg with unsupported flags %d'' [sint flags]))
      else bindA (case timeout of None \<Rightarrow> retA None
          | Some t \<Rightarrow> bindA (host_call (now host)) (\<lambda>n. retA (Some (n + t)))) (\<lambda>deadline.
        recvmmsg_loop c host sockfd (recv_flags (hdr c) flags) deadline 0 vlen msgvec))"

section \<open>Options and the rest\<close>

definition getsockopt ::
  "host_net \<Rightarrow> (int \<Rightarrow> int \<Rightarrow> int \<Rightarrow> 'w \<Rightarrow> 'r \<times> 'w) \<Rightarrow> int \<Rightarrow> int \<Rightarrow> int \<Rightarrow> ('w world, 'r) act" where
  "getsockopt c host sockfd level optname =
     bindA (liftA (to_host_sockopt_level (hdr c) level)) (\<lambda>l.
     bindA (liftA (to_host_sockopt (defd c) (hdr c) level optname)) (\<lambda>opt. host_call (host sockfd l opt)))"

definition setsockopt ::
  "host_net \<Rightarrow> (int \<Rightarrow> int \<Rightarrow> int \<Rightarrow> bytes \<Rightarrow> 'w \<Rightarrow> int \<times> 'w) \<Rightarrow> int \<Rightarrow> int \<Rightarrow> int \<Rightarrow> bytes \<Rightarrow>
   ('w world, int) act" where
  "setsockopt c host sockfd level optname optval =
     bindA (liftA (to_host_sockopt_level (hdr c) level)) (\<lambda>l.
     bindA (liftA (to_host_sockopt (defd c) (hdr c) level optname)) (\<lambda>opt.
     host_call (host sockfd l opt optval)))"

definition shutdown :: "headers \<Rightarrow> (int \<Rightarrow> int \<Rightarrow> 'w \<Rightarrow> int \<times> 'w) \<Rightarrow> int \<Rightarrow> int \<Rightarrow> ('w world, int) act" where
  "shutdown h host sockfd how =
     bindA (liftA (or_throw (guest_case h [(0, ''SHUT_RD''), (1, ''SHUT_WR''), (2, ''SHUT_RDWR'')] how)
       ''Unexpected how parameter passed to shutdown %d'' [how])) (\<lambda>hhow. host_call (host sockfd hhow))"

definition inet_pton :: "host_net \<Rightarrow> (int \<Rightarrow> string \<Rightarrow> 'w \<Rightarrow> 'r \<times> 'w) \<Rightarrow> int \<Rightarrow> string \<Rightarrow> ('w world, 'r) act" where
  "inet_pton c host af src = host_call (host (to_host_af_family (defd c) (hdr c) af) src)"

definition inet_ntop ::
  "host_net \<Rightarrow> (int \<Rightarrow> bytes \<Rightarrow> nat \<Rightarrow> 'w \<Rightarrow> 'r \<times> 'w) \<Rightarrow> int \<Rightarrow> bytes \<Rightarrow> nat \<Rightarrow> ('w world, 'r) act" where
  "inet_ntop c host af src n = host_call (host (to_host_af_family (defd c) (hdr c) af) src n)"

section \<open>Properties\<close>

lemma and_not_single_bit:
  fixes f g :: u32
  assumes "single_bit g"
  shows "f AND NOT g = 0 \<longleftrightarrow> f = 0 \<or> f = g"
proof -
  from single_bitD [OF assms] obtain i where i: "\<And>n. bit g n \<longleftrightarrow> n = i" by blast
  have "f AND NOT g = 0 \<longleftrightarrow> (\<forall>n. bit f n \<longrightarrow> n = i)"
  proof -
    have "bit f n \<Longrightarrow> n < 32" for n using bit_imp_le_length [of f n] by simp
    moreover have "bit (NOT g) n \<longleftrightarrow> n < 32 \<and> n \<noteq> i" for n by (simp add: bit_not_iff i)
    ultimately show ?thesis unfolding and_eq_0_iff by blast
  qed
  also have "\<dots> \<longleftrightarrow> f = 0 \<or> f = g"
  proof
    assume only: "\<forall>n. bit f n \<longrightarrow> n = i"
    show "f = 0 \<or> f = g"
    proof (cases "bit f i")
      case True
      with only have "f = g" by (intro bit_word_eqI) (metis i)
      then show ?thesis ..
    next
      case False
      with only have "f = 0" by (intro bit_word_eqI) (metis bit_0_eq bot2E bot_fun_def)
      then show ?thesis ..
    qed
  qed (auto simp: i)
  finally show ?thesis .
qed

text \<open>
  A send with no flags, or with bionic's \<open>MSG_NOSIGNAL\<close> alone, makes exactly one host
  call, with the host's flag where there is one; where there is none the socket option that
  stands in for it is back to its old value afterwards. Any other flags are refused before
  the host is called.
\<close>

theorem send_flags_contract:
  "send p h host fd buf flags s =
    (if flags = 0 \<or> flags = 0x4000
     then let hflags = (if flags = 0x4000 \<and> p \<noteq> Apple then hmask h ''MSG_NOSIGNAL'' else 0) in
       (Inr (fst (host fd buf hflags (hostw s))), s\<lparr>hostw := snd (host fd buf hflags (hostw s))\<rparr>)
     else (Inl (Runtime_error ''Unexpected flags in a socket send operation %d''
         [sint (if flags AND 0x4000 \<noteq> 0 then flags AND NOT 0x4000 else flags)]),
       if p = Apple \<and> flags AND 0x4000 \<noteq> 0 then s\<lparr>nosigpipe := (nosigpipe s)(fd := 1)\<rparr> else s))"
proof -
  have only: "flags AND NOT 0x4000 = 0 \<longleftrightarrow> flags = 0 \<or> flags = 0x4000"
    by (rule and_not_single_bit) (simp add: single_bit_def upt_rec)
  consider "flags = 0" | "flags = 0x4000" | "flags \<noteq> 0" "flags \<noteq> 0x4000" by blast
  then show ?thesis
    by cases (simp_all add: send_def with_send_flags_def send_flags_ctor_def send_flags_dtor_def bindA_def
        only [simplified] Let_def)
qed

text \<open>
  The reference for \<open>sendmmsg\<close>: the lengths the host reports, message by message, up to the
  first failure, and the host's state after that.
\<close>

fun send_each :: "('m \<Rightarrow> 'w \<Rightarrow> int \<times> 'w) \<Rightarrow> 'm list \<Rightarrow> 'w \<Rightarrow> int list \<times> 'w" where
  "send_each host [] w = ([], w)"
| "send_each host (m # ms) w =
     (let (r, w) = host m w in
      if r < 0 then ([], w) else let (rs, w) = send_each host ms w in (r # rs, w))"

definition put_len :: "int \<Rightarrow> 'm mmsghdr \<Rightarrow> 'm mmsghdr" where
  "put_len r m = m\<lparr>msg_len := word_of_int r\<rparr>"

lemma send_each_length: "length (fst (send_each host ms w)) \<le> length ms"
proof (induction ms arbitrary: w)
  case (Cons m ms)
  from Cons [of "snd (host m w)"] show ?case by (simp add: Let_def case_prod_beta)
qed simp

lemma sendmmsg_loop_eq:
  "send_each (\<lambda>m. host fd m hflags) (map msg_hdr rest) (hostw s) = (rs, w) \<Longrightarrow>
   sendmmsg_loop host fd hflags (length done) (length rest) (done @ rest @ tail) s =
     (Inr (if done = [] \<and> rs = [] \<and> rest \<noteq> [] then - 1 else int (length done + length rs),
       done @ map2 put_len rs (take (length rs) rest) @ drop (length rs) rest @ tail), s\<lparr>hostw := w\<rparr>)"
proof (induction rest arbitrary: "done" s rs w)
  case (Cons m rest)
  obtain r w1 where r: "host fd (msg_hdr m) hflags (hostw s) = (r, w1)" by fastforce
  show ?case
  proof (cases "r < 0")
    case True
    with Cons.prems r show ?thesis by (auto simp: Let_def nth_append)
  next
    case False
    obtain rs' w' where rs': "send_each (\<lambda>m. host fd m hflags) (map msg_hdr rest) w1 = (rs', w')" by fastforce
    with Cons.prems r False have eq: "rs = r # rs'" "w = w'" by (auto simp: Let_def)
    from Cons.IH [of "s\<lparr>hostw := w1\<rparr>" rs' w' "done @ [put_len r m]"] rs'
    have "sendmmsg_loop host fd hflags (Suc (length done)) (length rest) ((done @ [put_len r m]) @ rest @ tail)
        (s\<lparr>hostw := w1\<rparr>) =
      (Inr (int (Suc (length done) + length rs'),
        (done @ [put_len r m]) @ map2 put_len rs' (take (length rs') rest) @ drop (length rs') rest @ tail),
        s\<lparr>hostw := w'\<rparr>)" by simp
    with r False eq show ?thesis by (simp add: put_len_def)
  qed
qed simp



text \<open>
  \<open>bind\<close>, \<open>connect\<close> and \<open>sendto\<close> call the host once, with a host address that says
  what the guest's says and the host's length for its family, and return what the host does.
\<close>

theorem address_reaches_host:
  assumes "sa_layout_ok (lay c)" and "af_headers_ok (lay c) (hdr c)" and "guest_view a = Inr v"
    and "v \<noteq> V_unspec" and "view_end (lay c) v \<le> storage_size" and "0 < view_size (lay c) v"
  shows "\<exists>m. host_view (lay c) (hdr c) m = Inr v \<and>
    bind_sock c host fd (Some a) n s =
      (let (r, w) = host fd (Some m) (view_size (lay c) v) (hostw s) in (Inr r, s\<lparr>hostw := w\<rparr>)) \<and>
    connect c host fd (Some a) n s =
      (let (r, w) = host fd (Some m) (view_size (lay c) v) (hostw s) in (Inr r, s\<lparr>hostw := w\<rparr>)) \<and>
    sendto p c hsend fd buf 0 (Some a) n s =
      (let (r, w) = hsend fd buf 0 (Some m) (view_size (lay c) v) (hostw s) in (Inr r, s\<lparr>hostw := w\<rparr>))"
proof -
  from make_sockaddr_in_view [OF assms(1-5), of n] obtain m where
    "make_sockaddr_in (lay c) (hdr c) (Some a) n = Inr \<lparr>haddr = m, hlen = view_size (lay c) v\<rparr>"
    "host_view (lay c) (hdr c) m = Inr v" by blast
  with assms(6) show ?thesis
    by (auto simp: bind_sock_def connect_def sendto_def sockaddr_in_ptr_def with_send_flags_def
        send_flags_ctor_def send_flags_dtor_def bindA_def case_prod_beta Let_def intro!: exI [of _ m])
qed

theorem address_reaches_host_witness:
  "\<exists>m. host_view bionic_layout linux_net_headers m = Inr (V_inet [0, 80] [127, 0, 0, 1]) \<and>
     connect sample_net (\<lambda>fd a n w. (int n, a # w)) 3 (Some loopback_80) 16 \<lparr>nosigpipe = (\<lambda>_. 0), hostw = []\<rparr> =
       (Inr 16, \<lparr>nosigpipe = (\<lambda>_. 0), hostw = [Some m]\<rparr>)"
  using address_reaches_host [of sample_net loopback_80 _ "\<lambda>fd a n w. (int n, a # w)" 3 16
      "\<lparr>nosigpipe = (\<lambda>_. 0), hostw = []\<rparr>" Linux "\<lambda>fd b fl a n w. (0, w)" "[]"]
    bionic.sa_layout_ok_axioms linux_af_headers loopback_80_view
  by (auto simp: sample_net_def bionic_layout_def storage_size_def)

text \<open>
  C31. When the host accepts a connection (or names a socket), the guest gets the descriptor
  and, in a buffer that is large enough, the peer's address as the host knows it with the
  length of bionic's structure; without a length pointer only the descriptor.
\<close>

theorem accept_reports_peer:
  assumes "af_headers_ok (lay c) (hdr c)" and "host fd sockaddr_out_storage (hostw s) = ((ret, m), w)"
    and "0 \<le> ret" and "host_view (lay c) (hdr c) m = Inr v" and "v \<noteq> V_unspec"
    and "view_size bionic_layout v \<le> n" and "n \<le> length a"
  shows "(\<exists>a'. accept c host fd (Some a) (Some n) s =
        (Inr (ret, Some a', Some (view_size bionic_layout v)), s\<lparr>hostw := w\<rparr>) \<and> guest_view a' = Inr v) \<and>
    accept c host fd (Some a) None s = (Inr (ret, Some a, None), s\<lparr>hostw := w\<rparr>) \<and>
    accept4 c host fd (Some a) (Some n) flags s = accept c host fd (Some a) (Some n) s"
proof -
  from assms(6,7) have "view_size bionic_layout v \<le> length a" by linarith
  from apply_fits [OF assms(1,4,5,6) this] assms(2,3) show ?thesis
    by (auto simp: accept_def accept4_def hand_back_def bindA_def)
qed

theorem accept_reports_peer_witness:
  "\<exists>a'. accept sample_net (\<lambda>fd st w. ((4, loopback_80), w)) 3 (Some (replicate 28 0)) (Some 28)
       \<lparr>nosigpipe = (\<lambda>_. 0), hostw = ()\<rparr> =
     (Inr (4, Some a', Some 16), \<lparr>nosigpipe = (\<lambda>_. 0), hostw = ()\<rparr>) \<and>
     guest_view a' = Inr (V_inet [0, 80] [127, 0, 0, 1])"
  using accept_reports_peer [of sample_net "\<lambda>fd st w. ((4, loopback_80), w)" 3
      "\<lparr>nosigpipe = (\<lambda>_. 0), hostw = ()\<rparr>" 4 loopback_80 "()" "V_inet [0, 80] [127, 0, 0, 1]" 28
      "replicate 28 0"]
    linux_af_headers loopback_80_host_view
  by (simp add: sample_net_def bionic_sizes)

section \<open>Receiving several messages\<close>

lemma recvmmsg_wait_value:
  "recvmmsg_wait h host fd nf d i s = (Inr (Some r), s') \<Longrightarrow> r = int i \<or> (i = 0 \<and> r = - 1)"
  by (auto simp: recvmmsg_wait_def split: option.splits if_splits)

lemma recvmmsg_one_done:
  "recvmmsg_one c host fd nf m s = (Inr (Some m'), s') \<Longrightarrow>
   msg_controllen (msg_hdr m') = 0 \<and> msg_name (msg_hdr m') = msg_name (msg_hdr m)"
  by (auto simp: recvmmsg_one_def Let_def bindA_def split: if_splits sum.splits prod.splits)

definition received :: "nat \<Rightarrow> rmsg mmsghdr list \<Rightarrow> rmsg mmsghdr list \<Rightarrow> bool" where
  "received k old new \<longleftrightarrow>
     length new = length old \<and>
     (\<forall>j < k. msg_controllen (msg_hdr (new ! j)) = 0 \<and>
       msg_name (msg_hdr (new ! j)) = msg_name (msg_hdr (old ! j))) \<and>
     (\<forall>j. k \<le> j \<longrightarrow> j < length old \<longrightarrow> new ! j = old ! j)"

lemma received_step:
  assumes "received i old vec" and "i < length vec" and "msg_controllen (msg_hdr m) = 0"
    and "msg_name (msg_hdr m) = msg_name (msg_hdr (vec ! i))"
  shows "received (Suc i) old (vec[i := m])"
  using assms unfolding received_def by (auto simp: nth_list_update less_Suc_eq)

lemma recvmmsg_loop_received:
  "recvmmsg_loop c host fd nf d i n vec s = (Inr (r, vec'), s') \<Longrightarrow> received i old vec \<Longrightarrow>
   (r = - 1 \<and> i = 0 \<or> int i \<le> r) \<and> r \<le> int (i + n) \<and> received (nat r) old vec'"
proof (induction n arbitrary: i vec s)
  case 0
  then show ?case by auto
next
  case (Suc n)
  from Suc.prems(1) obtain stop s1 where wait:
    "recvmmsg_wait (hdr c) host fd nf d i s = (Inr stop, s1)"
    by (auto simp: bindA_def split: prod.splits sum.splits)
  show ?case
  proof (cases stop)
    case (Some r')
    with wait have "r' = int i \<or> (i = 0 \<and> r' = - 1)" using recvmmsg_wait_value by blast
    with Suc.prems wait Some show ?thesis by (auto simp: bindA_def)
  next
    case None
    with Suc.prems(1) wait obtain m s2 where i: "i < length vec"
      and one: "recvmmsg_one c host fd nf (vec ! i) s1 = (Inr m, s2)"
      by (auto simp: bindA_def split: prod.splits sum.splits if_splits)
    show ?thesis
    proof (cases m)
      case None
      with Suc.prems \<open>stop = None\<close> wait i one show ?thesis by (auto simp: bindA_def split: if_splits)
    next
      case (Some m')
      from one Some have "recvmmsg_one c host fd nf (vec ! i) s1 = (Inr (Some m'), s2)" by simp
      note m' = recvmmsg_one_done [OF this]
      from Suc.prems(1) \<open>stop = None\<close> wait i one Some
      have run: "recvmmsg_loop c host fd nf d (Suc i) n (vec[i := m']) s2 = (Inr (r, vec'), s')"
        by (auto simp: bindA_def)
      from Suc.IH [OF run received_step [OF Suc.prems(2) i]] m' show ?thesis by auto
    qed
  qed
qed



lemma int_result: "0 \<le> r \<Longrightarrow> r < 2 ^ 31 \<Longrightarrow> signed_take_bit 31 r = (r :: int)"
  by (simp add: signed_take_bit_int_eq_self)

text \<open>
  A host that receives 2 GiB at once is reported to have failed, and the address is not handed
  back.
\<close>

lemma recvfrom_long_fails:
  "recvfrom c (\<lambda>fd len fl st w. ((2 ^ 31, data, storage), w)) fd len 0 (Some a) (Some n) s =
    (Inr (- (2 ^ 31), data, Some a, Some n), s)"
  by (simp add: recvfrom_def bindA_def host_call_def)

text \<open>
  \<open>recvmsg\<close>, unlike the other calls, compares the size of the bionic address with the length
  the host reported, not with the guest's: a name buffer that is too small is overrun.
\<close>

lemma recvmsg_name_overflow:
  "fst (recvmsg sample_net
      (\<lambda>fd m fl w. (\<lparr>rr_ret = 1, rr_storage = loopback_80, rr_namelen = 16, rr_flags = 0\<rparr>, w)) 3
      \<lparr>msg_name = Name_guest, name_buf = replicate 4 0, msg_namelen = 4, msg_controllen = 0, msg_flags = 0\<rparr> 0
      \<lparr>nosigpipe = (\<lambda>_. 0), hostw = ()\<rparr>) = Inl Memory_fault"
proof -
  have "sockaddr_out_apply bionic_layout linux_net_headers loopback_80 (replicate 4 0) 16 = Inl Memory_fault"
    by (simp add: sockaddr_out_apply_def bionic_len_view [OF linux_af_headers loopback_80_host_view]
        bionic_sizes from_host_stores [OF linux_af_headers loopback_80_host_view] store_view_simps store_le_def
        wr_def bionic_sizes)
  then show ?thesis by (simp add: recvmsg_def sample_net_def Let_def bindA_def)
qed

text \<open>
  Nor does it put the guest's name pointer back: the message header it returns points to the
  storage that \<open>haddr\<close> had on the shim's stack, also when the host call failed.
\<close>

lemma recvmsg_name_dangles:
  assumes "recvmsg c host sockfd d flags s = (Inr (ret, d'), s')" and "msg_name d \<noteq> Name_null"
  shows "msg_name d' = Name_stack"
  using assms
  by (auto simp: recvmsg_def Let_def bindA_def host_call_def split: if_splits prod.splits sum.splits)

text \<open>
  A name buffer that is too small makes \<open>accept\<close> throw behind the host call, which has
  already returned a socket nobody closes.
\<close>

lemma accept_small_buffer_loses_socket:
  "fst (accept sample_net (\<lambda>fd st w. ((7, loopback_80), w)) 3 (Some (replicate 4 0)) (Some 4)
      \<lparr>nosigpipe = (\<lambda>_. 0), hostw = ()\<rparr>) = Inl (Runtime_error ''buffer for sockaddr not big enough'' [])"
proof -
  have "sockaddr_out_apply bionic_layout linux_net_headers loopback_80 (replicate 4 0) 4 =
      Inl (Runtime_error ''buffer for sockaddr not big enough'' [])"
    by (simp add: sockaddr_out_apply_def bionic_len_view [OF linux_af_headers loopback_80_host_view] bionic_sizes)
  then show ?thesis by (simp add: accept_def hand_back_def sample_net_def bindA_def)
qed

end
