(* ===== verification/Socket_Flow.thy ===== *)
theory Socket_Flow
  imports Socket_Calls
begin

text \<open>
  Addresses on their way through several calls of src/src/network.cpp: one the host hands out
  is converted for the guest, lies in the guest's memory and is converted back by a later
  call.
\<close>

text \<open>
  A host whose structures fit its own storage, as every supported system's do.
\<close>

definition usable_net :: "host_net \<Rightarrow> bool" where
  "usable_net c \<longleftrightarrow> sa_layout_ok (lay c) \<and> af_headers_ok (lay c) (hdr c) \<and>
     (\<forall>v. view_end (lay c) v \<le> storage_size) \<and> (\<forall>v. v \<noteq> V_unspec \<longrightarrow> 0 < view_size (lay c) v)"

text \<open>The host calls a guest makes with an address that says \<open>v\<close>.\<close>

lemma guest_address:
  assumes "usable_net c" and "guest_view b = Inr v" and "v \<noteq> V_unspec"
  shows "\<exists>m. make_sockaddr_in (lay c) (hdr c) (Some b) n = Inr \<lparr>haddr = m, hlen = view_size (lay c) v\<rparr> \<and>
    host_view (lay c) (hdr c) m = Inr v \<and> 0 < view_size (lay c) v"
  using make_sockaddr_in_view [of "lay c" "hdr c" b v n] assms by (simp add: usable_net_def)

lemma connect_view:
  assumes "usable_net c" and "guest_view b = Inr v" and "v \<noteq> V_unspec"
  shows "\<exists>m. host_view (lay c) (hdr c) m = Inr v \<and>
    connect c host fd (Some b) n s =
      (let (r, w) = host fd (Some m) (view_size (lay c) v) (hostw s) in (Inr r, s\<lparr>hostw := w\<rparr>))"
  using guest_address [OF assms, of n]
  by (auto simp: connect_def sockaddr_in_ptr_def bindA_def case_prod_beta Let_def)

lemma sendto_view:
  assumes "usable_net c" and "guest_view b = Inr v" and "v \<noteq> V_unspec"
  shows "\<exists>m. host_view (lay c) (hdr c) m = Inr v \<and>
    sendto p c host fd buf 0 (Some b) n s =
      (let (r, w) = host fd buf 0 (Some m) (view_size (lay c) v) (hostw s) in (Inr r, s\<lparr>hostw := w\<rparr>))"
  using guest_address [OF assms, of n]
  by (auto simp: sendto_def sockaddr_in_ptr_def with_send_flags_def send_flags_ctor_def
      send_flags_dtor_def bindA_def case_prod_beta Let_def)

text \<open>An entry of the guest's list for every entry of the host's that it can hold.\<close>

lemma denotes_member:
  assumes "denotes s ps (List.map_filter f is)" and "i \<in> set is" and "f i = Some e"
  shows "\<exists>p \<in> set ps. \<exists>n. nodes s p = Some n \<and> describes (bufs s) n e"
proof -
  from assms(2,3) have "e \<in> set (List.map_filter f is)" by (force simp: List.map_filter_def)
  then obtain k where k: "k < length (List.map_filter f is)" "List.map_filter f is ! k = e"
    by (auto simp: in_set_conv_nth)
  from assms(1) have "length ps = length (List.map_filter f is)"
    unfolding denotes_def by (rule list_all2_lengthD)
  with k list_all2_nthD2 [OF assms(1) [unfolded denotes_def], of k] show ?thesis
    by (intro bexI [of _ "ps ! k"]) simp_all
qed

section \<open>Properties\<close>

text \<open>
  C15. A reply reaches the sender: an address \<open>recvfrom\<close> gives the guest, passed on to
  \<open>sendto\<close> as it is, is for the host the address the datagram came from, whatever the
  host's structures look like, if the length of the datagram is an \<open>int\<close>.
\<close>

theorem reply_reaches_sender:
  assumes "usable_net c"
    and "hrecv fd len 0 (Some sockaddr_out_storage) (hostw s) = ((ret, data, m), w)" and "0 \<le> ret" and "ret < 2 ^ 31"
    and "host_view (lay c) (hdr c) m = Inr v" and "v \<noteq> V_unspec"
    and "view_size bionic_layout v \<le> n" and "n \<le> length a"
  shows "\<exists>a' k m'. recvfrom c hrecv fd len 0 (Some a) (Some n) s =
      (Inr (ret, data, Some a', Some k), s\<lparr>hostw := w\<rparr>) \<and>
    host_view (lay c) (hdr c) m' = Inr v \<and>
    sendto p c hsend fd buf 0 (Some a') k (s\<lparr>hostw := w\<rparr>) =
      (let (r, w') = hsend fd buf 0 (Some m') (view_size (lay c) v) w in (Inr r, s\<lparr>hostw := w'\<rparr>))"
proof -
  from assms(1) have "af_headers_ok (lay c) (hdr c)" by (simp add: usable_net_def)
  moreover from assms(7,8) have "view_size bionic_layout v \<le> length a" by linarith
  ultimately obtain a' where
    "sockaddr_out_apply (lay c) (hdr c) m a n = Inr (a', view_size bionic_layout v)" "guest_view a' = Inr v"
    using apply_fits [OF _ assms(5-7), of a] by blast
  moreover from sendto_view [OF assms(1) this(2) assms(6), of p hsend fd buf
      "view_size bionic_layout v" "s\<lparr>hostw := w\<rparr>"]
  obtain m' where "host_view (lay c) (hdr c) m' = Inr v"
    "sendto p c hsend fd buf 0 (Some a') (view_size bionic_layout v) (s\<lparr>hostw := w\<rparr>) =
      (let (r, w') = hsend fd buf 0 (Some m') (view_size (lay c) v) w in (Inr r, s\<lparr>hostw := w'\<rparr>))"
    by auto
  moreover have "recvfrom c hrecv fd len 0 (Some a) (Some n) s =
      (Inr (ret, data, Some a', Some (view_size bionic_layout v)), s\<lparr>hostw := w\<rparr>)"
    using assms(2-4) calculation(1) by (simp add: recvfrom_def hand_back_def bindA_def int_result [OF assms(3,4)]
      del: signed_take_bit_nonnegative_iff)
  ultimately show ?thesis by blast
qed

lemma sample_usable: "usable_net sample_net"
proof -
  have "view_end bionic_layout v \<le> storage_size" "v \<noteq> V_unspec \<Longrightarrow> 0 < view_size bionic_layout v" for v
    by (cases v; simp add: bionic_layout_def storage_size_def)+
  then show ?thesis
    using bionic.sa_layout_ok_axioms linux_af_headers by (simp add: usable_net_def sample_net_def)
qed

theorem reply_reaches_sender_witness:
  "\<exists>a' k m'. recvfrom sample_net (\<lambda>fd len fl st w. ((3, [1, 2, 3], loopback_80), w)) 5 9 0
       (Some (replicate 28 0)) (Some 28) \<lparr>nosigpipe = (\<lambda>_. 0), hostw = [] :: bytes option list\<rparr> =
     (Inr (3, [1, 2, 3], Some a', Some k), \<lparr>nosigpipe = (\<lambda>_. 0), hostw = [] :: bytes option list\<rparr>) \<and>
     host_view bionic_layout linux_net_headers m' = Inr (V_inet [0, 80] [127, 0, 0, 1]) \<and>
     sendto Linux sample_net (\<lambda>fd buf fl a n w. (int n, a # w)) 5 [7] 0 (Some a') k
       \<lparr>nosigpipe = (\<lambda>_. 0), hostw = [] :: bytes option list\<rparr> = (Inr 16, \<lparr>nosigpipe = (\<lambda>_. 0), hostw = [Some m']\<rparr>)"
  using reply_reaches_sender [OF sample_usable, of "\<lambda>fd len fl st w. ((3, [1, 2, 3], loopback_80), w)" 5 9
      "\<lparr>nosigpipe = (\<lambda>_. 0), hostw = [] :: bytes option list\<rparr>" 3 "[1, 2, 3]" loopback_80 "[]" "V_inet [0, 80] [127, 0, 0, 1]" 28
      "replicate 28 0" Linux "\<lambda>fd buf fl a n w. (int n, a # w)" "[7]"] loopback_80_host_view
  by (simp add: sample_net_def bionic_sizes)

text \<open>
  C7. What the host resolves a name to is what the guest connects to: for every address in
  the host's answer that the guest's structures can hold, the list \<open>getaddrinfo\<close> returns has
  an entry whose address and length, given to \<open>connect\<close>, make the host connect to that
  address.
\<close>

theorem resolved_address_connects:
  assumes "usable_net c" and "heap_ok s" and "\<forall>i \<in> set hints. hint_ok c i"
    and "to_host_alloc c hints s = (Inr p, m)" and "host m p = (0, hres)" and "\<forall>i \<in> set hres. src_ok c i"
    and "i \<in> set hres" and "src_addr i = Some a" and "guest_entry c i \<noteq> None"
  shows "\<exists>v q s' ps. host_view (lay c) (hdr c) a = Inr v \<and>
    getaddrinfo c host hints res s = Some (Inr (0, q), s') \<and> nodes_at ai_next (nodes s') q ps \<and>
    (\<exists>pn \<in> set ps. \<exists>n b hm. nodes s' pn = Some n \<and> bufs s' (ai_addr n) = Some b \<and>
      host_view (lay c) (hdr c) hm = Inr v \<and>
      connect c hconnect fd (Some b) (ai_addrlen n) t =
        (let (r, w) = hconnect fd (Some hm) (view_size (lay c) v) (hostw t) in (Inr r, t\<lparr>hostw := w\<rparr>)))"
proof -
  from assms(9) obtain e where e: "guest_entry c i = Some e" by blast
  with assms(8) obtain v where v: "host_view (lay c) (hdr c) a = Inr v" "v \<noteq> V_unspec" "e_addr e = Some v"
    by (auto simp: guest_entry_def split: sum.splits if_splits)
  from assms(1) have "af_headers_ok (lay c) (hdr c)" by (simp add: usable_net_def)
  from getaddrinfo_found [where host = host and res = res, OF this assms(2-6)] obtain q ps s' where
    run: "getaddrinfo c host hints res s = Some (Inr (0, q), s')" "nodes_at ai_next (nodes s') q ps"
    "denotes s' ps (List.map_filter (guest_entry c) hres)" by blast
  from denotes_member [OF run(3) assms(7) e] v(3) obtain pn n b where
    n: "pn \<in> set ps" "nodes s' pn = Some n" "bufs s' (ai_addr n) = Some b" "guest_view b = Inr v"
    by (auto simp: describes_def)
  from connect_view [OF assms(1) n(4) v(2)] n(1-3) v(1) run(1,2) show ?thesis by blast
qed

theorem resolved_address_connects_witness:
  "\<exists>q s' pn n b hm. getaddrinfo sample_net (\<lambda>m p. (0, sample_results)) sample_hints 0 empty_heap =
       Some (Inr (0, q), s') \<and>
     nodes s' pn = Some n \<and> bufs s' (ai_addr n) = Some b \<and>
     host_view bionic_layout linux_net_headers hm = Inr (V_inet [0, 80] [127, 0, 0, 1]) \<and>
     connect sample_net (\<lambda>fd a n w. (int n, a # w)) 3 (Some b) (ai_addrlen n) \<lparr>nosigpipe = (\<lambda>_. 0), hostw = []\<rparr> =
       (Inr 16, \<lparr>nosigpipe = (\<lambda>_. 0), hostw = [Some hm]\<rparr>)"
proof -
  define i where "i = sample_results ! 1"
  have i: "i \<in> set sample_results" "src_addr i = Some loopback_80"
    by (simp_all add: i_def sample_results_def)
  have "guest_entry sample_net i = map (guest_entry sample_net) sample_results ! 1"
    by (simp add: i_def sample_results_def)
  then have e: "guest_entry sample_net i \<noteq> None" by (simp add: sample_entries)
  obtain p m where "to_host_alloc sample_net sample_hints empty_heap = (Inr p, m)"
    using hints_freed [OF empty_heap_ok sample_ok(3)] by blast
  from resolved_address_connects [where host = "\<lambda>m p. (0, sample_results)" and
      hconnect = "\<lambda>fd a n w. (int n, a # w)" and fd = 3 and res = 0 and
      t = "\<lparr>nosigpipe = (\<lambda>_. 0), hostw = []\<rparr>", OF sample_usable empty_heap_ok sample_ok(3) this refl
      sample_ok(2) i e]
  show ?thesis
    by (clarsimp simp: sample_net_def loopback_80_host_view bionic_sizes) blast
qed

end
