(* ===== verification/Lazy_Init.thy ===== *)
theory Lazy_Init
  imports Prelude
begin

text \<open>
  Synchronisation objects that come into being on first use (src/src/pthreads.h and the three
  \<open>*_static_initializer\<close> functions of src/src/pthreads.cpp). bionic's mutexes, condition
  variables and read-write locks may be statically initialised; the shim stores a pointer to
  a host object in them the first time any thread needs it, racing threads included. The code
  of one thread is cut at its accesses to shared memory; the steps of all threads interleave.
\<close>

section \<open>Where the pointer is kept\<close>

text \<open>
  With 64-bit pointers the payload word is the first aligned word behind the four bytes of
  the static initialiser; with 32-bit pointers it is the object's only word.
\<close>

definition get_payload_pointer :: "bool \<Rightarrow> u64 \<Rightarrow> u64" where
  "get_payload_pointer lp64 p =
     (if lp64 then let header_size = 4; pointer_alignment = 8;
          max_header_size = header_size + pointer_alignment - 1
        in (p + max_header_size) AND (- pointer_alignment)
      else p)"

definition sizeof_mutex :: u64 where "sizeof_mutex = 40"
definition sizeof_cond :: u64 where "sizeof_cond = 48"
definition sizeof_rwlock :: u64 where "sizeof_rwlock = 56"

definition is_mutex_initialized :: "bool \<Rightarrow> u64 \<Rightarrow> bool" where
  "is_mutex_initialized lp64 v \<longleftrightarrow> (if lp64 then v \<noteq> 0 else v AND NOT 0xC000 \<noteq> 0)"

definition is_cond_initialized :: "u64 \<Rightarrow> bool" where
  "is_cond_initialized v \<longleftrightarrow> v \<noteq> 0"

definition is_rwlock_initialized :: "u64 \<Rightarrow> bool" where
  "is_rwlock_initialized v \<longleftrightarrow> v \<noteq> 0"

section \<open>One thread's code\<close>

text \<open>
  What differs between the three kinds of objects: the test for an initialised word, what
  the host object is initialised as, given the static initialiser, and the messages.
\<close>

datatype host_kind = Mutex_normal | Mutex_recursive | Mutex_errorcheck | Cond_default | Rwlock_default

record lazy_code =
  lp64 :: bool
  initialized :: "u64 \<Rightarrow> bool"
  flavour :: "u64 \<Rightarrow> host_kind"
  unaligned_msg :: string
  init_msg :: string
  other_msg :: string

text \<open>\<open>alignof\<close> of the pointer types.\<close>

definition ptr_align :: "lazy_code \<Rightarrow> u64" where
  "ptr_align C = (if lp64 C then 8 else 4)"

definition mutex_code :: "bool \<Rightarrow> lazy_code" where
  "mutex_code p = \<lparr>lp64 = p, initialized = is_mutex_initialized p,
     flavour = (\<lambda>v. if v = 0x4000 then Mutex_recursive else if v = 0x8000 then Mutex_errorcheck
       else Mutex_normal),
     unaligned_msg = ''unaligned mutex'', init_msg = ''Failed to init mutex'',
     other_msg = ''Failed to init mutex by other thread''\<rparr>"

definition cond_code :: "bool \<Rightarrow> lazy_code" where
  "cond_code p = \<lparr>lp64 = p, initialized = is_cond_initialized, flavour = (\<lambda>_. Cond_default),
     unaligned_msg = ''unaligned cond'', init_msg = ''Failed to init cond'',
     other_msg = ''Failed to init cond by other thread''\<rparr>"

definition rwlock_code :: "bool \<Rightarrow> lazy_code" where
  "rwlock_code p = \<lparr>lp64 = p, initialized = is_rwlock_initialized, flavour = (\<lambda>_. Rwlock_default),
     unaligned_msg = ''unaligned rwlock'', init_msg = ''Failed to init rwlock'',
     other_msg = ''Failed to init rwlock by other thread''\<rparr>"

text \<open>
  Where a thread is in \<open>to_host\<close>: before the first load; after it, with the loaded payload;
  inside the initialiser, with the static value it was called with; holding a host object it
  created; finished with the object to use; failed, holding the object whose host
  initialisation failed, or with a message.
\<close>

datatype lazy_pc =
    Start
  | Loaded u64
  | Called u64 u64
  | Created u64 u64
  | Done u64
  | Init_failed u64
  | Failed string

text \<open>
  The shared memory: the payload word, its address, the word the static initialiser is in
  (with 32-bit pointers that is the payload word), the host objects, and the threads.
\<close>

record lazy_state =
  cell :: u64
  cell_addr :: u64
  word0 :: u64
  objs :: "u64 \<Rightarrow> host_kind option"
  pcs :: "nat \<Rightarrow> lazy_pc"

definition static_value :: "lazy_code \<Rightarrow> lazy_state \<Rightarrow> u64" where
  "static_value C s = (if lp64 C then word0 s else cell s)"

abbreviation go :: "nat \<Rightarrow> lazy_pc \<Rightarrow> lazy_state \<Rightarrow> lazy_state" where
  "go t pc s \<equiv> s\<lparr>pcs := (pcs s)(t := pc)\<rparr>"

text \<open>
  \<open>malloc\<close> returns an address that is not in use; no supported system hands out addresses in
  its first 64 KiB.
\<close>

definition may_return :: "lazy_state \<Rightarrow> u64 \<Rightarrow> bool" where
  "may_return s q \<longleftrightarrow> objs s q = None \<and> 0x10000 \<le> q"

definition create_with :: "lazy_code \<Rightarrow> u64 \<Rightarrow> u64 \<Rightarrow> lazy_state \<Rightarrow> lazy_state" where
  "create_with C iv q s = s\<lparr>objs := (objs s)(q \<mapsto> flavour C iv)\<rparr>"

text \<open>\<open>atomic_compare_exchange_strong\<close> and what the initialiser does after it.\<close>

definition publish :: "lazy_code \<Rightarrow> nat \<Rightarrow> u64 \<Rightarrow> u64 \<Rightarrow> lazy_state \<Rightarrow> lazy_state" where
  "publish C t q payload s =
     (if cell s = payload then go t (Done q) (s\<lparr>cell := q\<rparr>)
      else go t (if initialized C (cell s) then Done (cell s) else Failed (other_msg C))
        (s\<lparr>objs := (objs s)(q := None)\<rparr>))"

inductive lazy_step :: "lazy_code \<Rightarrow> lazy_state \<Rightarrow> lazy_state \<Rightarrow> bool" for C where
  load_hit: "pcs s t = Start \<Longrightarrow> initialized C (cell s) \<Longrightarrow> lazy_step C s (go t (Done (cell s)) s)"
| load_miss: "pcs s t = Start \<Longrightarrow> \<not> initialized C (cell s) \<Longrightarrow> lazy_step C s (go t (Loaded (cell s)) s)"
| call: "pcs s t = Loaded p \<Longrightarrow> lazy_step C s (go t (Called (static_value C s) p) s)"
| unaligned: "pcs s t = Called iv p \<Longrightarrow> cell_addr s mod ptr_align C \<noteq> 0 \<Longrightarrow>
    lazy_step C s (go t (Failed (unaligned_msg C)) s)"
| create: "pcs s t = Called iv p \<Longrightarrow> cell_addr s mod ptr_align C = 0 \<Longrightarrow> may_return s q \<Longrightarrow>
    lazy_step C s (go t (Created q p) (create_with C iv q s))"
| create_fails: "pcs s t = Called iv p \<Longrightarrow> cell_addr s mod ptr_align C = 0 \<Longrightarrow> may_return s q \<Longrightarrow>
    lazy_step C s (go t (Init_failed q) (create_with C iv q s))"
| cas: "pcs s t = Created q p \<Longrightarrow> lazy_step C s (publish C t q p s)"

text \<open>The start: the object holds its static initialiser, no thread has begun.\<close>

definition lazy_start :: "lazy_code \<Rightarrow> lazy_state \<Rightarrow> bool" where
  "lazy_start C s \<longleftrightarrow>
     \<not> initialized C (cell s) \<and> (lp64 C \<longrightarrow> cell s = 0) \<and> objs s = (\<lambda>_. None) \<and> (\<forall>t. pcs s t = Start)"

inductive lazy_reach :: "lazy_code \<Rightarrow> lazy_state \<Rightarrow> lazy_state \<Rightarrow> bool" for C s0 where
  here: "lazy_reach C s0 s0"
| step: "lazy_reach C s0 s \<Longrightarrow> lazy_step C s s' \<Longrightarrow> lazy_reach C s0 s'"

section \<open>Interface: an object initialised once\<close>

text \<open>
  What the three kinds of objects rely on: an address from \<open>malloc\<close> is never taken for an
  uninitialised word.
\<close>

definition step_inv :: "lazy_code \<Rightarrow> u64 \<Rightarrow> host_kind \<Rightarrow> lazy_state \<Rightarrow> nat \<Rightarrow> bool" where
  "step_inv C c0 k s t =
     (case pcs s t of
        Start \<Rightarrow> True
      | Loaded p \<Rightarrow> p = c0
      | Called iv p \<Rightarrow> p = c0 \<and> (cell s = c0 \<longrightarrow> flavour C iv = k)
      | Created q p \<Rightarrow> p = c0 \<and> 0x10000 \<le> q \<and> q \<noteq> cell s \<and> objs s q \<noteq> None \<and> (cell s = c0 \<longrightarrow> objs s q = Some k)
      | Done q \<Rightarrow> q = cell s \<and> initialized C (cell s)
      | Init_failed q \<Rightarrow> 0x10000 \<le> q \<and> q \<noteq> cell s \<and> objs s q \<noteq> None
      | Failed msg \<Rightarrow> msg = unaligned_msg C \<and> cell_addr s mod ptr_align C \<noteq> 0)"

definition owns :: "lazy_pc \<Rightarrow> u64 option" where
  "owns pc = (case pc of Created q p \<Rightarrow> Some q | Init_failed q \<Rightarrow> Some q | _ \<Rightarrow> None)"

definition lazy_inv :: "lazy_code \<Rightarrow> lazy_state \<Rightarrow> lazy_state \<Rightarrow> bool" where
  "lazy_inv C s0 s \<longleftrightarrow>
     cell_addr s = cell_addr s0 \<and> word0 s = word0 s0 \<and>
     (cell s = cell s0 \<or> (0x10000 \<le> cell s \<and> objs s (cell s) = Some (flavour C (static_value C s0)))) \<and>
     (\<forall>t. step_inv C (cell s0) (flavour C (static_value C s0)) s t) \<and>
     (\<forall>q. objs s q \<noteq> None \<longrightarrow> q = cell s \<and> cell s \<noteq> cell s0 \<or> (\<exists>t. owns (pcs s t) = Some q)) \<and>
     (\<forall>t t' q. owns (pcs s t) = Some q \<longrightarrow> owns (pcs s t') = Some q \<longrightarrow> t = t')"

locale lazy_object =
  fixes C :: lazy_code
  assumes pointers_initialized: "0x10000 \<le> q \<Longrightarrow> initialized C q"
begin

lemma inv_start: "lazy_start C s0 \<Longrightarrow> lazy_inv C s0 s0"
  by (auto simp: lazy_start_def lazy_inv_def step_inv_def owns_def)

text \<open>Once set, the word stays set; so a set word differs from the static initialiser.\<close>

lemma cell_set:
  assumes "lazy_start C s0" and "lazy_inv C s0 s"
  shows "initialized C (cell s) \<longleftrightarrow> cell s \<noteq> cell s0"
  using assms pointers_initialized unfolding lazy_start_def lazy_inv_def by metis

lemma step_inv_other:
  "u \<noteq> t \<Longrightarrow> step_inv C c0 k (go t pc s) u = step_inv C c0 k s u"
  by (cases "pcs s u") (simp_all add: step_inv_def)

text \<open>A step that only moves one thread, which owns no object before or after.\<close>

lemma inv_go:
  assumes "lazy_inv C s0 s" and "owns (pcs s t) = None" and "owns pc = None"
    and "step_inv C (cell s0) (flavour C (static_value C s0)) (go t pc s) t"
  shows "lazy_inv C s0 (go t pc s)"
proof -
  let ?k = "flavour C (static_value C s0)"
  from assms(1) have inv: "cell_addr s = cell_addr s0" "word0 s = word0 s0"
    "cell s = cell s0 \<or> (0x10000 \<le> cell s \<and> objs s (cell s) = Some ?k)"
    "\<And>t. step_inv C (cell s0) ?k s t"
    "\<And>q. objs s q \<noteq> None \<Longrightarrow> q = cell s \<and> cell s \<noteq> cell s0 \<or> (\<exists>t. owns (pcs s t) = Some q)"
    "\<And>t t' q. owns (pcs s t) = Some q \<Longrightarrow> owns (pcs s t') = Some q \<Longrightarrow> t = t'"
    unfolding lazy_inv_def by blast+
  have "step_inv C (cell s0) ?k (go t pc s) u" for u
    using assms(4) inv(4) [of u] step_inv_other [of u t] by (cases "u = t") simp_all
  moreover have own: "owns (pcs (go t pc s) u) = Some q \<longleftrightarrow> owns (pcs s u) = Some q" for u q
    using assms(2,3) by simp
  ultimately show ?thesis
    unfolding lazy_inv_def own using inv(1-3,5,6) by auto
qed

lemma inv_create:
  assumes "lazy_start C s0" and "lazy_inv C s0 s" and "pcs s t = Called iv p" and "may_return s q"
    and "pc = Created q p \<or> pc = Init_failed q"
  shows "lazy_inv C s0 (go t pc (create_with C iv q s))"
proof -
  let ?k = "flavour C (static_value C s0)" and ?s' = "go t pc (create_with C iv q s)"
  from assms(2) have inv: "cell_addr s = cell_addr s0" "word0 s = word0 s0"
    "cell s = cell s0 \<or> (0x10000 \<le> cell s \<and> objs s (cell s) = Some ?k)"
    "\<And>t. step_inv C (cell s0) ?k s t"
    "\<And>q. objs s q \<noteq> None \<Longrightarrow> q = cell s \<and> cell s \<noteq> cell s0 \<or> (\<exists>t. owns (pcs s t) = Some q)"
    "\<And>t t' q. owns (pcs s t) = Some q \<Longrightarrow> owns (pcs s t') = Some q \<Longrightarrow> t = t'"
    unfolding lazy_inv_def by blast+
  from assms(4) have q: "objs s q = None" "0x10000 \<le> q" by (simp_all add: may_return_def)
  have qc: "q \<noteq> cell s"
    using q inv(3) pointers_initialized [OF q(2)] assms(1) by (auto simp: lazy_start_def)
  have live: "objs s r \<noteq> None" if "owns (pcs s u) = Some r" for u r
    using inv(4) [of u] that by (auto simp: step_inv_def owns_def split: lazy_pc.splits)
  have none: "owns (pcs s t) = None" using assms(3) by (simp add: owns_def)
  have new: "owns pc = Some q" using assms(5) by (auto simp: owns_def)
  have "step_inv C (cell s0) ?k ?s' u" for u
  proof (cases "u = t")
    case True
    with assms(3,5) inv(4) [of t] q qc show ?thesis by (auto simp: step_inv_def create_with_def)
  next
    case False
    then show ?thesis
      using inv(4) [of u] q(1) by (auto simp: step_inv_def create_with_def split: lazy_pc.splits)
  qed
  moreover have "u = u'" if "owns (pcs ?s' u) = Some r" "owns (pcs ?s' u') = Some r" for u u' r
  proof -
    have fresh: "owns (pcs s v) \<noteq> Some q" for v using live [of v q] q(1) by blast
    show ?thesis
      by (cases "u = t"; cases "u' = t") (use that inv(6) new fresh in \<open>auto simp: create_with_def\<close>)
  qed
  moreover have "r = cell ?s' \<and> cell ?s' \<noteq> cell s0 \<or> (\<exists>u. owns (pcs ?s' u) = Some r)"
    if "objs ?s' r \<noteq> None" for r
  proof (cases "r = q")
    case False
    with that have "objs s r \<noteq> None" by (simp add: create_with_def)
    then consider "r = cell s \<and> cell s \<noteq> cell s0" | v where "owns (pcs s v) = Some r"
      using inv(5) by blast
    then show ?thesis
    proof cases
      case (2 v)
      with none have "v \<noteq> t" by auto
      with 2 have "owns (pcs ?s' v) = Some r" by (simp add: create_with_def)
      then show ?thesis by blast
    qed (simp add: create_with_def)
  qed (use new in auto)
  moreover have "cell ?s' = cell s" "cell_addr ?s' = cell_addr s" "word0 ?s' = word0 s"
    "objs ?s' (cell s) = objs s (cell s)" using qc by (simp_all add: create_with_def)
  ultimately show ?thesis
    unfolding lazy_inv_def using inv(1-3) by metis
qed

lemma inv_cas:
  assumes "lazy_start C s0" and "lazy_inv C s0 s" and "pcs s t = Created q p"
  shows "lazy_inv C s0 (publish C t q p s)"
proof -
  let ?k = "flavour C (static_value C s0)" and ?s' = "publish C t q p s"
  from assms(2) have inv: "cell_addr s = cell_addr s0" "word0 s = word0 s0"
    "cell s = cell s0 \<or> (0x10000 \<le> cell s \<and> objs s (cell s) = Some ?k)"
    "\<And>t. step_inv C (cell s0) ?k s t"
    "\<And>q. objs s q \<noteq> None \<Longrightarrow> q = cell s \<and> cell s \<noteq> cell s0 \<or> (\<exists>t. owns (pcs s t) = Some q)"
    "\<And>t t' q. owns (pcs s t) = Some q \<Longrightarrow> owns (pcs s t') = Some q \<Longrightarrow> t = t'"
    unfolding lazy_inv_def by blast+
  from inv(4) [of t] assms(3) have t: "p = cell s0" "0x10000 \<le> q" "q \<noteq> cell s" "objs s q \<noteq> None"
    "cell s = cell s0 \<longrightarrow> objs s q = Some ?k" by (simp_all add: step_inv_def)
  have mine: "owns (pcs s t) = Some q" using assms(3) by (simp add: owns_def)
  have other: "owns (pcs s u) \<noteq> Some q" if "u \<noteq> t" for u using inv(6) mine that by blast
  note set = cell_set [OF assms(1,2)]
  have q0: "q \<noteq> cell s0" using pointers_initialized [OF t(2)] assms(1) by (auto simp: lazy_start_def)
  show ?thesis
  proof (cases "cell s = p")
    case True
    then have s': "?s' = go t (Done q) (s\<lparr>cell := q\<rparr>)" by (simp add: publish_def)
    have "step_inv C (cell s0) ?k ?s' u" for u
    proof (cases "u = t")
      case True
      then show ?thesis using pointers_initialized [OF t(2)] by (simp add: step_inv_def s')
    next
      case False
      have "\<not> initialized C (cell s0)" using assms(1) by (simp add: lazy_start_def)
      with inv(4) [of u] other [OF False] q0 t(1) True False show ?thesis
        unfolding s' by (cases "pcs s u") (simp_all add: step_inv_def owns_def)
    qed
    moreover have own: "owns (pcs ?s' u) = Some r \<longleftrightarrow> u \<noteq> t \<and> owns (pcs s u) = Some r" for u r
      by (simp add: s') (simp add: owns_def)
    moreover have "r = q \<or> (\<exists>u. u \<noteq> t \<and> owns (pcs s u) = Some r)" if "objs s r \<noteq> None" for r
      using inv(5) [OF that] mine True t(1) by (metis option.inject)
    moreover have "cell ?s' = q" "cell_addr ?s' = cell_addr s" "word0 ?s' = word0 s" "objs ?s' = objs s"
      by (simp_all add: s')
    ultimately show ?thesis
      unfolding lazy_inv_def own using inv(1,2,6) t(1,2,5) True q0 by metis
  next
    case False
    with t(1) set have init: "initialized C (cell s)" by simp
    with False have s': "?s' = go t (Done (cell s)) (s\<lparr>objs := (objs s)(q := None)\<rparr>)"
      by (simp add: publish_def)
    have "step_inv C (cell s0) ?k ?s' u" for u
    proof (cases "u = t")
      case True
      then show ?thesis using init by (simp add: step_inv_def s')
    next
      case False
      with inv(4) [of u] other [OF False] show ?thesis
        unfolding s' by (cases "pcs s u") (simp_all add: step_inv_def owns_def)
    qed
    moreover have own: "owns (pcs ?s' u) = Some r \<longleftrightarrow> u \<noteq> t \<and> owns (pcs s u) = Some r" for u r
      by (simp add: s') (simp add: owns_def)
    moreover have "r = cell s \<and> cell s \<noteq> cell s0 \<or> (\<exists>u. u \<noteq> t \<and> owns (pcs s u) = Some r)"
      if "objs ?s' r \<noteq> None" for r
    proof -
      from that have r: "r \<noteq> q" "objs s r \<noteq> None" by (auto simp: s' split: if_splits)
      from inv(5) [OF r(2)] r(1) mine show ?thesis by (metis option.inject)
    qed
    moreover have "cell ?s' = cell s" "cell_addr ?s' = cell_addr s" "word0 ?s' = word0 s"
      "objs ?s' (cell s) = objs s (cell s)" using t(3) by (simp_all add: s')
    ultimately show ?thesis
      unfolding lazy_inv_def own using inv(1-3,6) by metis
  qed
qed

lemma inv_step:
  assumes "lazy_step C s s'" and start: "lazy_start C s0" and inv: "lazy_inv C s0 s"
  shows "lazy_inv C s0 s'"
  using assms(1)
proof cases
  case (load_hit t)
  then show ?thesis using inv by (simp, intro inv_go) (simp_all add: owns_def step_inv_def)
next
  case (load_miss t)
  then show ?thesis using inv cell_set [OF start inv]
    by (simp, intro inv_go) (simp_all add: owns_def step_inv_def)
next
  case (call t p)
  from inv have "step_inv C (cell s0) (flavour C (static_value C s0)) s t" "word0 s = word0 s0"
    by (simp_all add: lazy_inv_def)
  with call inv show ?thesis
    by (simp, intro inv_go) (simp_all add: owns_def step_inv_def static_value_def)
next
  case (unaligned t iv p)
  then show ?thesis using inv by (simp, intro inv_go) (simp_all add: owns_def step_inv_def)
next
  case (create t iv p q)
  then show ?thesis using inv_create [OF start inv] by simp
next
  case (create_fails t iv p q)
  then show ?thesis using inv_create [OF start inv] by simp
next
  case (cas t q p)
  then show ?thesis using inv_cas [OF start inv] by simp
qed

lemma inv_reach: "lazy_reach C s0 s \<Longrightarrow> lazy_start C s0 \<Longrightarrow> lazy_inv C s0 s"
  by (induction rule: lazy_reach.induct) (auto intro: inv_start inv_step)

text \<open>Threads that finish agree on one object, properly initialised and live.\<close>

lemma agree:
  assumes "lazy_reach C s0 s" and "lazy_start C s0" and "pcs s t = Done q"
  shows "q = cell s \<and> 0x10000 \<le> q \<and> objs s q = Some (flavour C (static_value C s0))"
proof -
  note inv = inv_reach [OF assms(1,2)]
  then have "step_inv C (cell s0) (flavour C (static_value C s0)) s t" by (simp add: lazy_inv_def)
  with assms(3) have q: "q = cell s" "initialized C (cell s)" by (simp_all add: step_inv_def)
  with cell_set [OF assms(2) inv] inv show ?thesis by (simp add: lazy_inv_def)
qed

text \<open>No thread ever reports that another one failed; the message needs a misaligned word.\<close>

lemma failures:
  assumes "lazy_reach C s0 s" and "lazy_start C s0" and "pcs s t = Failed msg"
  shows "msg = unaligned_msg C \<and> cell_addr s0 mod ptr_align C \<noteq> 0"
proof -
  note inv = inv_reach [OF assms(1,2)]
  then have "step_inv C (cell s0) (flavour C (static_value C s0)) s t" "cell_addr s = cell_addr s0"
    by (simp_all add: lazy_inv_def)
  with assms(3) show ?thesis by (simp add: step_inv_def)
qed

text \<open>When every thread has finished or not begun, one host object is left, none leaked.\<close>

lemma no_leak:
  assumes "lazy_reach C s0 s" and "lazy_start C s0" and "\<forall>t. pcs s t = Start \<or> (\<exists>q. pcs s t = Done q)"
  shows "dom (objs s) = (if cell s = cell s0 then {} else {cell s})"
proof -
  from inv_reach [OF assms(1,2)] have inv:
    "cell s = cell s0 \<or> objs s (cell s) \<noteq> None"
    "\<And>q. objs s q \<noteq> None \<Longrightarrow> q = cell s \<and> cell s \<noteq> cell s0 \<or> (\<exists>t. owns (pcs s t) = Some q)"
    unfolding lazy_inv_def by fastforce+
  have none: "owns (pcs s t) = None" for t
  proof -
    from assms(3) have "pcs s t = Start \<or> (\<exists>q. pcs s t = Done q)" by blast
    then show ?thesis by (auto simp: owns_def)
  qed
  have only: "q \<in> dom (objs s) \<Longrightarrow> q = cell s \<and> cell s \<noteq> cell s0" for q
    using inv(2) [of q] none by (simp add: domIff)
  show ?thesis
  proof (cases "cell s = cell s0")
    case True
    with only have "dom (objs s) = {}" by blast
    with True show ?thesis by simp
  next
    case False
    with inv(1) have "cell s \<in> dom (objs s)" by (simp add: domIff)
    with only have "dom (objs s) = {cell s}" by blast
    with False show ?thesis by simp
  qed
qed

end

lemma mask_mutex_pointer:
  fixes q :: u64
  assumes "0x10000 \<le> q"
  shows "q AND NOT 0xC000 \<noteq> 0"
proof
  assume zero: "q AND NOT 0xC000 = 0"
  have "q AND 0xC000 = q"
  proof (rule bit_word_eqI)
    fix n :: nat
    assume "n < LENGTH(64)"
    moreover have "\<not> bit (q AND NOT 0xC000) n" unfolding zero by simp
    ultimately show "bit (q AND 0xC000) n = bit q n" unfolding bit_and_iff bit_not_iff by auto
  qed
  then have "q \<le> 0xC000" by (metis word_and_le1)
  with assms show False by (simp add: word_le_nat_alt)
qed

interpretation mutex: lazy_object "mutex_code p" for p
  by unfold_locales (auto simp: mutex_code_def is_mutex_initialized_def
      dest: mask_mutex_pointer [simplified])

interpretation cond: lazy_object "cond_code p" for p
  by unfold_locales (auto simp: cond_code_def is_cond_initialized_def)

interpretation rwlock: lazy_object "rwlock_code p" for p
  by unfold_locales (auto simp: rwlock_code_def is_rwlock_initialized_def)

text \<open>The objects of the shim, which the properties are about.\<close>

definition shim_codes :: "lazy_code set" where
  "shim_codes = range mutex_code \<union> range cond_code \<union> range rwlock_code"

lemma shim_object: "C \<in> shim_codes \<Longrightarrow> lazy_object C"
  unfolding shim_codes_def
  using mutex.lazy_object_axioms cond.lazy_object_axioms rwlock.lazy_object_axioms by auto

section \<open>Properties\<close>

text \<open>
  However the threads that use a statically initialised mutex, condition variable or
  read-write lock for the first time interleave, all of them work on the same host object; it
  is alive and of the kind the static initialiser asks for.
\<close>

theorem lazy_init_agreement:
  assumes "C \<in> shim_codes" and "lazy_start C s0" and "lazy_reach C s0 s"
    and "pcs s t = Done q" and "pcs s t' = Done q'"
  shows "q = q' \<and> q = cell s \<and> objs s q = Some (flavour C (static_value C s0))"
  using lazy_object.agree [OF shim_object [OF assms(1)] assms(3,2)] assms(4,5) by blast

text \<open>A recursive mutex used by two threads at once, on a system with 32-bit pointers.\<close>

definition two_threads :: "u64 \<Rightarrow> (u64 \<Rightarrow> host_kind option) \<Rightarrow> lazy_pc \<Rightarrow> lazy_pc \<Rightarrow> lazy_state" where
  "two_threads c m p q = \<lparr>cell = c, cell_addr = 0x20000, word0 = 0, objs = m,
     pcs = (\<lambda>_. Start)(1 := p, 2 := q)\<rparr>"

lemma two_threads_simps:
  "cell (two_threads c m p q) = c" "cell_addr (two_threads c m p q) = 0x20000"
  "objs (two_threads c m p q) = m" "pcs (two_threads c m p q) 1 = p" "pcs (two_threads c m p q) 2 = q"
  "pcs (two_threads c m p q) (Suc 0) = p"
  "go (Suc 0) x (two_threads c m p q) = two_threads c m x q" "go 2 x (two_threads c m p q) = two_threads c m p x"
  "(two_threads c m p q)\<lparr>cell := d\<rparr> = two_threads d m p q"
  "(two_threads c m p q)\<lparr>objs := m'\<rparr> = two_threads c m' p q"
  by (simp_all add: two_threads_def fun_eq_iff)

lemmas race_simps = two_threads_simps mutex_code_def is_mutex_initialized_def static_value_def
  may_return_def create_with_def publish_def ptr_align_def

definition race0 :: lazy_state where
  "race0 = two_threads 0x4000 (\<lambda>_. None) Start Start"

definition race_end :: lazy_state where
  "race_end = two_threads 0x10000 [0x10000 \<mapsto> Mutex_recursive] (Done 0x10000) (Done 0x10000)"

lemma race_start: "lazy_start (mutex_code False) race0"
  by (auto simp: lazy_start_def race0_def two_threads_def mutex_code_def is_mutex_initialized_def)

lemma race_reach: "lazy_reach (mutex_code False) race0 race_end"
proof -
  let ?C = "mutex_code False" and ?r = "Mutex_recursive"
  let ?q = "0x10000 :: u64" and ?q' = "0x20010 :: u64"
  have s: "lazy_step ?C (two_threads 0x4000 m Start x) (two_threads 0x4000 m (Loaded 0x4000) x)"
    "lazy_step ?C (two_threads 0x4000 m x Start) (two_threads 0x4000 m x (Loaded 0x4000))"
    "lazy_step ?C (two_threads 0x4000 m (Loaded 0x4000) x) (two_threads 0x4000 m (Called 0x4000 0x4000) x)"
    "lazy_step ?C (two_threads 0x4000 m x (Loaded 0x4000)) (two_threads 0x4000 m x (Called 0x4000 0x4000))"
    for m x
    using lazy_step.load_miss [of "two_threads 0x4000 m Start x" 1 ?C]
      lazy_step.load_miss [of "two_threads 0x4000 m x Start" 2 ?C]
      lazy_step.call [of "two_threads 0x4000 m (Loaded 0x4000) x" 1 _ ?C]
      lazy_step.call [of "two_threads 0x4000 m x (Loaded 0x4000)" 2 _ ?C]
    by (simp_all add: race_simps)
  have create: "lazy_step ?C (two_threads 0x4000 (\<lambda>_. None) (Called 0x4000 0x4000) x)
      (two_threads 0x4000 [?q \<mapsto> ?r] (Created ?q 0x4000) x)"
    "lazy_step ?C (two_threads 0x4000 [?q \<mapsto> ?r] x (Called 0x4000 0x4000))
      (two_threads 0x4000 [?q \<mapsto> ?r, ?q' \<mapsto> ?r] x (Created ?q' 0x4000))" for x
    using lazy_step.create [of "two_threads 0x4000 (\<lambda>_. None) (Called 0x4000 0x4000) x" 1 _ _ ?C ?q]
      lazy_step.create [of "two_threads 0x4000 [?q \<mapsto> ?r] x (Called 0x4000 0x4000)" 2 _ _ ?C ?q']
    by (simp_all add: race_simps)
  have cas: "lazy_step ?C (two_threads 0x4000 [?q \<mapsto> ?r, ?q' \<mapsto> ?r] (Created ?q 0x4000) x)
      (two_threads ?q [?q \<mapsto> ?r, ?q' \<mapsto> ?r] (Done ?q) x)"
    "lazy_step ?C (two_threads ?q [?q \<mapsto> ?r, ?q' \<mapsto> ?r] x (Created ?q' 0x4000))
      (two_threads ?q [?q \<mapsto> ?r] x (Done ?q))" for x
    using lazy_step.cas [of "two_threads 0x4000 [?q \<mapsto> ?r, ?q' \<mapsto> ?r] (Created ?q 0x4000) x" 1 _ _ ?C]
      lazy_step.cas [of "two_threads ?q [?q \<mapsto> ?r, ?q' \<mapsto> ?r] x (Created ?q' 0x4000)" 2 _ _ ?C]
    by (simp_all add: race_simps fun_upd_twist)
  show ?thesis
    unfolding race0_def race_end_def
    by (intro lazy_reach.step [OF _ cas(2)] lazy_reach.step [OF _ cas(1)] lazy_reach.step [OF _ create(2)]
        lazy_reach.step [OF _ create(1)] lazy_reach.step [OF _ s(4)] lazy_reach.step [OF _ s(3)]
        lazy_reach.step [OF _ s(2)] lazy_reach.step [OF _ s(1)] lazy_reach.here)
qed

theorem lazy_init_agreement_witness:
  "(0x10000 :: u64) = cell race_end \<and> objs race_end 0x10000 = Some Mutex_recursive"
proof -
  have "mutex_code False \<in> shim_codes" by (simp add: shim_codes_def)
  from lazy_init_agreement [OF this race_start race_reach, of 1 "0x10000" 2 "0x10000"] show ?thesis
    by (simp add: race_end_def race0_def race_simps)
qed



text \<open>How many steps a thread has left at most.\<close>

fun steps_left :: "lazy_pc \<Rightarrow> nat" where
  "steps_left Start = 4"
| "steps_left (Loaded p) = 3"
| "steps_left (Called iv p) = 2"
| "steps_left (Created q p) = 1"
| "steps_left pc = 0"



lemma and_minus_eight:
  fixes x :: u64
  shows "unat (x AND - 8) = unat x div 8 * 8"
proof -
  have mask: "(- 8 :: u64) = NOT (mask 3)" by (simp add: mask_eq_exp_minus_1)
  have "x AND - 8 = push_bit 3 (drop_bit 3 x)"
    unfolding mask by (rule bit_word_eqI, unfold bit_and_iff bit_not_iff bit_mask_iff bit_push_bit_iff)
      (auto simp: bit_drop_bit_eq)
  moreover have "unat x div 8 * 8 < 2 ^ 64"
  proof -
    have "unat x < 2 ^ 64" using unsigned_less [of x] by simp
    moreover have "unat x div 8 * 8 \<le> unat x" by simp
    ultimately show ?thesis by linarith
  qed
  ultimately show ?thesis by (simp add: push_bit_eq_mult drop_bit_eq_div unat_word_ariths unat_div)
qed

text \<open>
  With 64-bit pointers the payload word of an object that is aligned as bionic aligns it
  is itself aligned, lies behind the four bytes of the static initialiser and ends inside the
  object, for all three kinds; so no initialiser ever sees a misaligned word.
\<close>

theorem payload_pointer_bounds:
  assumes "unat v mod 4 = 0" and "unat v + 40 < 2 ^ 64"
  shows "unat (get_payload_pointer True v) mod 8 = 0 \<and>
    unat v + 4 \<le> unat (get_payload_pointer True v) \<and>
    unat (get_payload_pointer True v) + 8 \<le> unat v + unat sizeof_mutex \<and>
    sizeof_mutex \<le> sizeof_cond \<and> sizeof_cond \<le> sizeof_rwlock"
proof -
  have "unat (v + 11) = unat v + 11" using assms(2) by (simp add: unat_word_ariths)
  then have p: "unat (get_payload_pointer True v) = (unat v + 11) div 8 * 8"
    by (simp add: get_payload_pointer_def Let_def and_minus_eight)
  have "unat v + 4 \<le> (unat v + 11) div 8 * 8" "(unat v + 11) div 8 * 8 \<le> unat v + 11"
    by presburger+
  with p show ?thesis by (simp add: sizeof_mutex_def sizeof_cond_def sizeof_rwlock_def)
qed

theorem payload_pointer_bounds_witness:
  "unat (get_payload_pointer True 0x1004) mod 8 = 0 \<and> unat (0x1004 :: u64) + 4 \<le> unat (get_payload_pointer True 0x1004)"
  using payload_pointer_bounds [of "0x1004"] by simp

end
