(* ===== verification/Sync_Use.thy ===== *)
theory Sync_Use
  imports Lazy_Init Errno
begin

text \<open>
  The use of synchronisation objects by many threads (src/src/pthreads.cpp): every call
  of \<open>pthread_mutex_lock\<close>, \<open>pthread_cond_signal\<close> and the like first finds the host object,
  racing with other threads to create it, and then makes the host's call on it. The races are
  those of Lazy_Init; the host's calls are a parameter, and so is \<open>tr\<close>, what becomes of their
  results: \<open>translate_errno_from_host\<close> for mutexes and condition variables, nothing for read-write
  locks, whose calls are bound to the host's through the argument rewriter.
\<close>

section \<open>Calls on an object\<close>

text \<open>
  A host call \<open>x\<close> of thread \<open>t\<close> on an object returns a value and changes the object, or
  cannot return as things stand (a lock that is taken).
\<close>

record ('x, 'o) sync_host =
  create_object :: "host_kind \<Rightarrow> 'o"
  host_sync_call :: "'x \<Rightarrow> nat \<Rightarrow> 'o \<Rightarrow> (int \<times> 'o) option"

text \<open>
  The system: the shared memory of Lazy_Init, the contents of the host objects by their
  addresses, the calls that have returned, in order and with their results, and whether a call
  was made on memory that is no object.
\<close>

record ('x, 'o) sync_system =
  lazy :: lazy_state
  contents :: "u64 \<Rightarrow> 'o"
  history :: "(nat \<times> 'x \<times> int) list"
  wild_call :: bool

text \<open>An address that becomes an object holds what the host's initialiser puts there.\<close>

definition initialise_new ::
  "('x, 'o) sync_host \<Rightarrow> lazy_state \<Rightarrow> lazy_state \<Rightarrow> (u64 \<Rightarrow> 'o) \<Rightarrow> u64 \<Rightarrow> 'o" where
  "initialise_new H l l' m q =
     (case objs l q of Some _ \<Rightarrow> m q
      | None \<Rightarrow> (case objs l' q of Some k \<Rightarrow> create_object H k | None \<Rightarrow> m q))"

text \<open>
  \<open>find\<close> is a step of some thread inside \<open>to_host\<close>; \<open>host_call\<close> is the host's call with
  the pointer \<open>to_host\<close> returned, after which the guest has the result and the thread is ready for
  its next call.
\<close>

inductive sync_step ::
  "lazy_code \<Rightarrow> (int \<Rightarrow> int) \<Rightarrow> ('x, 'o) sync_host \<Rightarrow> ('x, 'o) sync_system \<Rightarrow> ('x, 'o) sync_system \<Rightarrow> bool" for C tr H where
  find: "lazy_step C (lazy m) l \<Longrightarrow>
    sync_step C tr H m (m\<lparr>lazy := l, contents := initialise_new H (lazy m) l (contents m)\<rparr>)"
| host_call: "pcs (lazy m) t = Done q \<Longrightarrow> objs (lazy m) q \<noteq> None \<Longrightarrow>
    host_sync_call H x t (contents m q) = Some (ret, ob) \<Longrightarrow>
    sync_step C tr H m (m\<lparr>lazy := go t Start (lazy m), contents := (contents m)(q := ob),
      history := history m @ [(t, x, tr ret)]\<rparr>)"
| wild: "pcs (lazy m) t = Done q \<Longrightarrow> objs (lazy m) q = None \<Longrightarrow> sync_step C tr H m (m\<lparr>wild_call := True\<rparr>)"

definition sync_start :: "lazy_code \<Rightarrow> ('x, 'o) sync_system \<Rightarrow> bool" where
  "sync_start C m \<longleftrightarrow> lazy_start C (lazy m) \<and> history m = [] \<and> \<not> wild_call m"

inductive sync_reach ::
  "lazy_code \<Rightarrow> (int \<Rightarrow> int) \<Rightarrow> ('x, 'o) sync_host \<Rightarrow> ('x, 'o) sync_system \<Rightarrow> ('x, 'o) sync_system \<Rightarrow> bool" for C tr H m0 where
  here: "sync_reach C tr H m0 m0"
| step: "sync_reach C tr H m0 m \<Longrightarrow> sync_step C tr H m m' \<Longrightarrow> sync_reach C tr H m0 m'"

section \<open>Specification: one object, one call after the other\<close>

text \<open>The object after the calls of a history, if each returns, through \<open>tr\<close>, what the history says.\<close>

fun replay :: "(int \<Rightarrow> int) \<Rightarrow> ('x, 'o) sync_host \<Rightarrow> 'o \<Rightarrow> (nat \<times> 'x \<times> int) list \<Rightarrow> 'o option" where
  "replay tr H ob [] = Some ob"
| "replay tr H ob ((t, x, ret) # hs) =
     (case host_sync_call H x t ob of None \<Rightarrow> None
      | Some (ret', ob') \<Rightarrow> if tr ret' = ret then replay tr H ob' hs else None)"

lemma replay_append:
  "replay tr H ob (hs @ hs') = Option.bind (replay tr H ob hs) (\<lambda>ob. replay tr H ob hs')"
  by (induction tr H ob hs rule: replay.induct) (auto split: option.split)

text \<open>What the host object is, as far as the guest can tell.\<close>

definition wanted :: "lazy_code \<Rightarrow> ('x, 'o) sync_system \<Rightarrow> host_kind" where
  "wanted C m0 = flavour C (static_value C (lazy m0))"

definition represents ::
  "lazy_code \<Rightarrow> (int \<Rightarrow> int) \<Rightarrow> ('x, 'o) sync_host \<Rightarrow> ('x, 'o) sync_system \<Rightarrow> ('x, 'o) sync_system \<Rightarrow> 'o \<Rightarrow> bool" where
  "represents C tr H m0 m ob \<longleftrightarrow>
     replay tr H (create_object H (wanted C m0)) (history m) = Some ob \<and>
     (cell (lazy m) = cell (lazy m0) \<longrightarrow> history m = []) \<and>
     (\<forall>q k. objs (lazy m) q = Some k \<longrightarrow> contents m q =
       (if q = cell (lazy m) \<and> cell (lazy m) \<noteq> cell (lazy m0) then ob else create_object H k))"

section \<open>The invariant\<close>

definition sync_inv ::
  "lazy_code \<Rightarrow> (int \<Rightarrow> int) \<Rightarrow> ('x, 'o) sync_host \<Rightarrow> ('x, 'o) sync_system \<Rightarrow> ('x, 'o) sync_system \<Rightarrow> bool" where
  "sync_inv C tr H m0 m \<longleftrightarrow> lazy_inv C (lazy m0) (lazy m) \<and> \<not> wild_call m \<and> (\<exists>ob. represents C tr H m0 m ob)"

text \<open>What a step inside \<open>to_host\<close> can do to the word and to the objects.\<close>

definition quiet :: "lazy_state \<Rightarrow> lazy_state \<Rightarrow> bool" where
  "quiet l l' \<longleftrightarrow> cell l' = cell l \<and> (\<forall>q. objs l q = None \<or> objs l' q = None \<or> objs l' q = objs l q)"

definition published :: "lazy_state \<Rightarrow> lazy_state \<Rightarrow> bool" where
  "published l l' \<longleftrightarrow> objs l' = objs l \<and> (\<exists>t q p. pcs l t = Created q p \<and> cell l = p \<and> cell l' = q)"

lemma lazy_step_effect: "lazy_step C l l' \<Longrightarrow> quiet l l' \<or> published l l'"
proof (induction rule: lazy_step.induct)
  case (cas s t q p)
  then show ?case
    by (cases "cell s = p") (auto simp: quiet_def published_def publish_def)
qed (auto simp: quiet_def create_with_def may_return_def)

context lazy_object
begin

lemma cell_live:
  assumes "lazy_inv C s0 s" and "cell s \<noteq> cell s0"
  shows "objs s (cell s) = Some (flavour C (static_value C s0))"
  using assms unfolding lazy_inv_def by blast

text \<open>A thread that is done is done with the object in use, and starting anew changes nothing.\<close>

lemma done_cell:
  assumes "lazy_start C s0" and "lazy_inv C s0 s" and "pcs s t = Done q"
  shows "q = cell s" and "cell s \<noteq> cell s0"
proof -
  from assms(2) have "step_inv C (cell s0) (flavour C (static_value C s0)) s t" by (simp add: lazy_inv_def)
  with assms(3) show "q = cell s" and "cell s \<noteq> cell s0"
    using cell_set [OF assms(1,2)] by (auto simp: step_inv_def)
qed

lemma inv_restart:
  assumes "lazy_inv C s0 s" and "pcs s t = Done q"
  shows "lazy_inv C s0 (go t Start s)"
  by (rule inv_go [OF assms(1)]) (simp_all add: assms(2) owns_def step_inv_def)

lemma sync_find:
  assumes "lazy_start C (lazy m0)" and "sync_inv C tr H m0 m" and "lazy_step C (lazy m) l"
  shows "sync_inv C tr H m0 (m\<lparr>lazy := l, contents := initialise_new H (lazy m) l (contents m)\<rparr>)"
    (is "sync_inv C tr H m0 ?m'")
proof -
  from assms(2) obtain ob where
    inv: "lazy_inv C (lazy m0) (lazy m)" and ok: "\<not> wild_call m" and rep: "represents C tr H m0 m ob"
    by (auto simp: sync_inv_def)
  from rep have hist: "replay tr H (create_object H (wanted C m0)) (history m) = Some ob"
    "cell (lazy m) = cell (lazy m0) \<Longrightarrow> history m = []"
    and cont: "\<And>q k. objs (lazy m) q = Some k \<Longrightarrow> contents m q =
       (if q = cell (lazy m) \<and> cell (lazy m) \<noteq> cell (lazy m0) then ob else create_object H k)"
    by (simp_all add: represents_def)
  have inv': "lazy_inv C (lazy m0) l" by (rule inv_step [OF assms(3,1) inv])
  from lazy_step_effect [OF assms(3)] have "represents C tr H m0 ?m' ob"
  proof
    assume "quiet (lazy m) l"
    then have same: "cell l = cell (lazy m)"
      "\<And>q. objs (lazy m) q = None \<or> objs l q = None \<or> objs l q = objs (lazy m) q"
      by (auto simp: quiet_def)
    have "contents ?m' q = (if q = cell l \<and> cell l \<noteq> cell (lazy m0) then ob else create_object H k)"
      if "objs l q = Some k" for q k
    proof (cases "objs (lazy m) q")
      case None
      then have "\<not> (q = cell l \<and> cell l \<noteq> cell (lazy m0))"
        using cell_live [OF inv] same(1) by (metis option.distinct(1))
      with None that show ?thesis by (simp add: initialise_new_def if_not_P)
    next
      case (Some k')
      with that same(2) [of q] have "k' = k" by simp
      with Some cont [OF Some] show ?thesis by (simp add: initialise_new_def same(1))
    qed
    with hist show ?thesis by (simp add: represents_def same(1))
  next
    assume "published (lazy m) l"
    then obtain t q where pub: "objs l = objs (lazy m)" "pcs (lazy m) t = Created q (cell (lazy m))" "cell l = q"
      by (auto simp: published_def)
    from inv have "step_inv C (cell (lazy m0)) (wanted C m0) (lazy m) t"
      by (simp add: lazy_inv_def wanted_def)
    with pub(2) have c0: "cell (lazy m) = cell (lazy m0)" and k: "objs (lazy m) q = Some (wanted C m0)"
      by (simp_all add: step_inv_def)
    from c0 hist have "history m = []" "ob = create_object H (wanted C m0)" by simp_all
    with pub k cont c0 show ?thesis
      by (auto simp: represents_def initialise_new_def split: option.split)
  qed
  with inv' ok show ?thesis by (auto simp: sync_inv_def)
qed

lemma sync_call:
  assumes "lazy_start C (lazy m0)" and "sync_inv C tr H m0 m" and "pcs (lazy m) t = Done q"
    and "host_sync_call H x t (contents m q) = Some (ret, ob')"
  shows "sync_inv C tr H m0 (m\<lparr>lazy := go t Start (lazy m), contents := (contents m)(q := ob'),
    history := history m @ [(t, x, tr ret)]\<rparr>)" (is "sync_inv C tr H m0 ?m'")
proof -
  from assms(2) obtain ob where
    inv: "lazy_inv C (lazy m0) (lazy m)" and ok: "\<not> wild_call m" and rep: "represents C tr H m0 m ob"
    by (auto simp: sync_inv_def)
  note cell = done_cell [OF assms(1) inv assms(3)]
  have "contents m q = ob"
    using rep cell cell_live [OF inv cell(2)] by (simp add: represents_def)
  with assms(4) rep cell have "represents C tr H m0 ?m' ob'"
    by (auto simp: represents_def replay_append)
  with inv_restart [OF inv assms(3)] ok show ?thesis by (auto simp: sync_inv_def)
qed

lemma sync_inv_step:
  assumes "sync_step C tr H m m'" and "lazy_start C (lazy m0)" and "sync_inv C tr H m0 m"
  shows "sync_inv C tr H m0 m'"
  using assms(1)
proof cases
  case (find l)
  then show ?thesis using sync_find [OF assms(2,3)] by simp
next
  case (host_call t q x ret ob)
  then show ?thesis using sync_call [OF assms(2,3)] by simp
next
  case (wild t q)
  from assms(3) have inv: "lazy_inv C (lazy m0) (lazy m)" by (simp add: sync_inv_def)
  from done_cell [OF assms(2) inv wild(2)] cell_live [OF inv] wild(3) show ?thesis by simp
qed

lemma sync_inv_reach: "sync_reach C tr H m0 m \<Longrightarrow> sync_start C m0 \<Longrightarrow> sync_inv C tr H m0 m"
proof (induction rule: sync_reach.induct)
  case here
  then have "lazy_inv C (lazy m0) (lazy m0)" "represents C tr H m0 m0 (create_object H (wanted C m0))"
    using inv_start [of "lazy m0"] by (auto simp: sync_start_def represents_def lazy_start_def)
  with here show ?case by (auto simp: sync_inv_def sync_start_def)
next
  case (step m m')
  then have "lazy_start C (lazy m0)" "sync_inv C tr H m0 m" by (simp_all add: sync_start_def)
  with sync_inv_step [OF step.hyps(2)] show ?case by blast
qed

end

section \<open>Mutexes\<close>

datatype mutex_call = M_lock | M_trylock | M_unlock

text \<open>
  What POSIX says of the host's mutexes, \<open>holds\<close> giving how many times a thread holds one:
  a new mutex is free, a lock succeeds only if no other thread holds the mutex, and does when
  nobody does, the holder's unlock succeeds, and a call that fails changes nothing.
\<close>

definition takes :: "mutex_call \<Rightarrow> bool" where
  "takes x \<longleftrightarrow> x \<noteq> M_unlock"

definition posix_mutex :: "(mutex_call, 'o) sync_host \<Rightarrow> ('o \<Rightarrow> nat \<Rightarrow> nat) \<Rightarrow> bool" where
  "posix_mutex H holds \<longleftrightarrow>
     (\<forall>k t. holds (create_object H k) t = 0) \<and>
     (\<forall>x t ob ob'. takes x \<longrightarrow> host_sync_call H x t ob = Some (0, ob') \<longrightarrow>
       (\<forall>u. u \<noteq> t \<longrightarrow> holds ob u = 0) \<and> holds ob' = (holds ob)(t := Suc (holds ob t))) \<and>
     (\<forall>t ob. (\<forall>u. holds ob u = 0) \<longrightarrow> (\<exists>ob'. host_sync_call H M_lock t ob = Some (0, ob'))) \<and>
     (\<forall>t ob. 0 < holds ob t \<longrightarrow> (\<exists>ob'. host_sync_call H M_unlock t ob = Some (0, ob') \<and>
       holds ob' = (holds ob)(t := holds ob t - 1))) \<and>
     (\<forall>x t ob ret ob'. host_sync_call H x t ob = Some (ret, ob') \<longrightarrow> ret \<noteq> 0 \<longrightarrow> holds ob' = holds ob)"

text \<open>How often each thread holds the mutex, going by the results the guest was given.\<close>

definition guest_event :: "nat \<times> mutex_call \<times> int \<Rightarrow> (nat \<Rightarrow> nat) \<Rightarrow> nat \<Rightarrow> nat" where
  "guest_event = (\<lambda>(t, x, ret) g.
     if ret \<noteq> 0 then g else g(t := (if takes x then Suc (g t) else g t - 1)))"

definition guest_holds :: "(nat \<times> mutex_call \<times> int) list \<Rightarrow> nat \<Rightarrow> nat" where
  "guest_holds hs = fold guest_event hs (\<lambda>_. 0)"

text \<open>A guest that unlocks only what it holds.\<close>

fun unlocks_own :: "(nat \<times> mutex_call \<times> int) list \<Rightarrow> (nat \<Rightarrow> nat) \<Rightarrow> bool" where
  "unlocks_own [] g = True"
| "unlocks_own ((t, x, ret) # hs) g \<longleftrightarrow> (takes x \<or> 0 < g t) \<and> unlocks_own hs (guest_event (t, x, ret) g)"

definition one_holder :: "(nat \<Rightarrow> nat) \<Rightarrow> bool" where
  "one_holder g \<longleftrightarrow> (\<forall>t t'. 0 < g t \<longrightarrow> 0 < g t' \<longrightarrow> t = t')"

lemma posix_mutexD:
  assumes "posix_mutex H holds"
  shows posix_new: "holds (create_object H k) = (\<lambda>_. 0)"
    and posix_take: "takes x \<Longrightarrow> host_sync_call H x t ob = Some (0, ob') \<Longrightarrow>
      (\<forall>u. u \<noteq> t \<longrightarrow> holds ob u = 0) \<and> holds ob' = (holds ob)(t := Suc (holds ob t))"
    and posix_free: "\<forall>u. holds ob u = 0 \<Longrightarrow> \<exists>ob'. host_sync_call H M_lock t ob = Some (0, ob')"
    and posix_release: "0 < holds ob t \<Longrightarrow> \<exists>ob'. host_sync_call H M_unlock t ob = Some (0, ob') \<and>
      holds ob' = (holds ob)(t := holds ob t - 1)"
    and posix_failed: "host_sync_call H x t ob = Some (ret, ob') \<Longrightarrow> ret \<noteq> 0 \<Longrightarrow> holds ob' = holds ob"
  using assms by (auto simp: posix_mutex_def)

lemma posix_call:
  assumes "posix_mutex H holds" and "host_sync_call H x t ob = Some (ret, ob')"
    and "takes x \<or> 0 < holds ob t" and "one_holder (holds ob)" and tr: "\<And>e. tr e = 0 \<longleftrightarrow> e = (0 :: int)"
  shows "holds ob' = guest_event (t, x, tr ret) (holds ob) \<and> one_holder (holds ob') \<and> (takes x \<or> ret = 0)"
proof (cases "takes x")
  case taking: True
  show ?thesis
  proof (cases "ret = 0")
    case True
    from posix_take [OF assms(1) taking, of t ob ob'] assms(2) True
    have "\<forall>u. u \<noteq> t \<longrightarrow> holds ob u = 0" "holds ob' = (holds ob)(t := Suc (holds ob t))" by simp_all
    with True taking show ?thesis by (simp add: guest_event_def one_holder_def tr)
  next
    case False
    with posix_failed [OF assms(1,2)] taking assms(4) show ?thesis by (simp add: guest_event_def tr)
  qed
next
  case False
  with assms(3) have "x = M_unlock" "0 < holds ob t" by (cases x, simp_all add: takes_def)
  with posix_release [OF assms(1)] assms(2) obtain ob1 where
    "Some (ret, ob') = Some (0, ob1)" "holds ob1 = (holds ob)(t := holds ob t - 1)" by metis
  then have ret: "ret = 0" "holds ob' = (holds ob)(t := holds ob t - 1)" by simp_all
  have "0 < holds ob' u \<Longrightarrow> 0 < holds ob u" for u by (cases "u = t") (simp_all add: ret)
  with assms(4) have "one_holder (holds ob')" unfolding one_holder_def by blast
  with ret False show ?thesis by (simp add: guest_event_def tr)
qed

lemma posix_replay:
  assumes "posix_mutex H holds" and "replay tr H ob hs = Some ob'"
    and "unlocks_own hs (holds ob)" and "one_holder (holds ob)" and tr: "\<And>e. tr e = 0 \<longleftrightarrow> e = (0 :: int)"
  shows "holds ob' = fold guest_event hs (holds ob) \<and> one_holder (holds ob') \<and>
    (\<forall>(t, x, ret) \<in> set hs. takes x \<or> ret = 0)"
  using assms(2-4)
proof (induction hs arbitrary: ob)
  case (Cons h hs)
  obtain t x ret where h: "h = (t, x, ret)" by (cases h)
  from Cons.prems(1) h obtain ret' ob1 where call: "host_sync_call H x t ob = Some (ret', ob1)" and ret: "tr ret' = ret"
    and rest: "replay tr H ob1 hs = Some ob'" by (auto split: option.splits if_splits)
  from Cons.prems(2) h have "takes x \<or> 0 < holds ob t" by simp
  from posix_call [OF assms(1) call this Cons.prems(3), of tr] tr have
    one: "holds ob1 = guest_event (t, x, ret) (holds ob)" "one_holder (holds ob1)" "takes x \<or> ret = 0" by (auto simp: ret [symmetric])
  from Cons.prems(2) h one(1) have "unlocks_own hs (holds ob1)" by simp
  note ih = Cons.IH [OF rest this one(2)]
  then have "holds ob' = fold guest_event (h # hs) (holds ob)" by (simp add: one(1) h)
  moreover have "\<forall>(t, x, ret) \<in> set (h # hs). takes x \<or> ret = 0" using ih one(3) by (simp add: h)
  ultimately show ?case using ih by blast
qed simp

section \<open>Properties\<close>

text \<open>
  A host whose mutexes are an owner and a count, and the race of Lazy_Init after which thread 1
  locks and thread 2 tries to.
\<close>

definition counting_mutexes :: "(mutex_call, nat \<times> nat) sync_host" where
  "counting_mutexes = \<lparr>create_object = (\<lambda>_. (0, 0)), host_sync_call = (\<lambda>x t (u, n).
     if x = M_unlock then Some (if 0 < n \<and> u = t then (0, (u, n - 1)) else (1, (u, n)))
     else if n = 0 \<or> u = t then Some (0, (t, Suc n))
     else if x = M_trylock then Some (16, (u, n)) else None)\<rparr>"

definition count_of :: "nat \<times> nat \<Rightarrow> nat \<Rightarrow> nat" where
  "count_of ob t = (if fst ob = t then snd ob else 0)"

lemma counting_posix: "posix_mutex counting_mutexes count_of"
  unfolding posix_mutex_def counting_mutexes_def count_of_def takes_def
  by (auto simp: fun_eq_iff split: if_splits)

definition sync0 :: "(mutex_call, nat \<times> nat) sync_system" where
  "sync0 = \<lparr>lazy = race0, contents = (\<lambda>_. (0, 0)), history = [], wild_call = False\<rparr>"

lemma sync_start0: "sync_start (mutex_code False) sync0"
  by (simp add: sync_start_def sync0_def race_start)

lemma sync_reach_find:
  "lazy_reach C l0 l \<Longrightarrow> lazy m0 = l0 \<Longrightarrow> \<exists>m. sync_reach C tr H m0 m \<and> lazy m = l \<and> history m = history m0"
proof (induction rule: lazy_reach.induct)
  case (step s s')
  then obtain m where "sync_reach C tr H m0 m" "lazy m = s" "history m = history m0" by blast
  with step sync_step.find [of C m s' tr H] sync_reach.step [of C tr H m0 m] show ?case by fastforce
qed (auto intro: sync_reach.here)

abbreviation first_calls :: "(nat \<times> mutex_call \<times> int) list" where
  "first_calls \<equiv> [(1, M_lock, 0), (2, M_trylock, 16)]"

abbreviation linux_result :: "int \<Rightarrow> int" where
  "linux_result \<equiv> translate_errno_from_host Linux linux_errno_headers"

lemma linux_result_id: "linux_result e = e"
  using translate_errno_identity [of Linux linux_errno_headers] linux_errno_headers_listed by blast

lemma sync_run:
  "\<exists>m. sync_reach (mutex_code False) linux_result counting_mutexes sync0 m \<and> history m = first_calls"
proof -
  let ?C = "mutex_code False" and ?H = counting_mutexes and ?q = "0x10000 :: u64"
  obtain m where m: "sync_reach ?C linux_result ?H sync0 m" "lazy m = race_end" "history m = []"
    using sync_reach_find [OF race_reach, of sync0 linux_result ?H] by (auto simp: sync0_def)
  from mutex.sync_inv_reach [OF m(1) sync_start0] m have free: "contents m ?q = (0, 0)"
    by (auto simp: sync_inv_def represents_def race_end_def race_simps counting_mutexes_def)
  obtain m1 where m1: "sync_reach ?C linux_result ?H sync0 m1" "history m1 = [(1, M_lock, 0)]"
    "lazy m1 = go 1 Start race_end" "contents m1 ?q = (1, 1)"
    using sync_reach.step [OF m(1) sync_step.host_call [of m 1 ?q ?H M_lock 0 "(1, 1)" ?C linux_result]] m free
    by (force simp: race_end_def race_simps counting_mutexes_def linux_result_id)
  then show ?thesis
    using sync_reach.step [OF m1(1) sync_step.host_call [of m1 2 ?q ?H M_trylock 16 "(1, 1)" ?C linux_result]]
    by (force simp: race_end_def race_simps counting_mutexes_def linux_result_id)
qed

text \<open>
  C1. Threads that share a statically initialised mutex, condition variable or read-write
  lock see one host object of the kind its initialiser asks for: however their calls and
  their races to create it interleave, the results they get are those of the host's calls made
  one after the other on a single new object, as \<open>tr\<close> translates them, and no call reaches memory
  that is no object.
\<close>

theorem sync_objects_atomic:
  assumes "C \<in> shim_codes" and "sync_start C m0" and "sync_reach C tr H m0 m"
  shows "\<exists>ob. replay tr H (create_object H (flavour C (static_value C (lazy m0)))) (history m) = Some ob \<and>
    \<not> wild_call m \<and> (cell (lazy m) = cell (lazy m0) \<longrightarrow> history m = []) \<and>
    (\<forall>t q. pcs (lazy m) t = Done q \<longrightarrow> contents m q = ob)"
proof -
  note obj = shim_object [OF assms(1)]
  from lazy_object.sync_inv_reach [OF obj assms(3,2)] obtain ob where
    inv: "lazy_inv C (lazy m0) (lazy m)" "\<not> wild_call m" and rep: "represents C tr H m0 m ob"
    by (auto simp: sync_inv_def)
  from assms(2) have start: "lazy_start C (lazy m0)" by (simp add: sync_start_def)
  have "contents m q = ob" if "pcs (lazy m) t = Done q" for t q
    using rep lazy_object.done_cell [OF obj start inv(1) that] lazy_object.cell_live [OF obj inv(1)]
    by (simp add: represents_def)
  with inv(2) rep show ?thesis by (auto simp: represents_def wanted_def)
qed

theorem sync_objects_atomic_witness:
  "\<exists>m ob. sync_reach (mutex_code False) linux_result counting_mutexes sync0 m \<and> history m = first_calls \<and>
     replay linux_result counting_mutexes (0, 0) (history m) = Some ob \<and> \<not> wild_call m"
proof -
  obtain m where m: "sync_reach (mutex_code False) linux_result counting_mutexes sync0 m" "history m = first_calls"
    using sync_run by blast
  have "mutex_code False \<in> shim_codes" by (simp add: shim_codes_def)
  from sync_objects_atomic [OF this sync_start0 m(1)] m show ?thesis
    by (auto simp: counting_mutexes_def)
qed

text \<open>
  C2. A statically initialised mutex excludes: going by the results the guest gets, no two
  threads ever hold it, on any host whose own mutexes keep POSIX's rules and whose error numbers
  are not zero, for guests that unlock only what they hold; every such unlock succeeds, and a thread in its call can take a
  mutex that nobody holds.
\<close>

theorem shim_mutex_excludes:
  assumes "posix_mutex H holds" and "sync_start (mutex_code b) m0" and "sync_reach (mutex_code b) (translate_errno_from_host os h) H m0 m"
    and "0 \<notin> h ` fst ` set (errno_from_host_cases os)" and "unlocks_own (history m) (\<lambda>_. 0)"
  shows "(0 < guest_holds (history m) t \<longrightarrow> 0 < guest_holds (history m) t' \<longrightarrow> t = t') \<and>
    (\<forall>(u, x, ret) \<in> set (history m). x = M_unlock \<longrightarrow> ret = 0) \<and>
    ((\<forall>u. guest_holds (history m) u = 0) \<longrightarrow> pcs (lazy m) t = Done q \<longrightarrow>
      (\<exists>m'. sync_step (mutex_code b) (translate_errno_from_host os h) H m m' \<and> history m' = history m @ [(t, M_lock, 0)]))"
proof -
  let ?tr = "translate_errno_from_host os h"
  note tr = translate_errno_zero [OF assms(4)]
  from mutex.sync_inv_reach [OF assms(3,2)] obtain ob where
    inv: "lazy_inv (mutex_code b) (lazy m0) (lazy m)" and rep: "represents (mutex_code b) ?tr H m0 m ob"
    by (auto simp: sync_inv_def)
  from assms(2) have start: "lazy_start (mutex_code b) (lazy m0)" by (simp add: sync_start_def)
  from rep have "replay ?tr H (create_object H (wanted (mutex_code b) m0)) (history m) = Some ob"
    by (simp add: represents_def)
  from posix_replay [OF assms(1) this _ _ tr] assms(5) have
    run: "holds ob = guest_holds (history m)" "one_holder (holds ob)"
    "\<forall>(u, x, ret) \<in> set (history m). takes x \<or> ret = 0"
    by (simp_all add: posix_new [OF assms(1)] one_holder_def guest_holds_def)
  have "\<exists>m'. sync_step (mutex_code b) ?tr H m m' \<and> history m' = history m @ [(t, M_lock, 0)]"
    if "\<forall>u. guest_holds (history m) u = 0" and pc: "pcs (lazy m) t = Done q"
  proof -
    note cell = mutex.done_cell [OF start inv pc]
    from rep cell mutex.cell_live [OF inv cell(2)] have "contents m q = ob" "objs (lazy m) q \<noteq> None"
      by (simp_all add: represents_def)
    moreover from that(1) have "\<forall>u. holds ob u = 0" by (simp add: run(1))
    from posix_free [OF assms(1) this, of t] obtain ob' where "host_sync_call H M_lock t ob = Some (0, ob')" ..
    ultimately show ?thesis
      using sync_step.host_call [OF pc, of H M_lock 0 ob' "mutex_code b" ?tr] tr [of 0] by fastforce
  qed
  moreover have "\<forall>(u, x, ret) \<in> set (history m). x = M_unlock \<longrightarrow> ret = 0"
    using run(3) by (auto simp: takes_def)
  ultimately show ?thesis using run(1,2) by (auto simp: one_holder_def)
qed

theorem shim_mutex_excludes_witness:
  "\<exists>m. sync_reach (mutex_code False) linux_result counting_mutexes sync0 m \<and> history m = first_calls \<and>
     guest_holds (history m) 1 = 1 \<and> guest_holds (history m) 2 = 0"
proof -
  obtain m where m: "sync_reach (mutex_code False) linux_result counting_mutexes sync0 m" "history m = first_calls"
    using sync_run by blast
  have "unlocks_own (history m) (\<lambda>_. 0)" by (simp add: m(2) takes_def)
  from shim_mutex_excludes [OF counting_posix sync_start0 m(1) linux_errno_headers_nonzero this, of 1 2]
  have "0 < guest_holds (history m) 1 \<longrightarrow> \<not> 0 < guest_holds (history m) 2" by simp
  moreover have "guest_holds (history m) 1 = 1"
    by (simp add: m(2) guest_holds_def guest_event_def takes_def)
  ultimately show ?thesis using m by auto
qed

end
