(* ===== verification/Os_Version.thy ===== *)
theory Os_Version
  imports Prelude "HOL-Library.Product_Lexorder"
begin

text \<open>
  The check of the operating system's version behind \<open>@available\<close> on old versions of macOS
  (src/src/osx10_10_compat.c): the shim's variant of the compiler's runtime function, which
  reads the version from a property list by way of CoreFoundation functions it looks up at run
  time. The part under \<open>TARGET_OS_SIMULATOR\<close> and the Android part inside \<open>__APPLE__\<close> are
  never compiled here.
\<close>

section \<open>State\<close>

text \<open>
  What the function acquires and has to give back: the file, the buffer with its contents,
  the CoreFoundation objects for the contents and the parsed list, and a key string.
\<close>

datatype resource = R_file | R_buffer | R_contents | R_plist | R_key

text \<open>
  The static variables of the file and the resources held. Each resource is acquired at one
  place only; \<open>release\<close> of one that is not held is a \<open>Memory_fault\<close>.
\<close>

record version_state =
  GlobalMajor :: u32
  GlobalMinor :: u32
  GlobalSubminor :: u32
  AvailabilityVersionCheck :: bool
  DispatchOnce :: bool
  CompatibilityDispatchOnce :: bool
  held :: "resource set"

text \<open>
  What the system answers: which symbols exist, whether the file opens, its size, whether
  memory is had, the number of bytes read, whether the conversions succeed, the dictionary's value
  (none, or whether it is a string) and its text.
\<close>

record plist_host =
  has_symbol :: "string \<Rightarrow> bool"
  opens :: bool
  file_size :: int
  has_memory :: bool
  num_read :: nat
  makes_contents :: bool
  parses :: bool
  makes_key :: bool
  dict_value :: "bool option"
  value_text :: "string option"

definition acquire :: "resource \<Rightarrow> bool \<Rightarrow> (version_state, bool) act" where
  "acquire r ok s = (Inr ok, if ok then s\<lparr>held := insert r (held s)\<rparr> else s)"

definition release :: "resource \<Rightarrow> (version_state, unit) act" where
  "release r s = (if r \<in> held s then (Inr (), s\<lparr>held := held s - {r}\<rparr>) else (Inl Memory_fault, s))"

section \<open>sscanf\<close>

text \<open>
  The conversion \<open>%d\<close>: white space, a sign, digits; and the format \<open>%d.%d.%d\<close>, which
  yields as many numbers as match.
\<close>

definition is_digit :: "char \<Rightarrow> bool" where
  "is_digit c \<longleftrightarrow> 48 \<le> (of_char c :: nat) \<and> (of_char c :: nat) \<le> 57"

definition is_space :: "char \<Rightarrow> bool" where
  "is_space c \<longleftrightarrow> (of_char c :: nat) \<in> {9, 10, 11, 12, 13, 32}"

fun digits_value :: "string \<Rightarrow> int \<Rightarrow> int" where
  "digits_value [] acc = acc"
| "digits_value (c # cs) acc = digits_value cs (10 * acc + (of_char c - 48))"

definition scan_d :: "string \<Rightarrow> (int \<times> string) option" where
  "scan_d str =
     (let str = dropWhile is_space str;
        neg = (str \<noteq> [] \<and> hd str = CHR ''-'');
        str = (if str \<noteq> [] \<and> (hd str = CHR ''-'' \<or> hd str = CHR ''+'') then tl str else str);
        ds = takeWhile is_digit str in
      if ds = [] then None
      else Some (if neg then - digits_value ds 0 else digits_value ds 0, dropWhile is_digit str))"

fun scan_dotted :: "nat \<Rightarrow> string \<Rightarrow> int list" where
  "scan_dotted 0 str = []"
| "scan_dotted (Suc n) str =
     (case scan_d str of None \<Rightarrow> []
      | Some (v, rest) \<Rightarrow> v # (if rest \<noteq> [] \<and> hd rest = CHR ''.'' then scan_dotted n (tl rest) else []))"

definition scan_version :: "string \<Rightarrow> version_state \<Rightarrow> version_state" where
  "scan_version str s =
     (let vs = scan_dotted 3 str;
        s = (if 0 < length vs then s\<lparr>GlobalMajor := word_of_int (vs ! 0)\<rparr> else s);
        s = (if 1 < length vs then s\<lparr>GlobalMinor := word_of_int (vs ! 1)\<rparr> else s) in
      if 2 < length vs then s\<lparr>GlobalSubminor := word_of_int (vs ! 2)\<rparr> else s)"

section \<open>Reading the version\<close>

definition cf_symbols :: "string list" where
  "cf_symbols = [''kCFAllocatorNull'', ''CFDataCreateWithBytesNoCopy'', ''CFStringCreateWithCStringNoCopy'',
     ''CFDictionaryGetValue'', ''CFGetTypeID'', ''CFStringGetTypeID'', ''CFStringGetCString'', ''CFRelease'']"

text \<open>The local pointers, null or not, with which the code reaches the label \<open>Fail\<close>.\<close>

record plist_locals =
  PListRef :: bool
  FileContentsRef :: bool
  PListBuf :: bool

definition no_locals :: plist_locals where
  "no_locals = \<lparr>PListRef = False, FileContentsRef = False, PListBuf = False\<rparr>"

text \<open>From \<open>fseek\<close> to \<open>sscanf\<close>, every \<open>goto Fail\<close> a return of the locals.\<close>

definition read_plist :: "plist_host \<Rightarrow> (version_state, plist_locals) act" where
  "read_plist H =
     (if file_size H < 0 then retA no_locals
      else bindA (acquire R_buffer (has_memory H)) (\<lambda>buf.
        if \<not> buf then retA no_locals
        else let l = no_locals\<lparr>PListBuf := True\<rparr> in
        if int (num_read H) \<noteq> file_size H then retA l
        else bindA (acquire R_contents (makes_contents H)) (\<lambda>contents.
          if \<not> contents then retA l
          else let l = l\<lparr>FileContentsRef := True\<rparr> in
          bindA (acquire R_plist (parses H)) (\<lambda>plist.
            if \<not> plist then retA l
            else let l = l\<lparr>PListRef := True\<rparr> in
            bindA (acquire R_key (makes_key H)) (\<lambda>key.
              if \<not> key then retA l
              else bindA (release R_key) (\<lambda>_.
                if dict_value H \<noteq> Some True then retA l
                else (case value_text H of None \<Rightarrow> retA l
                  | Some str \<Rightarrow> bindA (modifyA (scan_version str)) (\<lambda>_. retA l))))))))"

text \<open>The code behind the label; \<open>free\<close> of a null pointer does nothing.\<close>

definition plist_fail :: "plist_locals \<Rightarrow> (version_state, unit) act" where
  "plist_fail l =
     bindA (if PListRef l then release R_plist else retA ()) (\<lambda>_.
     bindA (if FileContentsRef l then release R_contents else retA ()) (\<lambda>_.
     bindA (if PListBuf l then release R_buffer else retA ()) (\<lambda>_. release R_file)))"

definition initializeAvailabilityCheck :: "plist_host \<Rightarrow> bool \<Rightarrow> (version_state, unit) act" where
  "initializeAvailabilityCheck H LoadPlist s =
     (if AvailabilityVersionCheck s \<and> \<not> LoadPlist then (Inr (), s)
      else let s = s\<lparr>AvailabilityVersionCheck := False\<rparr> in
      if AvailabilityVersionCheck s \<and> \<not> LoadPlist then (Inr (), s)
      else if \<not> list_all (has_symbol H) cf_symbols \<or>
        \<not> (has_symbol H ''CFPropertyListCreateWithData'' \<or> has_symbol H ''CFPropertyListCreateFromXMLData'')
      then (Inr (), s)
      else bindA (acquire R_file (opens H)) (\<lambda>f.
        if \<not> f then retA () else bindA (read_plist H) plist_fail) s)"

section \<open>The checks\<close>

definition isOSVersionAtLeast :: "plist_host \<Rightarrow> u32 \<Rightarrow> u32 \<Rightarrow> u32 \<Rightarrow> (version_state, int) act" where
  "isOSVersionAtLeast H major minor subminor =
     bindA (\<lambda>s. if CompatibilityDispatchOnce s then (Inr (), s)
       else initializeAvailabilityCheck H True (s\<lparr>CompatibilityDispatchOnce := True\<rparr>)) (\<lambda>_ s.
     (Inr (if sint major < sint (GlobalMajor s) then 1
       else if sint major > sint (GlobalMajor s) then 0
       else if sint minor < sint (GlobalMinor s) then 1
       else if sint minor > sint (GlobalMinor s) then 0
       else if sint subminor \<le> sint (GlobalSubminor s) then 1 else 0), s))"

definition ConstructVersion :: "u32 \<Rightarrow> u32 \<Rightarrow> u32 \<Rightarrow> u32" where
  "ConstructVersion major minor subminor =
     push_bit 16 (major AND 0xffff) OR push_bit 8 (minor AND 0xff) OR (subminor AND 0xff)"

text \<open>\<open>check\<close> is the function the variable \<open>AvailabilityVersionCheck\<close> would point to.\<close>

definition dispatch_init :: "plist_host \<Rightarrow> (version_state, unit) act" where
  "dispatch_init H s =
     (if DispatchOnce s then (Inr (), s)
      else initializeAvailabilityCheck H False (s\<lparr>DispatchOnce := True\<rparr>))"

definition isPlatformVersionAtLeast ::
  "plist_host \<Rightarrow> ((u32 \<times> u32) list \<Rightarrow> bool) \<Rightarrow> u32 \<Rightarrow> u32 \<Rightarrow> u32 \<Rightarrow> u32 \<Rightarrow> (version_state, int) act" where
  "isPlatformVersionAtLeast H check platform major minor subminor =
     bindA (dispatch_init H) (\<lambda>_. bindA (getsA AvailabilityVersionCheck) (\<lambda>avail.
       if \<not> avail then isOSVersionAtLeast H major minor subminor
       else retA (if check [(platform, ConstructVersion major minor subminor)] then 1 else 0)))"

text \<open>\<open>PLATFORM_MACOS\<close> is 1; a failed \<open>assert\<close> aborts.\<close>

definition isPlatformOrVariantPlatformVersionAtLeast ::
  "plist_host \<Rightarrow> ((u32 \<times> u32) list \<Rightarrow> bool) \<Rightarrow> u32 \<Rightarrow> u32 \<Rightarrow> u32 \<Rightarrow> u32 \<Rightarrow>
   u32 \<Rightarrow> u32 \<Rightarrow> u32 \<Rightarrow> u32 \<Rightarrow> (version_state, int) act" where
  "isPlatformOrVariantPlatformVersionAtLeast H check p major minor subminor p2 major2 minor2 subminor2 =
     bindA (dispatch_init H) (\<lambda>_. bindA (getsA AvailabilityVersionCheck) (\<lambda>avail.
       if \<not> avail then
         if p = 1 then isOSVersionAtLeast H major minor subminor
         else if p2 = 1 then isOSVersionAtLeast H major2 minor2 subminor2
         else liftA (Inl (Aborted ''unexpected platform''))
       else retA (if check [(p, ConstructVersion major minor subminor),
         (p2, ConstructVersion major2 minor2 subminor2)] then 1 else 0)))"

section \<open>Lemmas\<close>

lemma scan_version_keeps [simp]:
  "held (scan_version str s) = held s" "AvailabilityVersionCheck (scan_version str s) = AvailabilityVersionCheck s"
  "DispatchOnce (scan_version str s) = DispatchOnce s"
  "CompatibilityDispatchOnce (scan_version str s) = CompatibilityDispatchOnce s"
  by (simp_all add: scan_version_def Let_def)

text \<open>
  The version the list gives: that of its text if every step succeeds, otherwise what was
  there before.
\<close>

definition plist_text :: "plist_host \<Rightarrow> string option" where
  "plist_text H =
     (if list_all (has_symbol H) cf_symbols \<and>
        (has_symbol H ''CFPropertyListCreateWithData'' \<or> has_symbol H ''CFPropertyListCreateFromXMLData'') \<and>
        opens H \<and> 0 \<le> file_size H \<and> has_memory H \<and> int (num_read H) = file_size H \<and> makes_contents H \<and>
        parses H \<and> makes_key H \<and> dict_value H = Some True
      then value_text H else None)"

definition read_version :: "plist_host \<Rightarrow> version_state \<Rightarrow> version_state" where
  "read_version H s = (case plist_text H of None \<Rightarrow> s | Some str \<Rightarrow> scan_version str s)"

lemma scan_version_held: "scan_version str (s\<lparr>held := R\<rparr>) = (scan_version str s)\<lparr>held := R\<rparr>"
  by (simp add: scan_version_def Let_def)

text \<open>Reading the list gives back all it takes, wherever it stops.\<close>

lemma read_plist_run:
  assumes "held s = {R_file}"
  shows "bindA (read_plist H) plist_fail s =
    (Inr (), (if 0 \<le> file_size H \<and> has_memory H \<and> int (num_read H) = file_size H \<and> makes_contents H \<and>
        parses H \<and> makes_key H \<and> dict_value H = Some True
      then case value_text H of None \<Rightarrow> s | Some str \<Rightarrow> scan_version str s else s)\<lparr>held := {}\<rparr>)"
proof -
  note steps = read_plist_def plist_fail_def no_locals_def acquire_def release_def bindA_def Let_def
    scan_version_held assms
  consider "file_size H < 0" | "0 \<le> file_size H" "\<not> has_memory H"
    | "0 \<le> file_size H" "has_memory H" "int (num_read H) \<noteq> file_size H"
    | "0 \<le> file_size H" "has_memory H" "int (num_read H) = file_size H" "\<not> makes_contents H"
    | "0 \<le> file_size H" "has_memory H" "int (num_read H) = file_size H" "makes_contents H" "\<not> parses H"
    | "0 \<le> file_size H" "has_memory H" "int (num_read H) = file_size H" "makes_contents H" "parses H" "\<not> makes_key H"
    | (key) "0 \<le> file_size H" "has_memory H" "int (num_read H) = file_size H" "makes_contents H" "parses H" "makes_key H"
    by linarith
  then show ?thesis
  proof cases
    case key
    then have "\<not> file_size H < 0" by simp
    with key show ?thesis
      by (cases "dict_value H = Some True"; cases "value_text H")
        (simp_all add: steps insert_Diff_if insert_commute)
  qed (simp_all add: steps)
qed

lemma initialize_run:
  assumes "held s = {}" and "\<not> AvailabilityVersionCheck s"
  shows "initializeAvailabilityCheck H load s = (Inr (), read_version H s)"
proof -
  have s: "s\<lparr>AvailabilityVersionCheck := False\<rparr> = s" "s\<lparr>held := {}\<rparr> = s" using assms by simp_all
  define missing where "missing \<longleftrightarrow> \<not> list_all (has_symbol H) cf_symbols \<or>
    \<not> (has_symbol H ''CFPropertyListCreateWithData'' \<or> has_symbol H ''CFPropertyListCreateFromXMLData'')"
  show ?thesis
  proof (cases "missing \<or> \<not> opens H")
    case True
    then show ?thesis
      by (auto simp: initializeAvailabilityCheck_def read_version_def plist_text_def missing_def acquire_def
          bindA_def s assms(2) Let_def)
  next
    case False
    have "held (s\<lparr>held := {R_file}\<rparr>) = {R_file}" by simp
    note run = read_plist_run [OF this, of H]
    have keep: "(scan_version str (s\<lparr>held := {R_file}\<rparr>))\<lparr>held := {}\<rparr> = scan_version str s" for str
      using scan_version_held [of str "{R_file}" s] scan_version_held [of str "{}" s] s(2) by simp
    have opened: "bindA (acquire R_file True) (\<lambda>f. if \<not> f then retA () else bindA (read_plist H) plist_fail) s =
        bindA (read_plist H) plist_fail (s\<lparr>held := {R_file}\<rparr>)"
      by (subst bindA_def) (simp add: acquire_def assms(1))
    from False show ?thesis
      by (auto simp: initializeAvailabilityCheck_def read_version_def plist_text_def missing_def opened
          s assms(2) run keep Let_def split: option.split)
  qed
qed

text \<open>The version as the file's variables have it, in lexicographic order.\<close>

definition os_version :: "version_state \<Rightarrow> int \<times> int \<times> int" where
  "os_version s = (sint (GlobalMajor s), sint (GlobalMinor s), sint (GlobalSubminor s))"

abbreviation at_least :: "u32 \<Rightarrow> u32 \<Rightarrow> u32 \<Rightarrow> version_state \<Rightarrow> int" where
  "at_least major minor subminor s \<equiv> (if (sint major, sint minor, sint subminor) \<le> os_version s then 1 else 0)"

lemma read_version_keeps [simp]:
  "held (read_version H s) = held s" "AvailabilityVersionCheck (read_version H s) = AvailabilityVersionCheck s"
  "DispatchOnce (read_version H s) = DispatchOnce s"
  "CompatibilityDispatchOnce (read_version H s) = CompatibilityDispatchOnce s"
  by (simp_all add: read_version_def split: option.split)

lemma read_version_flags:
  "read_version H (s\<lparr>CompatibilityDispatchOnce := b\<rparr>) = (read_version H s)\<lparr>CompatibilityDispatchOnce := b\<rparr>"
  "read_version H (s\<lparr>DispatchOnce := b\<rparr>) = (read_version H s)\<lparr>DispatchOnce := b\<rparr>"
  by (simp_all add: read_version_def scan_version_def Let_def split: option.split)

lemma read_version_twice: "os_version (read_version H (read_version H s)) = os_version (read_version H s)"
  by (simp add: read_version_def os_version_def scan_version_def Let_def split: option.split)

lemma os_version_flags [simp]:
  "os_version (s\<lparr>CompatibilityDispatchOnce := b\<rparr>) = os_version s" "os_version (s\<lparr>DispatchOnce := b\<rparr>) = os_version s"
  by (simp_all add: os_version_def)

text \<open>A state between calls.\<close>

definition quiescent :: "version_state \<Rightarrow> bool" where
  "quiescent s \<longleftrightarrow> held s = {} \<and> \<not> AvailabilityVersionCheck s"

lemma os_check_run:
  assumes "quiescent s"
  shows "isOSVersionAtLeast H major minor subminor s =
    (let s' = (if CompatibilityDispatchOnce s then s else (read_version H s)\<lparr>CompatibilityDispatchOnce := True\<rparr>) in
     (Inr (at_least major minor subminor s'), s'))"
proof -
  have "initializeAvailabilityCheck H True (s\<lparr>CompatibilityDispatchOnce := True\<rparr>) =
      (Inr (), (read_version H s)\<lparr>CompatibilityDispatchOnce := True\<rparr>)"
    using assms by (subst initialize_run) (simp_all add: quiescent_def read_version_flags)
  then show ?thesis
    by (simp add: isOSVersionAtLeast_def bindA_def os_version_def less_eq_prod_simp Let_def)
qed

lemma dispatch_run:
  assumes "quiescent s"
  shows "dispatch_init H s =
    (Inr (), if DispatchOnce s then s else (read_version H s)\<lparr>DispatchOnce := True\<rparr>)"
  using assms by (simp add: dispatch_init_def initialize_run quiescent_def read_version_flags)

section \<open>Properties\<close>

text \<open>
  C27. The checks compare versions lexicographically with the one the system's list gives, read
  at the first call and then never again: whatever the platform and the newer interface that is
  switched off here, the answer is 1 or 0 accordingly; and wherever reading the list fails,
  the file, the buffer and the objects taken so far are given back.
\<close>

theorem platform_check_exact:
  assumes "held s = {}" and "\<not> AvailabilityVersionCheck s"
  shows "\<exists>s'. isPlatformVersionAtLeast H check p major minor subminor s =
      (Inr (if (sint major, sint minor, sint subminor) \<le> os_version s' then 1 else 0), s') \<and>
    isPlatformOrVariantPlatformVersionAtLeast H check 1 major minor subminor p2 major2 minor2 subminor2 s =
      isPlatformVersionAtLeast H check p major minor subminor s \<and>
    os_version s' = os_version (if DispatchOnce s \<and> CompatibilityDispatchOnce s then s else read_version H s) \<and>
    held s' = {} \<and> \<not> AvailabilityVersionCheck s' \<and> DispatchOnce s' \<and> CompatibilityDispatchOnce s'"
proof -
  have q: "quiescent s" using assms by (simp add: quiescent_def)
  define s1 where "s1 = (if DispatchOnce s then s else (read_version H s)\<lparr>DispatchOnce := True\<rparr>)"
  have q1: "quiescent s1" using assms by (simp add: s1_def quiescent_def)
  define s2 where "s2 = (if CompatibilityDispatchOnce s1 then s1 else (read_version H s1)\<lparr>CompatibilityDispatchOnce := True\<rparr>)"
  have "dispatch_init H s = (Inr (), s1)" using dispatch_run [OF q] by (simp add: s1_def)
  moreover have "isOSVersionAtLeast H major minor subminor s1 = (Inr (at_least major minor subminor s2), s2)"
    using os_check_run [OF q1] by (simp add: s2_def Let_def)
  ultimately have run: "isPlatformVersionAtLeast H check p major minor subminor s =
      (Inr (at_least major minor subminor s2), s2)"
    "isPlatformOrVariantPlatformVersionAtLeast H check 1 major minor subminor p2 major2 minor2 subminor2 s =
      (Inr (at_least major minor subminor s2), s2)"
    using q1 by (simp_all add: isPlatformVersionAtLeast_def isPlatformOrVariantPlatformVersionAtLeast_def
        bindA_def quiescent_def)
  moreover have "os_version s2 = os_version (if DispatchOnce s \<and> CompatibilityDispatchOnce s then s else read_version H s)"
    by (simp add: s2_def s1_def read_version_flags read_version_twice)
  moreover have "held s2 = {} \<and> \<not> AvailabilityVersionCheck s2 \<and> DispatchOnce s2 \<and> CompatibilityDispatchOnce s2"
    using q1 by (simp add: s2_def quiescent_def s1_def)
  ultimately show ?thesis by auto
qed

text \<open>macOS 10.10.5, asked at the start of the process.\<close>

definition yosemite :: plist_host where
  "yosemite = \<lparr>has_symbol = (\<lambda>_. True), opens = True, file_size = 480, has_memory = True, num_read = 480,
     makes_contents = True, parses = True, makes_key = True, dict_value = Some True,
     value_text = Some ''10.10.5''\<rparr>"

definition version0 :: version_state where
  "version0 = \<lparr>GlobalMajor = 0, GlobalMinor = 0, GlobalSubminor = 0, AvailabilityVersionCheck = False,
     DispatchOnce = False, CompatibilityDispatchOnce = False, held = {}\<rparr>"

lemma yosemite_version: "os_version (read_version yosemite version0) = (10, 10, 5)"
  by (simp add: read_version_def plist_text_def yosemite_def version0_def os_version_def scan_version_def cf_symbols_def
      scan_d_def is_digit_def is_space_def eval_nat_numeral of_char_def)

theorem platform_check_exact_witness:
  "\<exists>s'. isPlatformVersionAtLeast yosemite (\<lambda>_. False) 1 10 9 7 version0 = (Inr 1, s') \<and> os_version s' = (10, 10, 5)"
  using platform_check_exact [of version0 yosemite "\<lambda>_. False" 1 10 9 7 1 10 9 7] yosemite_version
  by (auto simp: version0_def)

end
