(* ===== verification/Pthread_Once.thy ===== *)
theory Pthread_Once
  imports Prelude
begin

text \<open>
  \<open>shim::pthread_once\<close> (src/src/pthreads.cpp): the control word goes from 0 through 1, while
  one thread runs the routine, to 2. The code of a thread is cut at its accesses to the
  control word; the steps of all threads interleave.
\<close>

section \<open>Threads and steps\<close>

datatype once_pc =
    At_cas
  | In_routine
  | At_store
  | Spinning
  | Returned

text \<open>\<open>runs\<close> counts the completed calls of the routine.\<close>

record once_state =
  control :: int
  runs :: nat
  onces :: "nat \<Rightarrow> once_pc"

abbreviation at :: "nat \<Rightarrow> once_pc \<Rightarrow> once_state \<Rightarrow> once_state" where
  "at t pc s \<equiv> s\<lparr>onces := (onces s)(t := pc)\<rparr>"

inductive once_step :: "once_state \<Rightarrow> once_state \<Rightarrow> bool" where
  won: "onces s t = At_cas \<Longrightarrow> control s = 0 \<Longrightarrow> once_step s (at t In_routine (s\<lparr>control := 1\<rparr>))"
| already: "onces s t = At_cas \<Longrightarrow> control s = 2 \<Longrightarrow> once_step s (at t Returned s)"
| lost: "onces s t = At_cas \<Longrightarrow> control s \<noteq> 0 \<Longrightarrow> control s \<noteq> 2 \<Longrightarrow> once_step s (at t Spinning s)"
| routine: "onces s t = In_routine \<Longrightarrow> once_step s (at t At_store (s\<lparr>runs := Suc (runs s)\<rparr>))"
| store: "onces s t = At_store \<Longrightarrow> once_step s (at t Returned (s\<lparr>control := 2\<rparr>))"
| spin: "onces s t = Spinning \<Longrightarrow> control s = 1 \<Longrightarrow> once_step s s"
| leave: "onces s t = Spinning \<Longrightarrow> control s \<noteq> 1 \<Longrightarrow> once_step s (at t Returned s)"

inductive_cases once_stepE: "once_step s s'"

definition once_start :: "once_state \<Rightarrow> bool" where
  "once_start s \<longleftrightarrow> control s = 0 \<and> runs s = 0 \<and> (\<forall>t. onces s t = At_cas)"

inductive once_reach :: "once_state \<Rightarrow> once_state \<Rightarrow> bool" for s0 where
  here: "once_reach s0 s0"
| step: "once_reach s0 s \<Longrightarrow> once_step s s' \<Longrightarrow> once_reach s0 s'"

section \<open>Invariant\<close>

text \<open>
  The control word tells the phase: nobody has won yet; one winner is inside and everyone
  else is at most waiting; the routine has run and nobody is inside.
\<close>

definition inside :: "once_pc \<Rightarrow> bool" where
  "inside pc \<longleftrightarrow> pc = In_routine \<or> pc = At_store"

definition waiting :: "once_pc \<Rightarrow> bool" where
  "waiting pc \<longleftrightarrow> pc = At_cas \<or> pc = Spinning"

definition phase_before :: "once_state \<Rightarrow> bool" where
  "phase_before s \<longleftrightarrow> control s = 0 \<and> runs s = 0 \<and> (\<forall>t. onces s t = At_cas)"

definition phase_running :: "once_state \<Rightarrow> nat \<Rightarrow> bool" where
  "phase_running s w \<longleftrightarrow> control s = 1 \<and> inside (onces s w) \<and>
     runs s = (if onces s w = At_store then 1 else 0) \<and> (\<forall>t. t \<noteq> w \<longrightarrow> waiting (onces s t))"

definition phase_after :: "once_state \<Rightarrow> bool" where
  "phase_after s \<longleftrightarrow> control s = 2 \<and> runs s = 1 \<and> (\<forall>t. \<not> inside (onces s t))"

definition once_inv :: "once_state \<Rightarrow> bool" where
  "once_inv s \<longleftrightarrow> phase_before s \<or> (\<exists>w. phase_running s w) \<or> phase_after s"

lemmas phase_defs = phase_before_def phase_running_def phase_after_def inside_def waiting_def

lemma before_step: "phase_before s \<Longrightarrow> once_step s s' \<Longrightarrow> \<exists>w. phase_running s' w"
  by (erule once_stepE) (auto simp: phase_defs)

lemma running_step:
  assumes "phase_running s w" and "once_step s s'"
  shows "phase_running s' w \<or> phase_after s'"
  using assms(2)
proof cases
  case (routine t)
  with assms(1) have "t = w" by (cases "t = w") (auto simp: phase_defs)
  with routine assms(1) show ?thesis by (auto simp: phase_defs)
next
  case (store t)
  with assms(1) have "t = w" by (cases "t = w") (auto simp: phase_defs)
  with store assms(1) show ?thesis by (auto simp: phase_defs)
qed (use assms(1) in \<open>auto simp: phase_defs\<close>)

lemma after_step: "phase_after s \<Longrightarrow> once_step s s' \<Longrightarrow> phase_after s'"
  by (erule once_stepE) (auto simp: phase_defs)

lemma once_inv_reach: "once_reach s0 s \<Longrightarrow> once_start s0 \<Longrightarrow> once_inv s"
proof (induction rule: once_reach.induct)
  case here
  then show ?case by (simp add: once_inv_def once_start_def phase_before_def)
next
  case (step s s')
  then show ?case unfolding once_inv_def using before_step running_step after_step by blast
qed

section \<open>Properties\<close>

text \<open>
  C3. The routine runs at most once, no call of \<open>pthread_once\<close> returns before it has run to
  its end, and at most one thread is inside at any time.
\<close>

theorem once_exactly_once:
  assumes "once_start s0" and "once_reach s0 s"
  shows "runs s \<le> 1 \<and> (onces s t = Returned \<longrightarrow> runs s = 1 \<and> control s = 2) \<and>
    (inside (onces s t) \<longrightarrow> inside (onces s t') \<longrightarrow> t = t')"
proof -
  from once_inv_reach [OF assms(2,1)] consider "phase_before s" | w where "phase_running s w" | "phase_after s"
    unfolding once_inv_def by blast
  then show ?thesis
  proof cases
    case (2 w)
    then have other: "u \<noteq> w \<Longrightarrow> waiting (onces s u)" for u by (simp add: phase_running_def)
    from 2 other [of t] other [of t'] show ?thesis
      by (cases "t = w"; cases "t' = w") (auto simp: phase_running_def inside_def waiting_def)
  qed (auto simp: phase_defs)
qed

text \<open>Two threads: the first wins and runs the routine while the second waits for it.\<close>

definition once0 :: once_state where
  "once0 = \<lparr>control = 0, runs = 0, onces = (\<lambda>_. At_cas)\<rparr>"

definition once_end :: once_state where
  "once_end = \<lparr>control = 2, runs = 1, onces = (\<lambda>_. At_cas)(1 := Returned, 2 := Returned)\<rparr>"

lemma once_start0: "once_start once0"
  by (simp add: once_start_def once0_def)

lemma once_run: "once_reach once0 once_end"
proof -
  define st where "st c r p q = \<lparr>control = c, runs = r, onces = (\<lambda>_. At_cas)(1 := p, 2 := q)\<rparr>"
    for c r p q
  have st: "control (st c r p q) = c" "onces (st c r p q) 1 = p" "onces (st c r p q) 2 = q"
    "onces (st c r p q) (Suc 0) = p" "runs (st c r p q) = r"
    "at (Suc 0) x (st c r p q) = st c r x q" "at 2 x (st c r p q) = st c r p x"
    "(st c r p q)\<lparr>control := d\<rparr> = st d r p q" "(st c r p q)\<lparr>runs := m\<rparr> = st c m p q" for c r p q x d m
    by (simp_all add: st_def fun_eq_iff)
  have "once0 = st 0 0 At_cas At_cas" "once_end = st 2 1 Returned Returned"
    by (auto simp: once0_def once_end_def st_def)
  moreover have "once_step (st 0 0 At_cas At_cas) (st 1 0 In_routine At_cas)"
    "once_step (st 1 0 In_routine At_cas) (st 1 0 In_routine Spinning)"
    "once_step (st 1 0 In_routine Spinning) (st 1 1 At_store Spinning)"
    "once_step (st 1 1 At_store Spinning) (st 2 1 Returned Spinning)"
    "once_step (st 2 1 Returned Spinning) (st 2 1 Returned Returned)"
    using won [of "st 0 0 At_cas At_cas" 1] lost [of "st 1 0 In_routine At_cas" 2]
      routine [of "st 1 0 In_routine Spinning" 1] store [of "st 1 1 At_store Spinning" 1]
      leave [of "st 2 1 Returned Spinning" 2] by (simp_all add: st)
  ultimately show ?thesis by (metis once_reach.intros)
qed

theorem once_exactly_once_witness: "runs once_end = 1 \<and> control once_end = 2"
  using once_exactly_once [OF once_start0 once_run, of 1] by (simp add: once_end_def)

text \<open>
  C28. A thread that has not returned either can leave now or waits for a winner that can
  itself move on: the system never deadlocks while the routine runs, and once the routine is
  done every thread can return with its next step.
\<close>

theorem once_progress:
  assumes "once_start s0" and "once_reach s0 s" and "onces s t \<noteq> Returned"
  shows "(\<exists>s'. once_step s s' \<and> onces s' t \<noteq> onces s t \<and> (control s = 2 \<longrightarrow> onces s' t = Returned)) \<or>
    (onces s t = Spinning \<and> control s = 1 \<and>
      (\<exists>w s'. w \<noteq> t \<and> inside (onces s w) \<and> once_step s s' \<and> onces s' w \<noteq> onces s w))"
proof -
  have move: "\<exists>s'. once_step s s' \<and> onces s' u \<noteq> onces s u" if "inside (onces s u)" for u
    using that routine [of s u] store [of s u] by (auto simp: inside_def)
  note inv = once_inv_reach [OF assms(2,1)]
  show ?thesis
  proof (cases "onces s t")
    case At_cas
    consider "control s = 0" | "control s = 2" | "control s \<noteq> 0" "control s \<noteq> 2" by blast
    then show ?thesis
      by cases (use At_cas won [of s t] already [of s t] lost [of s t] in force)+
  next
    case Spinning
    from inv consider "phase_before s" | w where "phase_running s w" | "phase_after s"
      unfolding once_inv_def by blast
    then show ?thesis
    proof cases
      case (2 w)
      with Spinning have "w \<noteq> t" "inside (onces s w)" "control s = 1" by (auto simp: phase_defs)
      with move [of w] Spinning show ?thesis by blast
    next
      case 3
      with Spinning leave [of s t] show ?thesis by (force simp: phase_defs)
    qed (use Spinning in \<open>simp add: phase_defs\<close>)
  next
    case In_routine
    with inv have "control s = 1" unfolding once_inv_def by (auto simp: phase_defs)
    with move [of t] In_routine show ?thesis by (force simp: inside_def)
  next
    case At_store
    with inv have "control s = 1" unfolding once_inv_def by (auto simp: phase_defs)
    with move [of t] At_store show ?thesis by (force simp: inside_def)
  qed (use assms(3) in simp)
qed

theorem once_progress_witness: "\<exists>s'. once_step once0 s' \<and> onces s' 5 \<noteq> At_cas"
  using once_progress [OF once_start0 once_reach.here, of 5] by (auto simp: once0_def)

end
