(* ===== verification/Time.thy ===== *)
theory Time
  imports Prelude
begin

text \<open>
  Clocks and calendar time: the clock functions and the TZ variable of
  src/src/common.cpp, and the argument rewriting of \<open>tm\<close> in src/src/common.h. A
  \<open>timespec\<close> is ordered as the code compares it, seconds first.
\<close>

section \<open>Time values\<close>

datatype timespec = Timespec (ts_sec: int) (ts_nsec: int)

instantiation timespec :: linorder
begin

definition less_timespec :: "timespec \<Rightarrow> timespec \<Rightarrow> bool" where
  "less_timespec a b \<longleftrightarrow> ts_sec a < ts_sec b \<or> ts_sec a = ts_sec b \<and> ts_nsec a < ts_nsec b"

definition less_eq_timespec :: "timespec \<Rightarrow> timespec \<Rightarrow> bool" where
  "less_eq_timespec a b \<longleftrightarrow> ts_sec a < ts_sec b \<or> ts_sec a = ts_sec b \<and> ts_nsec a \<le> ts_nsec b"

instance
  by standard (auto simp: less_timespec_def less_eq_timespec_def timespec.expand)

end

text \<open>The instant in nanoseconds, and the normal form in which the nanoseconds are below a second.\<close>

definition instant :: "timespec \<Rightarrow> int" where
  "instant t = ts_sec t * 1000000000 + ts_nsec t"

definition normal_time :: "timespec \<Rightarrow> bool" where
  "normal_time t \<longleftrightarrow> 0 \<le> ts_nsec t \<and> ts_nsec t < 1000000000"

lemma less_iff_instant:
  "normal_time a \<Longrightarrow> normal_time b \<Longrightarrow> a < b \<longleftrightarrow> instant a < instant b"
  by (auto simp: less_timespec_def instant_def normal_time_def)

record timeval =
  tv_sec :: int
  tv_usec :: int

section \<open>Clocks\<close>

definition to_host_clock_type :: "os \<Rightarrow> headers \<Rightarrow> int \<Rightarrow> int result" where
  "to_host_clock_type os h type =
     or_throw (guest_case h [(0, ''CLOCK_REALTIME''), (1, ''CLOCK_MONOTONIC''),
       (7, if os = Apple then ''CLOCK_MONOTONIC'' else ''CLOCK_BOOTTIME'')] type)
     ''Unexpected clock type %d'' [type]"

text \<open>
  The host's clocks: the POSIX calls, and the Mach services (the argument selects the system
  clock or the calendar clock) that macOS before 10.12 has instead.
\<close>

record 'w clock_host =
  h_clock_getres :: "int \<Rightarrow> 'w \<Rightarrow> (int \<times> timespec) \<times> 'w"
  h_clock_gettime :: "int \<Rightarrow> 'w \<Rightarrow> (int \<times> timespec) \<times> 'w"
  h_get_clock_service :: "bool \<Rightarrow> 'w \<Rightarrow> int \<times> 'w"
  h_clock_get_time :: "bool \<Rightarrow> 'w \<Rightarrow> (int \<times> timespec) \<times> 'w"
  h_gettimeofday :: "'w \<Rightarrow> (int \<times> timeval) \<times> 'w"

definition clock_getres :: "os \<Rightarrow> headers \<Rightarrow> 'w clock_host \<Rightarrow> int \<Rightarrow> ('w, int \<times> timespec) act" where
  "clock_getres os h H clock w =
     (case to_host_clock_type os h clock of Inl e \<Rightarrow> (Inl e, w)
      | Inr c \<Rightarrow> let (r, w) = h_clock_getres H c w in (Inr r, w))"

definition clock_gettime ::
  "os \<Rightarrow> headers \<Rightarrow> bool \<Rightarrow> 'w clock_host \<Rightarrow> int \<Rightarrow> timespec \<Rightarrow> ('w, int \<times> timespec) act" where
  "clock_gettime os h symbol_missing H clock ts w =
     (if os = Apple \<and> symbol_missing then
        (let (r, w) = h_get_clock_service H (clock = 1) w in
         if r \<noteq> h ''KERN_SUCCESS'' then (Inr (- 1, ts), w)
         else let ((r, mts), w) = h_clock_get_time H (clock = 1) w in
              if r \<noteq> h ''KERN_SUCCESS'' then (Inr (- 1, ts), w) else (Inr (0, mts), w))
      else
        (case to_host_clock_type os h clock of Inl e \<Rightarrow> (Inl e, w)
         | Inr c \<Rightarrow> let (r, w) = h_clock_gettime H c w in (Inr r, w)))"

text \<open>\<open>p\<close> is the address of the second argument.\<close>

definition gettimeofday :: "'w clock_host \<Rightarrow> nat \<Rightarrow> ('w, int \<times> timeval) act" where
  "gettimeofday H p w =
     (if p \<noteq> 0 then (Inl (Runtime_error ''gettimeofday adtimezone is not supported'' []), w)
      else let ((ret, htv), w) = h_gettimeofday H w in
           (Inr (ret, \<lparr>tv_sec = tv_sec htv, tv_usec = tv_usec htv\<rparr>), w))"

text \<open>
  The Mach fallback answers for every clock but the monotonic one with the calendar clock,
  the boot-time clock included, and for numbers that are no clock.
\<close>

lemma fallback_boottime:
  "clock_gettime Apple h True H 7 ts w = clock_gettime Apple h True H 0 ts w"
  "clock_gettime Apple h True H 99 ts w = clock_gettime Apple h True H 0 ts w"
  by (simp_all add: clock_gettime_def split: prod.split)

section \<open>Daylight saving in a broken-down time\<close>

record tm =
  tm_sec :: int
  tm_min :: int
  tm_hour :: int
  tm_mday :: int
  tm_mon :: int
  tm_year :: int
  tm_wday :: int
  tm_yday :: int
  tm_isdst :: int
  tm_gmtoff :: int
  tm_zone :: string

definition flip_dst :: "tm \<Rightarrow> tm" where
  "flip_dst t = (if tm_isdst t = 1 then t\<lparr>tm_isdst := 0\<rparr> else if tm_isdst t = 0 then t\<lparr>tm_isdst := 1\<rparr> else t)"

text \<open>
  \<open>tm_detail\<close>: the host is given a flipped copy; with a pointer to non-constant the copy
  is flipped back into the guest's object afterwards. \<open>None\<close> is the null pointer.
\<close>

definition tm_before :: "tm option \<Rightarrow> tm option" where
  "tm_before src = map_option flip_dst src"

definition tm_after :: "tm option \<Rightarrow> tm option \<Rightarrow> tm option" where
  "tm_after src loc = (case src of None \<Rightarrow> None | Some _ \<Rightarrow> map_option flip_dst loc)"

definition tm_after_const :: "tm option \<Rightarrow> tm option \<Rightarrow> tm option" where
  "tm_after_const src loc = src"

lemma flip_dst_flip: "flip_dst (flip_dst t) = t"
  by (simp add: flip_dst_def)

lemma tm_untouched: "tm_after src (tm_before src) = src"
  by (cases src) (simp_all add: tm_after_def tm_before_def flip_dst_flip)

section \<open>The time zone string\<close>

text \<open>
  \<open>add_time_shimmed_symbols\<close> fixes the process's time zone as an offset without rules:
  \<open>sprintf(buf, "<%.5s>%c%02d:%02d:%02d", ...)\<close> into a buffer of 20 bytes.
\<close>

definition digit :: "nat \<Rightarrow> char" where
  "digit d = char_of (48 + d)"

fun decimal :: "nat \<Rightarrow> string" where
  "decimal n = (if n < 10 then [] else decimal (n div 10)) @ [digit (n mod 10)]"

declare decimal.simps [simp del]

definition pad2 :: "nat \<Rightarrow> string" where
  "pad2 n = (let s = decimal n in if length s < 2 then CHR ''0'' # s else s)"

definition tz_text :: "string \<Rightarrow> int \<Rightarrow> string" where
  "tz_text zone gmtoff =
     (let s = nat (if 0 \<le> gmtoff then gmtoff else - gmtoff);
          m = s div 60; s = s - m * 60;
          h = m div 60; m = m - h * 60
      in ''<'' @ take 5 zone @ ''>'' @ [if 0 < gmtoff then CHR ''-'' else CHR ''+''] @
         pad2 h @ '':'' @ pad2 m @ '':'' @ pad2 s)"

definition tz_string :: "string \<Rightarrow> int \<Rightarrow> string result" where
  "tz_string zone gmtoff =
     (let s = tz_text zone gmtoff in if length s + 1 \<le> 20 then Inr s else Inl Memory_fault)"

text \<open>
  How POSIX reads such a string: the quoted name, then the time to add to local time to get
  UTC.
\<close>

definition digit_value :: "char \<Rightarrow> nat" where
  "digit_value c = of_char c - 48"

definition posix_tz :: "string \<Rightarrow> (string \<times> int) option" where
  "posix_tz s =
     (let name = takeWhile (\<lambda>c. c \<noteq> CHR ''>'') (tl s) in
      case drop (length name + 2) s of
        [sg, h1, h2, k1, m1, m2, k2, s1, s2] \<Rightarrow>
          let t = int ((digit_value h1 * 10 + digit_value h2) * 3600 +
            (digit_value m1 * 10 + digit_value m2) * 60 + digit_value s1 * 10 + digit_value s2)
          in Some (name, if sg = CHR ''-'' then - t else t)
      | _ \<Rightarrow> None)"

lemma digit_value_digit [simp]: "d < 10 \<Longrightarrow> digit_value (digit d) = d"
  by (simp add: digit_value_def digit_def take_bit_eq_mod)

lemma digit_0: "digit 0 = CHR ''0''"
  by code_simp

lemma pad2_digits: "n < 100 \<Longrightarrow> pad2 n = [digit (n div 10), digit (n mod 10)]"
proof -
  assume n: "n < 100"
  have "decimal n = [digit n]" if "n < 10" using that by (subst decimal.simps) simp
  moreover have "decimal n = [digit (n div 10), digit (n mod 10)]" if "\<not> n < 10"
  proof -
    from n have "n div 10 < 10" by auto
    then have "decimal (n div 10) = [digit (n div 10)]" by (subst decimal.simps) simp
    with that show ?thesis by (subst decimal.simps) simp
  qed
  ultimately show ?thesis
    by (cases "n < 10") (simp_all add: pad2_def digit_0)
qed

text \<open>Splitting seconds into hours, minutes and seconds loses nothing.\<close>

lemma hms: "((t div 60 div 60) * 3600 + (t div 60 - t div 60 div 60 * 60) * 60 + (t - t div 60 * 60) :: nat) = t"
proof -
  have "t div 60 div 60 * 60 \<le> t div 60" "t div 60 * 60 \<le> t" by simp_all
  then show ?thesis by (simp add: algebra_simps)
qed

lemma tz_text_shape:
  assumes "\<bar>off\<bar> < 360000"
  defines "t \<equiv> nat \<bar>off\<bar>"
  defines "hh \<equiv> t div 60 div 60" and "mm \<equiv> t div 60 - t div 60 div 60 * 60" and "ss \<equiv> t - t div 60 * 60"
  shows "hh < 100" "mm < 60" "ss < 60"
    "tz_text zone off = ''<'' @ take 5 zone @ ''>'' @ [if 0 < off then CHR ''-'' else CHR ''+'',
       digit (hh div 10), digit (hh mod 10), CHR '':'', digit (mm div 10), digit (mm mod 10), CHR '':'',
       digit (ss div 10), digit (ss mod 10)]"
proof -
  have "t < 360000" using assms(1) by (simp add: t_def)
  then show hh: "hh < 100" by (simp add: hh_def)
  show mm: "mm < 60" by (simp add: mm_def)
  show ss: "ss < 60" by (simp add: ss_def)
  have t: "nat (if 0 \<le> off then off else - off) = t" by (simp add: t_def abs_if)
  have h2: "pad2 hh = [digit (hh div 10), digit (hh mod 10)]" by (rule pad2_digits [OF hh])
  have m2: "pad2 mm = [digit (mm div 10), digit (mm mod 10)]" by (rule pad2_digits) (use mm in simp)
  have s2: "pad2 ss = [digit (ss div 10), digit (ss mod 10)]" by (rule pad2_digits) (use ss in simp)
  show "tz_text zone off = ''<'' @ take 5 zone @ ''>'' @ [if 0 < off then CHR ''-'' else CHR ''+'',
       digit (hh div 10), digit (hh mod 10), CHR '':'', digit (mm div 10), digit (mm mod 10), CHR '':'',
       digit (ss div 10), digit (ss mod 10)]"
    unfolding tz_text_def t Let_def unfolding mm_def [symmetric] ss_def [symmetric]
    unfolding hh_def [symmetric] h2 m2 s2 by simp
qed

section \<open>Properties\<close>



end
