(* ===== verification/Pthread.thy ===== *)
theory Pthread
  imports Lazy_Init Errno Time
begin

text \<open>
  The sequential side of src/src/pthreads.cpp: attributes, scheduling, the explicit
  initialisation, use and destruction of synchronisation objects, thread-specific keys and
  cleanup handlers. Races of the first use are in Lazy_Init, \<open>pthread_once\<close> is in
  Pthread_Once. Host calls are parameters; a host object is a value \<open>'o\<close> they transform.
\<close>

section \<open>Attributes\<close>

record pthread_attr =
  detached :: bool
  user_stack :: bool
  stack_base :: u64
  stack_size :: u64
  guard_size :: u64
  sched_policy :: int
  sched_priority :: int

definition pthread_attr_init :: pthread_attr where
  "pthread_attr_init = \<lparr>detached = False, user_stack = False, stack_base = 0, stack_size = 0,
     guard_size = 0, sched_policy = 0, sched_priority = 0\<rparr>"

definition pthread_attr_destroy :: "pthread_attr \<Rightarrow> int \<times> pthread_attr" where
  "pthread_attr_destroy attr = (0, attr)"

text \<open>The host's \<open>EINVAL\<close> is returned untranslated.\<close>

definition pthread_attr_setdetachstate :: "headers \<Rightarrow> pthread_attr \<Rightarrow> int \<Rightarrow> int \<times> pthread_attr" where
  "pthread_attr_setdetachstate h attr v =
     (if v \<noteq> 0 \<and> v \<noteq> 1 then (h ''EINVAL'', attr) else (0, attr\<lparr>detached := (v \<noteq> 0)\<rparr>))"

definition pthread_attr_getdetachstate :: "pthread_attr \<Rightarrow> int" where
  "pthread_attr_getdetachstate attr = (if detached attr then 1 else 0)"

definition pthread_attr_setschedparam :: "pthread_attr \<Rightarrow> int \<Rightarrow> int \<times> pthread_attr" where
  "pthread_attr_setschedparam attr prio = (0, attr\<lparr>sched_priority := prio\<rparr>)"

definition pthread_attr_getschedparam :: "pthread_attr \<Rightarrow> int" where
  "pthread_attr_getschedparam attr = sched_priority attr"

definition pthread_attr_setstacksize :: "headers \<Rightarrow> pthread_attr \<Rightarrow> u64 \<Rightarrow> int \<times> pthread_attr" where
  "pthread_attr_setstacksize h attr v =
     (if uint v < h ''PTHREAD_STACK_MIN'' then (0, attr) else (0, attr\<lparr>stack_size := v\<rparr>))"

definition pthread_attr_getstack :: "pthread_attr \<Rightarrow> u64 \<times> u64" where
  "pthread_attr_getstack attr = (stack_base attr, stack_size attr)"

definition pthread_attr_getstacksize :: "pthread_attr \<Rightarrow> u64" where
  "pthread_attr_getstacksize attr = stack_size attr"

text \<open>
  \<open>host_pthread_attr\<close>: the setter calls its constructor makes on a fresh host attribute
  object, whose results it does not look at.
\<close>

datatype host_attr_call = Set_detachstate int | Set_stacksize u64 | Set_priority int

definition host_pthread_attr :: "headers \<Rightarrow> pthread_attr option \<Rightarrow> host_attr_call list" where
  "host_pthread_attr h bionic_attr =
     (case bionic_attr of None \<Rightarrow> []
      | Some a \<Rightarrow>
          [Set_detachstate (if detached a then h ''PTHREAD_CREATE_DETACHED'' else h ''PTHREAD_CREATE_JOINABLE'')] @
          (if stack_size a \<noteq> 0 then [Set_stacksize (stack_size a)] else []) @
          (if sched_priority a \<noteq> 0 then [Set_priority (sched_priority a)] else []))"

definition pthread_create ::
  "os \<Rightarrow> headers \<Rightarrow> (host_attr_call list \<Rightarrow> 'f \<Rightarrow> 'w \<Rightarrow> int \<times> 'w) \<Rightarrow> pthread_attr option \<Rightarrow> 'f \<Rightarrow> ('w, int) act" where
  "pthread_create os h host attr fn w =
     (let (ret, w) = host (host_pthread_attr h attr) fn w in (Inr (translate_errno_from_host os h ret), w))"

text \<open>
  Of the host attributes of a running thread, what \<open>pthread_getattr_np\<close> reads; on Apple, where
  the stack address is the upper end, there is no detach state to read.
\<close>

record host_thread_attr =
  ht_detach :: int
  ht_priority :: int
  ht_stackaddr :: u64
  ht_stacksize :: u64

definition pthread_getattr_np ::
  "os \<Rightarrow> headers \<Rightarrow> int \<times> host_thread_attr \<Rightarrow> pthread_attr \<Rightarrow> int \<times> pthread_attr" where
  "pthread_getattr_np os h host attr =
     (let (ret, ha) = host in
      if os = Apple then
        (if ret \<noteq> 0 then (translate_errno_from_host os h ret, pthread_attr_init)
         else (0, pthread_attr_init\<lparr>sched_priority := ht_priority ha,
           stack_base := ht_stackaddr ha - ht_stacksize ha, stack_size := ht_stacksize ha\<rparr>))
      else if ret \<noteq> 0 then (translate_errno_from_host os h ret, attr)
      else (0, (snd (pthread_attr_setdetachstate h pthread_attr_init (ht_detach ha)))
        \<lparr>sched_priority := ht_priority ha, stack_base := ht_stackaddr ha, stack_size := ht_stacksize ha\<rparr>))"

section \<open>Scheduling\<close>

definition to_host_sched_policy :: "headers \<Rightarrow> int \<Rightarrow> int result" where
  "to_host_sched_policy h p =
     or_throw (guest_case h [(0, ''SCHED_OTHER''), (1, ''SCHED_FIFO'')] p) ''Invalid sched policy'' []"

definition from_host_sched_policy :: "headers \<Rightarrow> int \<Rightarrow> int" where
  "from_host_sched_policy h p = (if p = h ''SCHED_OTHER'' then 0 else - 1)"

text \<open>The host's pair of calls: \<open>getp\<close> yields a code, policy and priority, \<open>setp\<close> a code.\<close>

definition pthread_setschedparam ::
  "os \<Rightarrow> headers \<Rightarrow> ('w \<Rightarrow> int \<times> int \<times> int) \<Rightarrow> (int \<Rightarrow> int \<Rightarrow> 'w \<Rightarrow> int \<times> 'w) \<Rightarrow> int \<Rightarrow> int \<Rightarrow> ('w, int) act" where
  "pthread_setschedparam os h getp setp policy prio w =
     (let (ret, hpolicy, _) = getp w in
      if ret \<noteq> 0 then (Inr (translate_errno_from_host os h ret), w)
      else case (if policy \<noteq> - 1 then to_host_sched_policy h policy else Inr hpolicy) of
          Inl e \<Rightarrow> (Inl e, w)
        | Inr hpolicy \<Rightarrow>
            let (ret, w) = setp hpolicy prio w in (Inr (translate_errno_from_host os h ret), w))"

definition pthread_getschedparam ::
  "os \<Rightarrow> headers \<Rightarrow> int \<times> int \<times> int \<Rightarrow> int \<times> int \<Rightarrow> int \<times> int \<times> int" where
  "pthread_getschedparam os h host out =
     (let (ret, hpolicy, hprio) = host in
      if ret \<noteq> 0 then (translate_errno_from_host os h ret, out)
      else (0, from_host_sched_policy h hpolicy, hprio))"

section \<open>Mutex and condition attributes\<close>

definition to_host_mutex_type :: "headers \<Rightarrow> int \<Rightarrow> int result" where
  "to_host_mutex_type h type =
     or_throw (guest_case h [(0, ''PTHREAD_MUTEX_NORMAL''), (1, ''PTHREAD_MUTEX_RECURSIVE''),
       (2, ''PTHREAD_MUTEX_ERRORCHECK'')] type) ''Invalid mutex type'' []"

definition pthread_mutexattr_init :: int where
  "pthread_mutexattr_init = 0"

definition pthread_mutexattr_settype :: "headers \<Rightarrow> int \<Rightarrow> int \<Rightarrow> int \<times> int" where
  "pthread_mutexattr_settype h attr type =
     (if type < 0 \<or> type > 2 then (h ''EINVAL'', attr) else (0, type))"

definition pthread_mutexattr_gettype :: "int \<Rightarrow> int" where
  "pthread_mutexattr_gettype attr = attr"

definition pthread_mutexattr_destroy :: "int \<Rightarrow> int \<times> int" where
  "pthread_mutexattr_destroy attr = (0, attr)"

definition pthread_condattr_init :: int where
  "pthread_condattr_init = 1"

definition pthread_condattr_setclock :: "os \<Rightarrow> headers \<Rightarrow> int \<Rightarrow> int \<Rightarrow> int \<times> int" where
  "pthread_condattr_setclock os h attr clock =
     (if clock \<noteq> 1 \<and> clock \<noteq> 0 then (translate_errno_from_host os h (h ''EINVAL''), attr) else (0, clock))"

definition pthread_condattr_getclock :: "int \<Rightarrow> int" where
  "pthread_condattr_getclock attr = attr"

definition pthread_condattr_destroy :: "int \<Rightarrow> int \<times> int" where
  "pthread_condattr_destroy attr = (0, attr)"

text \<open>
  What the host's initialiser is given: \<open>Some\<close> the translated setting, or \<open>None\<close> for an
  attribute object left at its defaults.
\<close>

definition host_mutexattr :: "headers \<Rightarrow> int option \<Rightarrow> int option result" where
  "host_mutexattr h attr =
     (case attr of None \<Rightarrow> Inr None | Some t \<Rightarrow> bindR (to_host_mutex_type h t) (\<lambda>t. Inr (Some t)))"

definition host_condattr :: "os \<Rightarrow> headers \<Rightarrow> int option \<Rightarrow> int option result" where
  "host_condattr os h attr =
     (case attr of None \<Rightarrow> Inr None
      | Some c \<Rightarrow> if os = Apple then Inr None else bindR (to_host_clock_type os h c) (\<lambda>c. Inr (Some c)))"

section \<open>Synchronisation objects\<close>

text \<open>
  The payload words of the guest's objects by their addresses, the live host objects, and
  the next address \<open>malloc\<close> returns.
\<close>

record 'o sync_state =
  payload :: "u64 \<Rightarrow> u64"
  live :: "u64 \<Rightarrow> 'o option"
  brk_ptr :: u64

text \<open>
  The host's functions on one kind of object: initialisation from an attribute or from a
  static initialiser, and destruction, each with its error code.
\<close>

record 'o host_sync =
  hs_init :: "int option \<Rightarrow> int \<times> 'o"
  hs_static :: "host_kind \<Rightarrow> int \<times> 'o"
  hs_destroy :: "'o \<Rightarrow> int"

definition malloc_obj :: "'o \<Rightarrow> ('o sync_state, u64) act" where
  "malloc_obj ob s =
     (Inr (brk_ptr s), s\<lparr>live := (live s)(brk_ptr s \<mapsto> ob), brk_ptr := brk_ptr s + 0x100\<rparr>)"

definition free_obj :: "u64 \<Rightarrow> ('o sync_state, unit) act" where
  "free_obj q s =
     (if live s q = None then (Inl Memory_fault, s) else (Inr (), s\<lparr>live := (live s)(q := None)\<rparr>))"

definition set_payload :: "u64 \<Rightarrow> u64 \<Rightarrow> ('o sync_state, unit) act" where
  "set_payload p v = modifyA (\<lambda>s. s\<lparr>payload := (payload s)(p := v)\<rparr>)"

text \<open>
  The common body of \<open>pthread_mutex_init\<close>, \<open>pthread_cond_init\<close> and \<open>pthread_rwlock_init\<close> after
  the attribute was converted; \<open>p\<close> is the address of the payload word.
\<close>

definition init_object ::
  "(int \<Rightarrow> int) \<Rightarrow> 'o host_sync \<Rightarrow> u64 \<Rightarrow> int option \<Rightarrow> ('o sync_state, int) act" where
  "init_object tr host p hattr =
     (let (ret, ob) = hs_init host hattr in
      bindA (malloc_obj ob) (\<lambda>q.
        if ret \<noteq> 0 then bindA (free_obj q) (\<lambda>_. retA (tr ret))
        else bindA (set_payload p q) (\<lambda>_. retA (tr 0))))"

definition destroy_object ::
  "(int \<Rightarrow> int) \<Rightarrow> lazy_code \<Rightarrow> 'o host_sync \<Rightarrow> u64 \<Rightarrow> ('o sync_state, int) act" where
  "destroy_object tr C host p =
     bindA (getsA (\<lambda>s. payload s p)) (\<lambda>v.
       if \<not> initialized C v then retA 0
       else bindA (getsA (\<lambda>s. live s v)) (\<lambda>ob.
         case ob of None \<Rightarrow> liftA (Inl Memory_fault)
         | Some ob \<Rightarrow>
             bindA (set_payload p 0) (\<lambda>_. bindA (free_obj v) (\<lambda>_. retA (tr (hs_destroy host ob))))))"

text \<open>\<open>bionic::to_host\<close> without interference of other threads; \<open>w0\<close> is the static initialiser.\<close>

definition to_host_object :: "lazy_code \<Rightarrow> 'o host_sync \<Rightarrow> u64 \<Rightarrow> u64 \<Rightarrow> ('o sync_state, u64) act" where
  "to_host_object C host p w0 =
     bindA (getsA (\<lambda>s. payload s p)) (\<lambda>v.
       if initialized C v then retA v
       else if p mod ptr_align C \<noteq> 0 then liftA (Inl (Runtime_error (unaligned_msg C) []))
       else let (ret, ob) = hs_static host (flavour C (if lp64 C then w0 else v)) in
         bindA (malloc_obj ob) (\<lambda>q.
           if ret \<noteq> 0 then liftA (Inl (Runtime_error (init_msg C) []))
           else bindA (set_payload p q) (\<lambda>_. retA q)))"

text \<open>A host call on a live object.\<close>

definition on_object :: "u64 \<Rightarrow> ('o \<Rightarrow> int \<times> 'o) \<Rightarrow> ('o sync_state, int) act" where
  "on_object q f s =
     (case live s q of None \<Rightarrow> (Inl Memory_fault, s)
      | Some ob \<Rightarrow> let (ret, ob) = f ob in (Inr ret, s\<lparr>live := (live s)(q \<mapsto> ob)\<rparr>))"

definition pthread_mutex_init ::
  "os \<Rightarrow> headers \<Rightarrow> 'o host_sync \<Rightarrow> u64 \<Rightarrow> int option \<Rightarrow> ('o sync_state, int) act" where
  "pthread_mutex_init os h host p attr =
     bindA (liftA (host_mutexattr h attr)) (init_object (translate_errno_from_host os h) host p)"

definition pthread_mutex_destroy ::
  "os \<Rightarrow> headers \<Rightarrow> bool \<Rightarrow> 'o host_sync \<Rightarrow> u64 \<Rightarrow> ('o sync_state, int) act" where
  "pthread_mutex_destroy os h b64 host p =
     destroy_object (translate_errno_from_host os h) (mutex_code b64) host p"

text \<open>\<open>pthread_mutex_lock\<close>, \<open>unlock\<close> and \<open>trylock\<close> differ in the host call \<open>f\<close> only.\<close>

definition pthread_mutex_op ::
  "os \<Rightarrow> headers \<Rightarrow> bool \<Rightarrow> 'o host_sync \<Rightarrow> u64 \<Rightarrow> u64 \<Rightarrow> ('o \<Rightarrow> int \<times> 'o) \<Rightarrow> ('o sync_state, int) act" where
  "pthread_mutex_op os h b64 host p w0 f =
     bindA (to_host_object (mutex_code b64) host p w0) (\<lambda>q.
     bindA (on_object q f) (\<lambda>ret. retA (translate_errno_from_host os h ret)))"

definition pthread_cond_init ::
  "os \<Rightarrow> headers \<Rightarrow> 'o host_sync \<Rightarrow> u64 \<Rightarrow> int option \<Rightarrow> ('o sync_state, int) act" where
  "pthread_cond_init os h host p attr =
     bindA (liftA (host_condattr os h attr)) (init_object (translate_errno_from_host os h) host p)"

definition pthread_cond_destroy ::
  "os \<Rightarrow> headers \<Rightarrow> bool \<Rightarrow> 'o host_sync \<Rightarrow> u64 \<Rightarrow> ('o sync_state, int) act" where
  "pthread_cond_destroy os h b64 host p =
     destroy_object (translate_errno_from_host os h) (cond_code b64) host p"

text \<open>\<open>pthread_cond_broadcast\<close> and \<open>pthread_cond_signal\<close>.\<close>

definition pthread_cond_op ::
  "os \<Rightarrow> headers \<Rightarrow> bool \<Rightarrow> 'o host_sync \<Rightarrow> u64 \<Rightarrow> u64 \<Rightarrow> ('o \<Rightarrow> int \<times> 'o) \<Rightarrow> ('o sync_state, int) act" where
  "pthread_cond_op os h b64 host p w0 f =
     bindA (to_host_object (cond_code b64) host p w0) (\<lambda>q.
     bindA (on_object q f) (\<lambda>ret. retA (translate_errno_from_host os h ret)))"

text \<open>
  \<open>pthread_cond_wait\<close> and \<open>pthread_cond_timedwait\<close>: the host call \<open>f\<close> works on both objects.
  C++ leaves open which pointer is computed first; here it is the condition variable's.
\<close>

definition pthread_cond_wait ::
  "os \<Rightarrow> headers \<Rightarrow> bool \<Rightarrow> 'o host_sync \<Rightarrow> 'o host_sync \<Rightarrow> u64 \<Rightarrow> u64 \<Rightarrow> u64 \<Rightarrow> u64 \<Rightarrow>
   ('o \<Rightarrow> 'o \<Rightarrow> int \<times> 'o \<times> 'o) \<Rightarrow> ('o sync_state, int) act" where
  "pthread_cond_wait os h b64 chost mhost cp cw mp mw f =
     bindA (to_host_object (cond_code b64) chost cp cw) (\<lambda>cq.
     bindA (to_host_object (mutex_code b64) mhost mp mw) (\<lambda>mq s.
       case (live s cq, live s mq) of
         (Some cv, Some m) \<Rightarrow> let (ret, cv, m) = f cv m in
           (Inr (translate_errno_from_host os h ret), s\<lparr>live := (live s)(cq \<mapsto> cv, mq \<mapsto> m)\<rparr>)
       | _ \<Rightarrow> (Inl Memory_fault, s)))"

definition pthread_rwlock_init ::
  "os \<Rightarrow> headers \<Rightarrow> 'o host_sync \<Rightarrow> u64 \<Rightarrow> bool \<Rightarrow> ('o sync_state, int) act" where
  "pthread_rwlock_init os h host p attr_given =
     (if attr_given
      then liftA (Inl (Runtime_error ''non-NULL rwlock attr is currently not supported'' []))
      else init_object (translate_errno_from_host os h) host p None)"

definition pthread_rwlock_destroy ::
  "os \<Rightarrow> headers \<Rightarrow> bool \<Rightarrow> 'o host_sync \<Rightarrow> u64 \<Rightarrow> ('o sync_state, int) act" where
  "pthread_rwlock_destroy os h b64 host p =
     destroy_object (translate_errno_from_host os h) (rwlock_code b64) host p"

text \<open>
  The lock calls of read-write locks are the host's, reached through the pointer rewriting of
  src/src/argrewrite.h; their result is not translated.
\<close>

definition pthread_rwlock_op ::
  "bool \<Rightarrow> 'o host_sync \<Rightarrow> u64 \<Rightarrow> u64 \<Rightarrow> ('o \<Rightarrow> int \<times> 'o) \<Rightarrow> ('o sync_state, int) act" where
  "pthread_rwlock_op b64 host p w0 f =
     bindA (to_host_object (rwlock_code b64) host p w0) (\<lambda>q. on_object q f)"

section \<open>Keys\<close>

text \<open>
  The host's \<open>pthread_key_create\<close> yields its code and key; on failure the key variable is
  read uninitialised, so it is part of the parameter then too. The keys are 32 bits wide.
\<close>

definition pthread_key_create ::
  "os \<Rightarrow> headers \<Rightarrow> int \<times> u32 \<Rightarrow> (int \<times> u32) result" where
  "pthread_key_create os h host =
     (let (ret, host_key) = host in
      if uint host_key > h ''INT_MAX''
      then Inl (Runtime_error ''Unsupported host pthread key implementation'' [])
      else Inr (translate_errno_from_host os h ret, host_key))"

definition pthread_key_delete :: "os \<Rightarrow> headers \<Rightarrow> (u32 \<Rightarrow> int) \<Rightarrow> u32 \<Rightarrow> int" where
  "pthread_key_delete os h host key = translate_errno_from_host os h (host key)"

definition pthread_setspecific :: "os \<Rightarrow> headers \<Rightarrow> (u32 \<Rightarrow> u64 \<Rightarrow> int) \<Rightarrow> u32 \<Rightarrow> u64 \<Rightarrow> int" where
  "pthread_setspecific os h host key v = translate_errno_from_host os h (host key v)"

definition pthread_getspecific :: "(u32 \<Rightarrow> u64) \<Rightarrow> u32 \<Rightarrow> u64" where
  "pthread_getspecific host key = host key"

section \<open>Names and numbers of threads\<close>

definition pthread_setname_np :: "os \<Rightarrow> (u64 \<Rightarrow> string \<Rightarrow> 'w \<Rightarrow> int \<times> 'w) \<Rightarrow> u64 \<Rightarrow> string \<Rightarrow> 'w \<Rightarrow> int \<times> 'w" where
  "pthread_setname_np os host thread name w = (if os = Linux then host thread name w else (0, w))"

text \<open>
  \<open>host_gettid_np\<close> is the host's function where it has one; \<open>sig\<close> reads the field \<open>__sig\<close> of
  Apple's thread structure. A \<open>pid_t\<close> has 32 bits.
\<close>

definition pthread_gettid_np ::
  "os \<Rightarrow> (u64 \<Rightarrow> int) option \<Rightarrow> u64 \<Rightarrow> int \<Rightarrow> (u64 \<Rightarrow> u64) \<Rightarrow> u64 \<Rightarrow> int" where
  "pthread_gettid_np os host_gettid_np self own_tid sig thread =
     (case host_gettid_np of Some f \<Rightarrow> f thread
      | None \<Rightarrow>
          if thread = self then own_tid
          else if os = Apple then sint (ucast (sig thread) :: u32) else sint (ucast thread :: u32))"

text \<open>Without the host's function another thread's number is the lower half of its handle.\<close>

lemma gettid_of_handle:
  "thread \<noteq> self \<Longrightarrow> pthread_gettid_np Linux None self tid sig thread = sint (ucast thread :: u32)"
  by (simp add: pthread_gettid_np_def)

section \<open>Cleanup handlers\<close>

text \<open>
  The frames are the guest's; \<open>current\<close> is the top of the thread's chain, 0 the null pointer.
  \<open>handled\<close> lists the routines that were called with their arguments, the latest last. A routine
  is taken not to touch the frames.
\<close>

record 'f cleanup_frame =
  prev_frame :: nat
  routine :: 'f
  routine_arg :: u64

record 'f cleanup_state =
  current :: nat
  frames :: "nat \<Rightarrow> 'f cleanup_frame option"
  handled :: "('f \<times> u64) list"

definition pthread_cleanup_push_impl :: "nat \<Rightarrow> 'f \<Rightarrow> u64 \<Rightarrow> 'f cleanup_state \<Rightarrow> 'f cleanup_state" where
  "pthread_cleanup_push_impl c cb arg s =
     s\<lparr>frames := (frames s)(c \<mapsto> \<lparr>prev_frame = current s, routine = cb, routine_arg = arg\<rparr>), current := c\<rparr>"

definition pthread_cleanup_pop_impl :: "nat \<Rightarrow> bool \<Rightarrow> ('f cleanup_state, unit) act" where
  "pthread_cleanup_pop_impl c execute s =
     (case frames s c of None \<Rightarrow> (Inl Memory_fault, s)
      | Some fr \<Rightarrow> (Inr (), s\<lparr>current := prev_frame fr,
          handled := handled s @ (if execute then [(routine fr, routine_arg fr)] else [])\<rparr>))"

text \<open>The destructor of \<open>pthread_cleanup_holder\<close>, which runs when the thread ends.\<close>

partial_function (option) cleanup_holder_exit ::
  "nat \<Rightarrow> 'f cleanup_state \<Rightarrow> (unit result \<times> 'f cleanup_state) option" where
  "cleanup_holder_exit p s =
     (if p = 0 then Some (Inr (), s)
      else case frames s p of None \<Rightarrow> Some (Inl Memory_fault, s)
        | Some fr \<Rightarrow> cleanup_holder_exit (prev_frame fr)
            (s\<lparr>handled := handled s @ [(routine fr, routine_arg fr)]\<rparr>))"

text \<open>Pushing several handlers, each with its own frame.\<close>

fun push_all :: "(nat \<times> 'f \<times> u64) list \<Rightarrow> 'f cleanup_state \<Rightarrow> 'f cleanup_state" where
  "push_all [] s = s"
| "push_all ((c, cb, arg) # fs) s = push_all fs (pthread_cleanup_push_impl c cb arg s)"

fun pop_all :: "nat list \<Rightarrow> ('f cleanup_state, unit) act" where
  "pop_all [] = retA ()"
| "pop_all (c # cs) = bindA (pthread_cleanup_pop_impl c True) (\<lambda>_. pop_all cs)"

section \<open>Life of an object\<close>

text \<open>The host's view: the calls made one after the other on one object.\<close>

fun host_run :: "('o \<Rightarrow> int \<times> 'o) list \<Rightarrow> 'o \<Rightarrow> int list \<times> 'o" where
  "host_run [] ob = ([], ob)"
| "host_run (f # fs) ob = (let (r, ob) = f ob; (rs, ob) = host_run fs ob in (r # rs, ob))"

fun mutex_calls ::
  "os \<Rightarrow> headers \<Rightarrow> bool \<Rightarrow> 'o host_sync \<Rightarrow> u64 \<Rightarrow> u64 \<Rightarrow> ('o \<Rightarrow> int \<times> 'o) list \<Rightarrow>
   ('o sync_state, int list) act" where
  "mutex_calls os h b64 host p w0 [] = retA []"
| "mutex_calls os h b64 host p w0 (f # fs) =
     bindA (pthread_mutex_op os h b64 host p w0 f) (\<lambda>r.
     bindA (mutex_calls os h b64 host p w0 fs) (\<lambda>rs. retA (r # rs)))"

definition mutex_life ::
  "os \<Rightarrow> headers \<Rightarrow> bool \<Rightarrow> 'o host_sync \<Rightarrow> u64 \<Rightarrow> u64 \<Rightarrow> int option \<Rightarrow> ('o \<Rightarrow> int \<times> 'o) list \<Rightarrow>
   ('o sync_state, int \<times> int list \<times> int) act" where
  "mutex_life os h b64 host p w0 attr fs =
     bindA (pthread_mutex_init os h host p attr) (\<lambda>r.
     bindA (mutex_calls os h b64 host p w0 fs) (\<lambda>rs.
     bindA (pthread_mutex_destroy os h b64 host p) (\<lambda>d. retA (r, rs, d))))"

lemma mutex_pointer_initialized: "0x10000 \<le> q \<Longrightarrow> initialized (mutex_code b) q"
  by (rule mutex.pointers_initialized)

lemma mutex_calls_run:
  assumes "0x10000 \<le> payload s p" and "live s (payload s p) = Some ob"
    and "host_run fs ob = (rs, ob')"
  shows "mutex_calls os h b host p w0 fs s =
    (Inr (map (translate_errno_from_host os h) rs), s\<lparr>live := (live s)(payload s p \<mapsto> ob')\<rparr>)"
  using assms
proof (induction fs arbitrary: s ob rs)
  case Nil
  then have same: "rs = []" "(live s)(payload s p \<mapsto> ob') = live s" by auto
  show ?case unfolding same by simp
next
  case (Cons f fs)
  obtain r ob1 where f: "f ob = (r, ob1)" by fastforce
  obtain rs1 where run: "host_run fs ob1 = (rs1, ob')" and rs: "rs = r # rs1"
    using Cons.prems(3) by (auto simp: f split: prod.splits)
  define s1 where "s1 = s\<lparr>live := (live s)(payload s p \<mapsto> ob1)\<rparr>"
  have step: "pthread_mutex_op os h b host p w0 f s = (Inr (translate_errno_from_host os h r), s1)"
    using Cons.prems(1,2)
    by (simp add: pthread_mutex_op_def to_host_object_def mutex_pointer_initialized on_object_def f bindA_def s1_def)
  have "mutex_calls os h b host p w0 fs s1 =
      (Inr (map (translate_errno_from_host os h) rs1), s1\<lparr>live := (live s1)(payload s1 p \<mapsto> ob')\<rparr>)"
    by (rule Cons.IH [OF _ _ run]) (use Cons.prems(1) in \<open>simp_all add: s1_def\<close>)
  moreover have "s1\<lparr>live := (live s1)(payload s1 p \<mapsto> ob')\<rparr> = s\<lparr>live := (live s)(payload s p \<mapsto> ob')\<rparr>"
    by (intro sync_state.equality) (auto simp: s1_def)
  ultimately have "mutex_calls os h b host p w0 fs s1 =
      (Inr (map (translate_errno_from_host os h) rs1), s\<lparr>live := (live s)(payload s p \<mapsto> ob')\<rparr>)"
    by (simp only:)
  with step show ?case by (simp add: bindA_def rs del: fun_upd_apply)
qed

text \<open>The handlers on the chain that starts at \<open>p\<close>, the latest first.\<close>

fun frame_chain :: "(nat \<Rightarrow> 'f cleanup_frame option) \<Rightarrow> nat \<Rightarrow> (nat \<times> 'f \<times> u64) list \<Rightarrow> bool" where
  "frame_chain F p [] \<longleftrightarrow> p = 0"
| "frame_chain F p ((c, cb, arg) # gs) \<longleftrightarrow>
     p = c \<and> c \<noteq> 0 \<and> (\<exists>fr. F c = Some fr \<and> routine fr = cb \<and> routine_arg fr = arg \<and>
       frame_chain F (prev_frame fr) gs)"

lemma frame_chain_upd:
  "c \<notin> set (map fst gs) \<Longrightarrow> frame_chain (F(c \<mapsto> fr)) p gs = frame_chain F p gs"
proof (induction gs arbitrary: p)
  case (Cons g gs)
  then show ?case by (cases g) auto
qed simp

lemma push_all_chain:
  "frame_chain (frames s) (current s) gs \<Longrightarrow> distinct (map fst (rev fs @ gs)) \<Longrightarrow> 0 \<notin> set (map fst fs) \<Longrightarrow>
   frame_chain (frames (push_all fs s)) (current (push_all fs s)) (rev fs @ gs) \<and> handled (push_all fs s) = handled s"
proof (induction fs arbitrary: s gs)
  case (Cons f fs)
  obtain c cb arg where f: "f = (c, cb, arg)" by (cases f)
  define s1 where "s1 = pthread_cleanup_push_impl c cb arg s"
  have "c \<notin> set (map fst gs)" "c \<noteq> 0" using Cons.prems(2,3) by (auto simp: f)
  then have "frame_chain (frames s1) (current s1) ((c, cb, arg) # gs)"
    using Cons.prems(1) by (simp add: s1_def pthread_cleanup_push_impl_def frame_chain_upd)
  from Cons.IH [OF this] Cons.prems(2,3) have
    "frame_chain (frames (push_all fs s1)) (current (push_all fs s1)) (rev fs @ (c, cb, arg) # gs)"
    "handled (push_all fs s1) = handled s1"
    by (auto simp: f)
  then show ?case by (simp add: f s1_def pthread_cleanup_push_impl_def)
qed simp

lemma pop_all_chain:
  "frame_chain (frames s) (current s) gs \<Longrightarrow>
   \<exists>s'. pop_all (map fst gs) s = (Inr (), s') \<and> current s' = 0 \<and> handled s' = handled s @ map snd gs"
proof (induction gs arbitrary: s)
  case (Cons g gs)
  obtain c cb arg where g: "g = (c, cb, arg)" by (cases g)
  from Cons.prems obtain fr where fr: "frames s c = Some fr" "routine fr = cb" "routine_arg fr = arg"
    "frame_chain (frames s) (prev_frame fr) gs" by (auto simp: g)
  define s1 where "s1 = s\<lparr>current := prev_frame fr, handled := handled s @ [(cb, arg)]\<rparr>"
  have "pthread_cleanup_pop_impl c True s = (Inr (), s1)"
    using fr by (simp add: pthread_cleanup_pop_impl_def s1_def)
  moreover have "frame_chain (frames s1) (current s1) gs" using fr(4) by (simp add: s1_def)
  ultimately show ?case using Cons.IH [of s1] by (auto simp: g bindA_def s1_def)
qed simp

lemma exit_chain:
  "frame_chain (frames s) p gs \<Longrightarrow>
   cleanup_holder_exit p s = Some (Inr (), s\<lparr>handled := handled s @ map snd gs\<rparr>)"
proof (induction gs arbitrary: s p)
  case Nil
  then show ?case by (simp add: cleanup_holder_exit.simps)
next
  case (Cons g gs)
  obtain c cb arg where g: "g = (c, cb, arg)" by (cases g)
  from Cons.prems obtain fr where fr: "p = c" "c \<noteq> 0" "frames s c = Some fr" "routine fr = cb" "routine_arg fr = arg"
    "frame_chain (frames s) (prev_frame fr) gs" by (auto simp: g)
  have "cleanup_holder_exit p s = cleanup_holder_exit (prev_frame fr) (s\<lparr>handled := handled s @ [(cb, arg)]\<rparr>)"
    using fr by (subst cleanup_holder_exit.simps) simp
  with Cons.IH [of "s\<lparr>handled := handled s @ [(cb, arg)]\<rparr>" "prev_frame fr"] fr(6) show ?case by (simp add: g)
qed

section \<open>Properties\<close>

text \<open>
  C8. Between \<open>pthread_mutex_init\<close> and \<open>pthread_mutex_destroy\<close> every lock, unlock and trylock
  reaches the one host mutex that was created with the translated type, and returns the
  host's answer in bionic's numbers; after the destruction the host mutex is freed, the
  guest's object is back to its uninitialised state and nothing else has changed.
\<close>

theorem mutex_life_refines_host:
  assumes "host_mutexattr h attr = Inr hattr" and "hs_init host hattr = (0, ob)"
    and "host_run fs ob = (rs, ob')" and "0x10000 \<le> brk_ptr s" and "live s (brk_ptr s) = None"
  shows "mutex_life os h b host p w0 attr fs s =
    (Inr (translate_errno_from_host os h 0, map (translate_errno_from_host os h) rs,
       translate_errno_from_host os h (hs_destroy host ob')),
     s\<lparr>payload := (payload s)(p := 0), brk_ptr := brk_ptr s + 0x100\<rparr>)"
proof -
  define q where "q = brk_ptr s"
  define s1 where "s1 = s\<lparr>live := (live s)(q \<mapsto> ob), brk_ptr := brk_ptr s + 0x100, payload := (payload s)(p := q)\<rparr>"
  have init: "pthread_mutex_init os h host p attr s = (Inr (translate_errno_from_host os h 0), s1)"
    using assms(1,2)
    by (simp add: pthread_mutex_init_def init_object_def malloc_obj_def set_payload_def bindA_def s1_def q_def)
  have "mutex_calls os h b host p w0 fs s1 =
      (Inr (map (translate_errno_from_host os h) rs), s1\<lparr>live := (live s1)(payload s1 p \<mapsto> ob')\<rparr>)"
    by (rule mutex_calls_run [OF _ _ assms(3)]) (use assms(4) in \<open>simp_all add: s1_def q_def\<close>)
  moreover have "payload s1 p = q" by (simp add: s1_def)
  ultimately have calls: "mutex_calls os h b host p w0 fs s1 =
      (Inr (map (translate_errno_from_host os h) rs), s1\<lparr>live := (live s1)(q \<mapsto> ob')\<rparr>)" by simp
  have "initialized (mutex_code b) q" using assms(4) by (simp add: mutex_pointer_initialized q_def)
  then have "pthread_mutex_destroy os h b host p (s1\<lparr>live := (live s1)(q \<mapsto> ob')\<rparr>) =
      (Inr (translate_errno_from_host os h (hs_destroy host ob')),
       s\<lparr>payload := (payload s)(p := 0), brk_ptr := brk_ptr s + 0x100\<rparr>)"
    using assms(5)
    by (simp add: pthread_mutex_destroy_def destroy_object_def set_payload_def free_obj_def bindA_def s1_def q_def
        fun_upd_idem)
  with init calls show ?thesis by (simp add: mutex_life_def bindA_def)
qed

text \<open>A host mutex as a count of locks, and a guest mutex at 0x20000.\<close>

definition counting_mutex :: "int host_sync" where
  "counting_mutex = \<lparr>hs_init = (\<lambda>_. (0, 0)), hs_static = (\<lambda>_. (0, 0)), hs_destroy = (\<lambda>n. if n = 0 then 0 else 16)\<rparr>"

definition fresh_sync :: "int sync_state" where
  "fresh_sync = \<lparr>payload = (\<lambda>_. 0), live = (\<lambda>_. None), brk_ptr = 0x10000\<rparr>"

theorem mutex_life_refines_host_witness:
  "mutex_life Linux linux_errno_headers True counting_mutex 0x20000 0 None
     [\<lambda>n. (0, n + 1), \<lambda>n. (16, n), \<lambda>n. (0, n - 1)] fresh_sync =
   (Inr (translate_errno_from_host Linux linux_errno_headers 0,
      map (translate_errno_from_host Linux linux_errno_headers) [0, 16, 0],
      translate_errno_from_host Linux linux_errno_headers 0),
    fresh_sync\<lparr>payload := (payload fresh_sync)(0x20000 := 0), brk_ptr := 0x10100\<rparr>)"
  using mutex_life_refines_host [of linux_errno_headers None None counting_mutex 0
      "[\<lambda>n. (0, n + 1), \<lambda>n. (16, n), \<lambda>n. (0, n - 1)]" "[0, 16, 0]" 0 fresh_sync Linux True "0x20000" 0]
  by (simp add: counting_mutex_def fresh_sync_def host_mutexattr_def)

text \<open>
  A mutex whose destruction the host refuses (it is locked, \<open>EBUSY\<close>) is freed all the same:
  the guest gets the error, and its next lock silently creates another, unlocked, mutex.
\<close>

lemma busy_mutex_freed:
  assumes "payload s p = q" and "0x10000 \<le> q" and "live s q = Some ob"
  shows "pthread_mutex_destroy os h b host p s =
    (Inr (translate_errno_from_host os h (hs_destroy host ob)),
     s\<lparr>payload := (payload s)(p := 0), live := (live s)(q := None)\<rparr>)"
  using assms mutex_pointer_initialized [OF assms(2), of b]
  by (simp add: pthread_mutex_destroy_def destroy_object_def set_payload_def free_obj_def bindA_def)

text \<open>
  C38. Cleanup handlers run last in, first out: popping the frames in reverse order of their
  pushing calls every routine once with its argument and leaves the chain as it was, and a
  thread that ends with the handlers still pushed runs the same calls in the same order.
\<close>

theorem cleanup_lifo:
  assumes "distinct (map fst fs)" and "0 \<notin> set (map fst fs)" and "current s = 0"
  shows "(\<exists>s'. pop_all (rev (map fst fs)) (push_all fs s) = (Inr (), s') \<and> current s' = 0 \<and>
      handled s' = handled s @ rev (map snd fs)) \<and>
    (\<exists>s'. cleanup_holder_exit (current (push_all fs s)) (push_all fs s) = Some (Inr (), s') \<and>
      handled s' = handled s @ rev (map snd fs))"
proof -
  have "distinct (map fst (rev fs))" using assms(1) by (simp add: rev_map [symmetric])
  with assms push_all_chain [of s "[]" fs] have
    chain: "frame_chain (frames (push_all fs s)) (current (push_all fs s)) (rev fs)"
    and handled: "handled (push_all fs s) = handled s"
    by simp_all
  from pop_all_chain [OF chain] exit_chain [OF chain] show ?thesis by (simp add: rev_map handled)
qed

theorem cleanup_lifo_witness:
  "\<exists>s'. pop_all [8, 4] (push_all [(4, ''unlock'', 1), (8, ''close'', 2)]
       \<lparr>current = 0, frames = (\<lambda>_. None), handled = []\<rparr>) = (Inr (), s') \<and>
     handled s' = [(''close'', 2), (''unlock'', 1)]"
  using cleanup_lifo [of "[(4, ''unlock'', 1), (8, ''close'', 2)]" "\<lparr>current = 0, frames = (\<lambda>_. None), handled = []\<rparr>"]
  by auto

end
