(* ===== verification/Ctype.thy ===== *)
theory Ctype
  imports Prelude
begin

text \<open>
  Character classification (src/src/ctype_data.cpp): the three tables bionic programs index
  directly, shifted by one so that \<open>EOF\<close> has an entry, and the twelve functions over the class
  table. They classify ASCII whatever the host's locale says.
\<close>

section \<open>Tables\<close>

type_synonym u8 = "8 word"

abbreviation CT_U :: u8 where "CT_U \<equiv> 0x01"
abbreviation CT_L :: u8 where "CT_L \<equiv> 0x02"
abbreviation CT_N :: u8 where "CT_N \<equiv> 0x04"
abbreviation CT_S :: u8 where "CT_S \<equiv> 0x08"
abbreviation CT_P :: u8 where "CT_P \<equiv> 0x10"
abbreviation CT_C :: u8 where "CT_C \<equiv> 0x20"
abbreviation CT_X :: u8 where "CT_X \<equiv> 0x40"
abbreviation CT_B :: u8 where "CT_B \<equiv> 0x80"

definition tolower_tab :: "int list" where
  "tolower_tab =
     [-1,
      0, 1, 2, 3, 4, 5, 6, 7, 8, 9, 10, 11, 12, 13, 14, 15,
      16, 17, 18, 19, 20, 21, 22, 23, 24, 25, 26, 27, 28, 29, 30, 31,
      32, 33, 34, 35, 36, 37, 38, 39, 40, 41, 42, 43, 44, 45, 46, 47,
      48, 49, 50, 51, 52, 53, 54, 55, 56, 57, 58, 59, 60, 61, 62, 63,
      64, 97, 98, 99, 100, 101, 102, 103, 104, 105, 106, 107, 108, 109, 110, 111,
      112, 113, 114, 115, 116, 117, 118, 119, 120, 121, 122, 91, 92, 93, 94, 95,
      96, 97, 98, 99, 100, 101, 102, 103, 104, 105, 106, 107, 108, 109, 110, 111,
      112, 113, 114, 115, 116, 117, 118, 119, 120, 121, 122, 123, 124, 125, 126, 127,
      128, 129, 130, 131, 132, 133, 134, 135, 136, 137, 138, 139, 140, 141, 142, 143,
      144, 145, 146, 147, 148, 149, 150, 151, 152, 153, 154, 155, 156, 157, 158, 159,
      160, 161, 162, 163, 164, 165, 166, 167, 168, 169, 170, 171, 172, 173, 174, 175,
      176, 177, 178, 179, 180, 181, 182, 183, 184, 185, 186, 187, 188, 189, 190, 191,
      192, 193, 194, 195, 196, 197, 198, 199, 200, 201, 202, 203, 204, 205, 206, 207,
      208, 209, 210, 211, 212, 213, 214, 215, 216, 217, 218, 219, 220, 221, 222, 223,
      224, 225, 226, 227, 228, 229, 230, 231, 232, 233, 234, 235, 236, 237, 238, 239,
      240, 241, 242, 243, 244, 245, 246, 247, 248, 249, 250, 251, 252, 253, 254, 255]"

definition toupper_tab :: "int list" where
  "toupper_tab =
     [-1,
      0, 1, 2, 3, 4, 5, 6, 7, 8, 9, 10, 11, 12, 13, 14, 15,
      16, 17, 18, 19, 20, 21, 22, 23, 24, 25, 26, 27, 28, 29, 30, 31,
      32, 33, 34, 35, 36, 37, 38, 39, 40, 41, 42, 43, 44, 45, 46, 47,
      48, 49, 50, 51, 52, 53, 54, 55, 56, 57, 58, 59, 60, 61, 62, 63,
      64, 65, 66, 67, 68, 69, 70, 71, 72, 73, 74, 75, 76, 77, 78, 79,
      80, 81, 82, 83, 84, 85, 86, 87, 88, 89, 90, 91, 92, 93, 94, 95,
      96, 65, 66, 67, 68, 69, 70, 71, 72, 73, 74, 75, 76, 77, 78, 79,
      80, 81, 82, 83, 84, 85, 86, 87, 88, 89, 90, 123, 124, 125, 126, 127,
      128, 129, 130, 131, 132, 133, 134, 135, 136, 137, 138, 139, 140, 141, 142, 143,
      144, 145, 146, 147, 148, 149, 150, 151, 152, 153, 154, 155, 156, 157, 158, 159,
      160, 161, 162, 163, 164, 165, 166, 167, 168, 169, 170, 171, 172, 173, 174, 175,
      176, 177, 178, 179, 180, 181, 182, 183, 184, 185, 186, 187, 188, 189, 190, 191,
      192, 193, 194, 195, 196, 197, 198, 199, 200, 201, 202, 203, 204, 205, 206, 207,
      208, 209, 210, 211, 212, 213, 214, 215, 216, 217, 218, 219, 220, 221, 222, 223,
      224, 225, 226, 227, 228, 229, 230, 231, 232, 233, 234, 235, 236, 237, 238, 239,
      240, 241, 242, 243, 244, 245, 246, 247, 248, 249, 250, 251, 252, 253, 254, 255]"

definition ctype_tab :: "u8 list" where
  "ctype_tab =
     [0,
      CT_C, CT_C, CT_C, CT_C, CT_C, CT_C, CT_C, CT_C,
      CT_C, CT_C OR CT_S, CT_C OR CT_S, CT_C OR CT_S, CT_C OR CT_S, CT_C OR CT_S, CT_C, CT_C,
      CT_C, CT_C, CT_C, CT_C, CT_C, CT_C, CT_C, CT_C,
      CT_C, CT_C, CT_C, CT_C, CT_C, CT_C, CT_C, CT_C,
      CT_S OR CT_B, CT_P, CT_P, CT_P, CT_P, CT_P, CT_P, CT_P,
      CT_P, CT_P, CT_P, CT_P, CT_P, CT_P, CT_P, CT_P,
      CT_N, CT_N, CT_N, CT_N, CT_N, CT_N, CT_N, CT_N,
      CT_N, CT_N, CT_P, CT_P, CT_P, CT_P, CT_P, CT_P,
      CT_P, CT_U OR CT_X, CT_U OR CT_X, CT_U OR CT_X, CT_U OR CT_X, CT_U OR CT_X, CT_U OR CT_X, CT_U,
      CT_U, CT_U, CT_U, CT_U, CT_U, CT_U, CT_U, CT_U,
      CT_U, CT_U, CT_U, CT_U, CT_U, CT_U, CT_U, CT_U,
      CT_U, CT_U, CT_U, CT_P, CT_P, CT_P, CT_P, CT_P,
      CT_P, CT_L OR CT_X, CT_L OR CT_X, CT_L OR CT_X, CT_L OR CT_X, CT_L OR CT_X, CT_L OR CT_X, CT_L,
      CT_L, CT_L, CT_L, CT_L, CT_L, CT_L, CT_L, CT_L,
      CT_L, CT_L, CT_L, CT_L, CT_L, CT_L, CT_L, CT_L,
      CT_L, CT_L, CT_L, CT_P, CT_P, CT_P, CT_P, CT_C,
      0, 0, 0, 0, 0, 0, 0, 0,
      0, 0, 0, 0, 0, 0, 0, 0,
      0, 0, 0, 0, 0, 0, 0, 0,
      0, 0, 0, 0, 0, 0, 0, 0,
      0, 0, 0, 0, 0, 0, 0, 0,
      0, 0, 0, 0, 0, 0, 0, 0,
      0, 0, 0, 0, 0, 0, 0, 0,
      0, 0, 0, 0, 0, 0, 0, 0,
      0, 0, 0, 0, 0, 0, 0, 0,
      0, 0, 0, 0, 0, 0, 0, 0,
      0, 0, 0, 0, 0, 0, 0, 0,
      0, 0, 0, 0, 0, 0, 0, 0,
      0, 0, 0, 0, 0, 0, 0, 0,
      0, 0, 0, 0, 0, 0, 0, 0,
      0, 0, 0, 0, 0, 0, 0, 0,
      0, 0, 0, 0, 0, 0, 0, 0]"

section \<open>Functions\<close>

text \<open>\<open>(_ctype_ + 1)[(unsigned char) c] & mask\<close>, and 0 for \<open>EOF\<close>.\<close>

definition ctype_test :: "u8 \<Rightarrow> int \<Rightarrow> int" where
  "ctype_test m c = (if c = - 1 then 0 else uint (ctype_tab ! (1 + nat (c mod 256)) AND m))"

definition isalnum :: "int \<Rightarrow> int" where
  "isalnum = ctype_test (CT_U OR CT_L OR CT_N)"

definition isalpha :: "int \<Rightarrow> int" where
  "isalpha = ctype_test (CT_U OR CT_L)"

definition isblank :: "int \<Rightarrow> int" where
  "isblank c = (if c = 32 \<or> c = 9 then 1 else 0)"

definition iscntrl :: "int \<Rightarrow> int" where
  "iscntrl = ctype_test (CT_C)"

definition isdigit :: "int \<Rightarrow> int" where
  "isdigit = ctype_test (CT_N)"

definition isgraph :: "int \<Rightarrow> int" where
  "isgraph = ctype_test (CT_P OR CT_U OR CT_L OR CT_N)"

definition islower :: "int \<Rightarrow> int" where
  "islower = ctype_test (CT_L)"

definition isprint :: "int \<Rightarrow> int" where
  "isprint = ctype_test (CT_P OR CT_U OR CT_L OR CT_N OR CT_B)"

definition ispunct :: "int \<Rightarrow> int" where
  "ispunct = ctype_test (CT_P)"

definition isspace :: "int \<Rightarrow> int" where
  "isspace = ctype_test (CT_S)"

definition isupper :: "int \<Rightarrow> int" where
  "isupper = ctype_test (CT_U)"

definition isxdigit :: "int \<Rightarrow> int" where
  "isxdigit = ctype_test (CT_N OR CT_X)"

lemmas is_defs = isalnum_def isalpha_def isblank_def iscntrl_def isdigit_def isgraph_def islower_def
  isprint_def ispunct_def isspace_def isupper_def isxdigit_def

section \<open>What the tables say\<close>

text \<open>The tables in closed form, checked entry by entry.\<close>

definition ct_class :: "nat \<Rightarrow> u8" where
  "ct_class n =
     (if n < 9 then CT_C else if n < 14 then CT_C OR CT_S else if n < 32 then CT_C
      else if n < 33 then CT_S OR CT_B else if n < 48 then CT_P else if n < 58 then CT_N
      else if n < 65 then CT_P else if n < 71 then CT_U OR CT_X else if n < 91 then CT_U
      else if n < 97 then CT_P else if n < 103 then CT_L OR CT_X else if n < 123 then CT_L
      else if n < 127 then CT_P else if n < 128 then CT_C else 0)"

definition lower_of :: "nat \<Rightarrow> int" where
  "lower_of n = (if 65 \<le> n \<and> n \<le> 90 then int n + 32 else int n)"

definition upper_of :: "nat \<Rightarrow> int" where
  "upper_of n = (if 97 \<le> n \<and> n \<le> 122 then int n - 32 else int n)"

lemma ctype_tab_eq: "ctype_tab = 0 # map ct_class [0..<256]"
  by code_simp

lemma tolower_tab_eq: "tolower_tab = - 1 # map lower_of [0..<256]"
  by code_simp

lemma toupper_tab_eq: "toupper_tab = - 1 # map upper_of [0..<256]"
  by code_simp

text \<open>The class of a character, whatever integer it comes in.\<close>

lemma ctype_test_eq:
  "c \<noteq> - 1 \<Longrightarrow> ctype_test m c = uint (ct_class (nat (c mod 256)) AND m)"
  by (simp add: ctype_test_def ctype_tab_eq nat_less_iff)

lemma ctype_test_eof: "ctype_test m (- 1) = 0"
  by (simp add: ctype_test_def)

lemma is_test:
  "ctype_test m c \<noteq> 0 \<longleftrightarrow> c \<noteq> - 1 \<and> ct_class (nat (c mod 256)) AND m \<noteq> 0"
  by (cases "c = - 1") (simp_all add: ctype_test_eof ctype_test_eq uint_0_iff)

section \<open>Properties\<close>

text \<open>Ranges of ASCII, on the value of the character as an \<open>unsigned char\<close>.\<close>

definition ascii_upper :: "int \<Rightarrow> bool" where "ascii_upper c \<longleftrightarrow> 65 \<le> c \<and> c \<le> 90"
definition ascii_lower :: "int \<Rightarrow> bool" where "ascii_lower c \<longleftrightarrow> 97 \<le> c \<and> c \<le> 122"
definition ascii_digit :: "int \<Rightarrow> bool" where "ascii_digit c \<longleftrightarrow> 48 \<le> c \<and> c \<le> 57"
definition ascii_graph :: "int \<Rightarrow> bool" where "ascii_graph c \<longleftrightarrow> 33 \<le> c \<and> c \<le> 126"

lemmas ascii_defs = ascii_upper_def ascii_lower_def ascii_digit_def ascii_graph_def

lemma class_tests:
  "ct_class n AND CT_U \<noteq> 0 \<longleftrightarrow> ascii_upper (int n)"
  "ct_class n AND CT_L \<noteq> 0 \<longleftrightarrow> ascii_lower (int n)"
  "ct_class n AND CT_N \<noteq> 0 \<longleftrightarrow> ascii_digit (int n)"
  "ct_class n AND (CT_U OR CT_L) \<noteq> 0 \<longleftrightarrow> ascii_upper (int n) \<or> ascii_lower (int n)"
  "ct_class n AND (CT_U OR CT_L OR CT_N) \<noteq> 0 \<longleftrightarrow>
     ascii_upper (int n) \<or> ascii_lower (int n) \<or> ascii_digit (int n)"
  "ct_class n AND (CT_N OR CT_X) \<noteq> 0 \<longleftrightarrow> ascii_digit (int n) \<or> n \<in> {65..70} \<or> n \<in> {97..102}"
  "ct_class n AND (CT_P OR CT_U OR CT_L OR CT_N) \<noteq> 0 \<longleftrightarrow> ascii_graph (int n)"
  "ct_class n AND (CT_P OR CT_U OR CT_L OR CT_N OR CT_B) \<noteq> 0 \<longleftrightarrow> ascii_graph (int n) \<or> n = 32"
  "ct_class n AND CT_P \<noteq> 0 \<longleftrightarrow>
     ascii_graph (int n) \<and> \<not> ascii_upper (int n) \<and> \<not> ascii_lower (int n) \<and> \<not> ascii_digit (int n)"
  "ct_class n AND CT_S \<noteq> 0 \<longleftrightarrow> n \<in> {9..13} \<or> n = 32"
  "ct_class n AND CT_C \<noteq> 0 \<longleftrightarrow> n < 32 \<or> n = 127"
  by (simp_all add: ct_class_def ascii_defs)

text \<open>
  C39. For every \<open>int\<close>, a negative \<open>char\<close> included, each function but \<open>isblank\<close> answers
  what the ASCII classes say about its low byte, and no for \<open>EOF\<close>; \<open>isblank\<close> knows the
  space and the tab.
\<close>

theorem is_functions_ascii:
  "(isupper c \<noteq> 0 \<longleftrightarrow> ascii_upper (c mod 256)) \<and>
   (islower c \<noteq> 0 \<longleftrightarrow> ascii_lower (c mod 256)) \<and>
   (isdigit c \<noteq> 0 \<longleftrightarrow> ascii_digit (c mod 256)) \<and>
   (isalpha c \<noteq> 0 \<longleftrightarrow> isupper c \<noteq> 0 \<or> islower c \<noteq> 0) \<and>
   (isalnum c \<noteq> 0 \<longleftrightarrow> isalpha c \<noteq> 0 \<or> isdigit c \<noteq> 0) \<and>
   (isxdigit c \<noteq> 0 \<longleftrightarrow> isdigit c \<noteq> 0 \<or> c mod 256 \<in> {65..70} \<or> c mod 256 \<in> {97..102}) \<and>
   (isgraph c \<noteq> 0 \<longleftrightarrow> ascii_graph (c mod 256)) \<and>
   (isprint c \<noteq> 0 \<longleftrightarrow> isgraph c \<noteq> 0 \<or> c mod 256 = 32) \<and>
   (ispunct c \<noteq> 0 \<longleftrightarrow> isgraph c \<noteq> 0 \<and> isalnum c = 0) \<and>
   (isspace c \<noteq> 0 \<longleftrightarrow> c mod 256 \<in> {9..13} \<or> c mod 256 = 32) \<and>
   (iscntrl c \<noteq> 0 \<longleftrightarrow> c mod 256 < 32 \<or> c mod 256 = 127) \<and>
   (isblank c \<noteq> 0 \<longleftrightarrow> c = 32 \<or> c = 9)"
proof -
  define n where "n = nat (c mod 256)"
  have n: "c mod 256 = int n" by (simp add: n_def)
  have eof: "n = 255" if "c = - 1" using that by (simp add: n_def)
  have test: "ctype_test m c \<noteq> 0 \<longleftrightarrow> c \<noteq> - 1 \<and> ct_class n AND m \<noteq> 0" for m
    unfolding is_test n_def ..
  have none: "\<not> ascii_upper 255" "\<not> ascii_lower 255" "\<not> ascii_digit 255" "\<not> ascii_graph 255"
    by (simp_all add: ascii_defs)
  have zero: "isalnum c = 0 \<longleftrightarrow> \<not> (c \<noteq> - 1 \<and> (ascii_upper (int n) \<or> ascii_lower (int n) \<or> ascii_digit (int n)))"
    using test [of "CT_U OR CT_L OR CT_N"] class_tests(5) [of n] by (auto simp: isalnum_def)
  show ?thesis
    unfolding zero n
    unfolding is_defs isblank_def test class_tests
    by (cases "c = - 1") (auto simp: eof none)
qed

theorem is_functions_ascii_witness: "isupper 65 \<noteq> 0 \<and> isupper 97 = 0"
  using is_functions_ascii [of 65] is_functions_ascii [of 97] by (simp add: ascii_defs)

lemma case_tables_at:
  assumes "- 1 \<le> c" and "c < 256"
  shows "tolower_tab ! nat (c + 1) = (if ascii_upper c then c + 32 else c)"
    "toupper_tab ! nat (c + 1) = (if ascii_lower c then c - 32 else c)"
proof -
  consider "c = - 1" | n where "c = int n" "n < 256" "nat (c + 1) = Suc n"
  proof (cases "c = - 1")
    case False
    with assms have "c = int (nat c)" "nat c < 256" "nat (c + 1) = Suc (nat c)" by linarith+
    then show thesis by (rule that(2))
  qed (rule that(1))
  then show "tolower_tab ! nat (c + 1) = (if ascii_upper c then c + 32 else c)"
    "toupper_tab ! nat (c + 1) = (if ascii_lower c then c - 32 else c)"
    by (cases; simp add: tolower_tab_eq toupper_tab_eq lower_of_def upper_of_def ascii_defs)+
qed

text \<open>
  The case tables, which bionic's inline \<open>tolower\<close> and \<open>toupper\<close> index, map \<open>EOF\<close> to
  itself, change exactly the ASCII letters of the other case and undo each other on them.
\<close>

theorem case_tables:
  assumes "- 1 \<le> c" and "c < 256"
  shows "tolower_tab ! nat (c + 1) = (if ascii_upper c then c + 32 else c) \<and>
    toupper_tab ! nat (c + 1) = (if ascii_lower c then c - 32 else c) \<and>
    (ascii_lower c \<longrightarrow> tolower_tab ! nat (toupper_tab ! nat (c + 1) + 1) = c) \<and>
    (ascii_upper c \<longrightarrow> toupper_tab ! nat (tolower_tab ! nat (c + 1) + 1) = c)"
  using case_tables_at [OF assms] case_tables_at [of "c - 32"] case_tables_at [of "c + 32"]
  by (simp add: ascii_defs)

theorem case_tables_witness: "tolower_tab ! 66 = 97 \<and> toupper_tab ! 98 = 65"
  using case_tables [of 65] case_tables [of 97] by (simp add: ascii_defs)

end
