(* ===== verification/Strings.thy ===== *)
theory Strings
  imports Buffers
begin

text \<open>
  Strings and raw memory: bionic's \<open>strlcpy\<close> (src/src/bionic/strlcpy.cpp), the \<open>_chk\<close>
  functions of fortified programs and the generator of random bytes (src/src/common.cpp). A
  pointer is an offset into a byte buffer; the source and the destination are different
  objects, as \<open>restrict\<close> demands. The functions of the C library itself are written out with
  the standard's meaning.
\<close>

section \<open>Bytes and C strings\<close>

definition load1 :: "bytes \<Rightarrow> nat \<Rightarrow> byte result" where
  "load1 m i = (if i < length m then Inr (m ! i) else Inl Memory_fault)"

definition store1 :: "bytes \<Rightarrow> nat \<Rightarrow> byte \<Rightarrow> bytes result" where
  "store1 m i b = (if i < length m then Inr (m[i := b]) else Inl Memory_fault)"

definition c_str :: "bytes \<Rightarrow> bytes" where
  "c_str m = takeWhile (\<lambda>b. b \<noteq> 0) m"

definition strlen :: "bytes \<Rightarrow> nat result" where
  "strlen m = (if 0 \<in> set m then Inr (length (c_str m)) else Inl Memory_fault)"

text \<open>\<open>strcpy\<close>, \<open>strncpy\<close>, \<open>memcpy\<close> and \<open>memset\<close> of the C library, into the start of \<open>dst\<close>.\<close>

definition c_strcpy :: "bytes \<Rightarrow> bytes \<Rightarrow> bytes result" where
  "c_strcpy dst src = bindR (strlen src) (\<lambda>n. wr dst 0 (take n src @ [0]))"

definition c_strncpy :: "bytes \<Rightarrow> bytes \<Rightarrow> nat \<Rightarrow> bytes result" where
  "c_strncpy dst src n =
     (if 0 \<in> set src \<or> n \<le> length src
      then wr dst 0 (take n (c_str src @ replicate n 0)) else Inl Memory_fault)"

definition c_memcpy :: "bytes \<Rightarrow> bytes \<Rightarrow> nat \<Rightarrow> bytes result" where
  "c_memcpy dst src n = bindR (rd src 0 n) (wr dst 0)"

definition c_memset :: "bytes \<Rightarrow> byte \<Rightarrow> nat \<Rightarrow> bytes result" where
  "c_memset dst c n = wr dst 0 (replicate n c)"

definition c_memchr :: "bytes \<Rightarrow> byte \<Rightarrow> nat \<Rightarrow> nat option result" where
  "c_memchr src c n =
     bindR (rd src 0 n) (\<lambda>bs. let i = length (takeWhile (\<lambda>b. b \<noteq> c) bs) in Inr (if i < n then Some i else None))"

text \<open>The part of a buffer in front of its first NUL.\<close>

lemma c_str_props:
  assumes "0 \<in> set m"
  shows "length (c_str m) < length m" and "m ! length (c_str m) = 0"
    and "i < length (c_str m) \<Longrightarrow> c_str m ! i = m ! i" and "i < length (c_str m) \<Longrightarrow> m ! i \<noteq> 0"
    and "take (length (c_str m)) m = c_str m"
proof -
  show len: "length (c_str m) < length m" using assms unfolding c_str_def by (induction m) auto
  show "m ! length (c_str m) = 0" using nth_length_takeWhile [of "\<lambda>b. b \<noteq> 0" m] len by (simp add: c_str_def)
  show same: "i < length (c_str m) \<Longrightarrow> c_str m ! i = m ! i" for i
    unfolding c_str_def by (rule takeWhile_nth)
  show "i < length (c_str m) \<Longrightarrow> m ! i \<noteq> 0"
    using same [of i] nth_mem [of i "c_str m"] by (auto simp: c_str_def dest: set_takeWhileD)
  show "take (length (c_str m)) m = c_str m" unfolding c_str_def by (rule takeWhile_eq_take [symmetric])
qed

section \<open>strlcpy\<close>

text \<open>
  The copying loop \<open>while (--n != 0)\<close>: it leaves with \<open>n = 0\<close> or behind a copied NUL. The
  counter is a \<open>size_t\<close>.
\<close>

function strlcpy_copy :: "u64 \<Rightarrow> nat \<Rightarrow> nat \<Rightarrow> bytes \<Rightarrow> bytes \<Rightarrow> (u64 \<times> nat \<times> nat \<times> bytes) result" where
  "strlcpy_copy n d s dst src =
     (if n - 1 = 0 then Inr (n - 1, d, s, dst)
      else bindR (load1 src s) (\<lambda>b. bindR (store1 dst d b) (\<lambda>dst.
        if b = 0 then Inr (n - 1, d + 1, s + 1, dst)
        else strlcpy_copy (n - 1) (d + 1) (s + 1) dst src)))"
  by pat_completeness auto

termination
proof (relation "measure (\<lambda>(n, d, s, dst, src). if n = 0 then 2 ^ 64 else unat n)", goal_cases)
  case (2 n d s dst src)
  have "unat (n - 1) < 2 ^ 64" using unsigned_less [of "n - 1"] by simp
  moreover have "n \<noteq> 0 \<Longrightarrow> unat (n - 1) < unat n"
    by (metis diff_less less_numeral_extra(1) unat_gt_0 unat_minus_one)
  ultimately show ?case using 2(1) by auto
qed simp

declare strlcpy_copy.simps [simp del]

text \<open>\<open>while (*s++)\<close>.\<close>

function strlcpy_scan :: "nat \<Rightarrow> bytes \<Rightarrow> nat result" where
  "strlcpy_scan s src =
     bindR (load1 src s) (\<lambda>b. if b = 0 then Inr (s + 1) else strlcpy_scan (s + 1) src)"
  by pat_completeness auto

termination
  by (relation "measure (\<lambda>(s, src). length src - s)") (auto simp: load1_def split: if_splits)

declare strlcpy_scan.simps [simp del]

definition strlcpy :: "bytes \<Rightarrow> bytes \<Rightarrow> u64 \<Rightarrow> (nat \<times> bytes) result" where
  "strlcpy dst src siz =
     bindR (if siz \<noteq> 0 then strlcpy_copy siz 0 0 dst src else Inr (siz, 0, 0, dst)) (\<lambda>(n, d, s, dst).
     bindR (if n = 0 then bindR (if siz \<noteq> 0 then store1 dst d 0 else Inr dst)
              (\<lambda>dst. bindR (strlcpy_scan s src) (\<lambda>s. Inr (s, dst)))
            else Inr (s, dst)) (\<lambda>(s, dst).
     Inr (s - 1, dst)))"

text \<open>
  What \<open>strlcpy\<close> promises: as much of the string as fits with its NUL, and the length of the
  whole string.
\<close>

definition strlcpy_spec :: "bytes \<Rightarrow> bytes \<Rightarrow> nat \<Rightarrow> bytes" where
  "strlcpy_spec dst str siz =
     (if siz = 0 then dst
      else let kept = take (siz - 1) str in kept @ [0] @ drop (length kept + 1) dst)"

lemma scan_run:
  assumes "0 \<in> set src"
  shows "s \<le> length (c_str src) \<Longrightarrow> strlcpy_scan s src = Inr (length (c_str src) + 1)"
proof (induction "length (c_str src) - s" arbitrary: s)
  case 0
  then have s: "s = length (c_str src)" by simp
  show ?case
    unfolding s by (subst strlcpy_scan.simps) (simp add: load1_def c_str_props(1,2) [OF assms])
next
  case (Suc k)
  then have "s < length (c_str src)" by simp
  moreover have "strlcpy_scan (s + 1) src = Inr (length (c_str src) + 1)"
    using Suc by (intro Suc.hyps(1)) auto
  ultimately show ?case
    using c_str_props(1) [OF assms] c_str_props(4) [OF assms, of s]
    by (simp add: strlcpy_scan.simps [of s] load1_def)
qed

text \<open>
  The loop invariant: so far the first \<open>k\<close> characters were copied. On leaving either there
  was no room for more, or the whole string was copied with its NUL.
\<close>

lemma copy_run:
  assumes "0 \<in> set src"
  shows "n \<noteq> 0 \<Longrightarrow> k \<le> length (c_str src) \<Longrightarrow> k + unat n \<le> length dst \<Longrightarrow>
    take k dst = take k (c_str src) \<Longrightarrow>
    (let l = length (c_str src); r = strlcpy_copy n k k dst src in
     (unat n - 1 \<le> l - k \<longrightarrow>
       r = Inr (0, k + unat n - 1, k + unat n - 1, take (k + unat n - 1) (c_str src) @ drop (k + unat n - 1) dst)) \<and>
     (l - k < unat n - 1 \<longrightarrow>
       (\<exists>n'. n' \<noteq> 0 \<and> r = Inr (n', l + 1, l + 1, c_str src @ [0] @ drop (l + 1) dst))))"
proof (induction "unat n" arbitrary: n k dst)
  case 0
  then show ?case by (simp add: unat_eq_0)
next
  case (Suc u)
  define l where "l = length (c_str src)"
  have un1: "unat (n - 1) = u" using Suc.hyps(2) Suc.prems(1) by (simp add: unat_minus_one)
  have dst: "dst = take k (c_str src) @ drop k dst" by (metis Suc.prems(4) append_take_drop_id)
  show ?case
  proof (cases "u = 0")
    case True
    then have "n - 1 = 0" using un1 by (simp add: unat_eq_0)
    then have "strlcpy_copy n k k dst src = Inr (0, k, k, dst)" by (subst strlcpy_copy.simps) simp
    moreover have "unat n = 1" using Suc.hyps(2) True by simp
    ultimately show ?thesis using dst by simp
  next
    case False
    then have n1: "n - 1 \<noteq> 0" using un1 by (metis unat_0)
    have kl: "k \<le> l" and kd: "k < length dst" using Suc.prems(2,3) Suc.hyps(2) by (simp_all add: l_def)
    have ks: "k < length src" using kl c_str_props(1) [OF assms] by (simp add: l_def)
    have step: "strlcpy_copy n k k dst src =
        (if src ! k = 0 then Inr (n - 1, k + 1, k + 1, dst[k := src ! k])
         else strlcpy_copy (n - 1) (k + 1) (k + 1) (dst[k := src ! k]) src)"
      using n1 ks kd by (simp add: strlcpy_copy.simps [of n] load1_def store1_def)
    show ?thesis
    proof (cases "k = l")
      case True
      then have "src ! k = 0" using c_str_props(2) [OF assms] by (simp add: l_def)
      moreover have "dst[k := 0] = c_str src @ [0] @ drop (l + 1) dst"
        using Suc.prems(4) True kd by (simp add: upd_conv_take_nth_drop l_def)
      ultimately have "strlcpy_copy n k k dst src = Inr (n - 1, l + 1, l + 1, c_str src @ [0] @ drop (l + 1) dst)"
        unfolding step using True by simp
      moreover have "\<not> unat n - 1 \<le> l - k" using True False Suc.hyps(2) \<open>u \<noteq> 0\<close> by simp
      ultimately show ?thesis using n1 by (simp add: l_def [symmetric] Let_def)
    next
      case False
      with kl have "k < l" by simp
      with c_str_props(3,4) [OF assms, of k] have sk: "src ! k = c_str src ! k" "src ! k \<noteq> 0"
        by (simp_all add: l_def)
      let ?dst = "dst[k := src ! k]"
      have tk: "take (k + 1) ?dst = take (k + 1) (c_str src)"
        using Suc.prems(4) kd sk(1) \<open>k < l\<close> by (simp add: take_Suc_conv_app_nth l_def)
      have drop: "m > k \<Longrightarrow> drop m ?dst = drop m dst" for m by simp
      have "u = unat (n - 1)" "k + 1 \<le> length (c_str src)" "k + 1 + unat (n - 1) \<le> length ?dst"
        using un1 \<open>k < l\<close> Suc.prems(3) Suc.hyps(2) by (simp_all add: l_def)
      from Suc.hyps(1) [OF this(1) n1 this(2,3) tk]
      have IH: "u - 1 \<le> l - (k + 1) \<Longrightarrow> strlcpy_copy (n - 1) (k + 1) (k + 1) ?dst src =
           Inr (0, k + u, k + u, take (k + u) (c_str src) @ drop (k + u) dst)"
        "l - (k + 1) < u - 1 \<Longrightarrow> \<exists>n'. n' \<noteq> 0 \<and> strlcpy_copy (n - 1) (k + 1) (k + 1) ?dst src =
           Inr (n', l + 1, l + 1, c_str src @ [0] @ drop (l + 1) dst)"
        using \<open>u \<noteq> 0\<close> \<open>k < l\<close> drop [of "k + u"] drop [of "l + 1"]
        by (simp_all add: un1 Let_def l_def [symmetric])
      have arith: "u - 1 \<le> l - (k + 1) \<longleftrightarrow> unat n - 1 \<le> l - k" "l - (k + 1) < u - 1 \<longleftrightarrow> l - k < unat n - 1"
        "k + unat n - 1 = k + u"
        using \<open>k < l\<close> \<open>u \<noteq> 0\<close> Suc.hyps(2) by linarith+
      have "strlcpy_copy n k k dst src = strlcpy_copy (n - 1) (k + 1) (k + 1) ?dst src"
        using sk(2) by (simp add: step)
      with IH show ?thesis
        unfolding Let_def l_def [symmetric] arith(3) by (simp only: arith) simp
    qed
  qed
qed

lemma strlcpy_run:
  assumes "0 \<in> set src" and "unat siz \<le> length dst"
  shows "strlcpy dst src siz = Inr (length (c_str src), strlcpy_spec dst (c_str src) (unat siz))"
proof (cases "siz = 0")
  case True
  then show ?thesis using scan_run [OF assms(1), of 0] by (simp add: strlcpy_def strlcpy_spec_def)
next
  case False
  define l where "l = length (c_str src)"
  have pos: "unat siz \<noteq> 0" using False by (simp add: unat_eq_0)
  from copy_run [OF assms(1) False, of 0 dst] assms(2)
  have copy: "unat siz - 1 \<le> l \<Longrightarrow> strlcpy_copy siz 0 0 dst src =
       Inr (0, unat siz - 1, unat siz - 1, take (unat siz - 1) (c_str src) @ drop (unat siz - 1) dst)"
    "l < unat siz - 1 \<Longrightarrow>
       \<exists>n'. n' \<noteq> 0 \<and> strlcpy_copy siz 0 0 dst src = Inr (n', l + 1, l + 1, c_str src @ [0] @ drop (l + 1) dst)"
    by (simp_all only: Let_def l_def add_0 diff_zero) simp_all
  show ?thesis
  proof (cases "unat siz - 1 \<le> l")
    case True
    have len: "length (take (unat siz - 1) (c_str src)) = unat siz - 1" using True by (simp add: l_def)
    have drop: "drop (unat siz - 1) dst = dst ! (unat siz - 1) # drop (unat siz) dst"
      using Cons_nth_drop_Suc [of "unat siz - 1" dst] assms(2) pos by simp
    have "store1 (take (unat siz - 1) (c_str src) @ drop (unat siz - 1) dst) (unat siz - 1) 0 =
        Inr (take (unat siz - 1) (c_str src) @ [0] @ drop (unat siz) dst)"
      unfolding drop using len by (simp add: store1_def list_update_append)
    moreover have "strlcpy_scan (unat siz - 1) src = Inr (l + 1)"
      using scan_run [OF assms(1)] True by (simp add: l_def)
    ultimately show ?thesis
      using copy True False pos len by (simp add: strlcpy_def strlcpy_spec_def l_def Let_def)
  next
    case fits: False
    with copy(2) obtain n' where "n' \<noteq> 0"
      "strlcpy_copy siz 0 0 dst src = Inr (n', l + 1, l + 1, c_str src @ [0] @ drop (l + 1) dst)" by auto
    then show ?thesis using False fits pos by (simp add: strlcpy_def strlcpy_spec_def l_def Let_def)
  qed
qed

section \<open>Fortified functions\<close>

text \<open>
  A fortified program passes the size of the object the compiler knows as the last argument.
  The functions that check it abort before they touch memory.
\<close>

definition strlen_chk :: "bytes \<Rightarrow> u64 \<Rightarrow> nat result" where
  "strlen_chk str max_len =
     bindR (strlen str) (\<lambda>ret.
       if ret \<ge> unat max_len then Inl (Aborted ''strlen_chk: string longer than expected'') else Inr ret)"

definition memchr_chk :: "bytes \<Rightarrow> int \<Rightarrow> u64 \<Rightarrow> u64 \<Rightarrow> nat option result" where
  "memchr_chk src c len src_len =
     (if len > src_len then Inl (Aborted ''detected read past buffer size'')
      else c_memchr src (word_of_int c) (unat len))"

definition memcpy_chk :: "bytes \<Rightarrow> bytes \<Rightarrow> u64 \<Rightarrow> u64 \<Rightarrow> bytes result" where
  "memcpy_chk dst src sz max_len =
     (if sz > max_len then Inl (Aborted ''detected copy past buffer size'')
      else c_memcpy dst src (unat sz))"

text \<open>\<open>memmove\<close> reads the whole source first, so that it may be a part of the destination.\<close>

definition memmove_chk :: "bytes \<Rightarrow> bytes \<Rightarrow> u64 \<Rightarrow> u64 \<Rightarrow> bytes result" where
  "memmove_chk dst src sz max_len =
     (if sz > max_len then Inl (Aborted ''detected copy past buffer size'')
      else c_memcpy dst src (unat sz))"

definition memset_chk :: "bytes \<Rightarrow> int \<Rightarrow> u64 \<Rightarrow> u64 \<Rightarrow> bytes result" where
  "memset_chk dst c sz max_len =
     (if sz > max_len then Inl (Aborted ''detected set past buffer size'')
      else c_memset dst (word_of_int c) (unat sz))"

definition strlcpy_chk :: "bytes \<Rightarrow> bytes \<Rightarrow> u64 \<Rightarrow> u64 \<Rightarrow> (nat \<times> bytes) result" where
  "strlcpy_chk dst src sz max_len =
     (if sz > max_len then Inl (Aborted ''detected copy past buffer size'')
      else strlcpy dst src sz)"

text \<open>The others ignore the size they are given.\<close>

definition strcpy_chk :: "bytes \<Rightarrow> bytes \<Rightarrow> u64 \<Rightarrow> bytes result" where
  "strcpy_chk dst src dst_len = c_strcpy dst src"

definition strncpy_chk :: "bytes \<Rightarrow> bytes \<Rightarrow> u64 \<Rightarrow> u64 \<Rightarrow> bytes result" where
  "strncpy_chk dst src len dst_len = c_strncpy dst src (unat len)"

definition strncpy_chk2 :: "bytes \<Rightarrow> bytes \<Rightarrow> u64 \<Rightarrow> u64 \<Rightarrow> u64 \<Rightarrow> bytes result" where
  "strncpy_chk2 dst src n dst_len src_len = c_strncpy dst src (unat n)"

definition c_strncat :: "bytes \<Rightarrow> bytes \<Rightarrow> nat \<Rightarrow> bytes result" where
  "c_strncat dst src n =
     (if 0 \<in> set src \<or> n \<le> length src
      then bindR (strlen dst) (\<lambda>d. wr dst d (take n (c_str src) @ [0])) else Inl Memory_fault)"

definition strcat_chk :: "bytes \<Rightarrow> bytes \<Rightarrow> u64 \<Rightarrow> bytes result" where
  "strcat_chk dst src dst_len = bindR (strlen src) (\<lambda>n. c_strncat dst src n)"

definition strncat_chk :: "bytes \<Rightarrow> bytes \<Rightarrow> u64 \<Rightarrow> u64 \<Rightarrow> bytes result" where
  "strncat_chk dst src n dst_len = c_strncat dst src (unat n)"

definition strchr_chk :: "bytes \<Rightarrow> int \<Rightarrow> u64 \<Rightarrow> nat option result" where
  "strchr_chk str ch n = bindR (strlen str) (\<lambda>k. c_memchr str (word_of_int ch) (k + 1))"

definition c_memrchr :: "bytes \<Rightarrow> byte \<Rightarrow> nat \<Rightarrow> nat option result" where
  "c_memrchr src c n =
     bindR (rd src 0 n) (\<lambda>bs. let i = length (takeWhile (\<lambda>b. b \<noteq> c) (rev bs)) in Inr (if i < n then Some (n - 1 - i) else None))"

definition strrchr_chk :: "bytes \<Rightarrow> int \<Rightarrow> u64 \<Rightarrow> nat option result" where
  "strrchr_chk str ch n = bindR (strlen str) (\<lambda>k. c_memrchr str (word_of_int ch) (k + 1))"

text \<open>\<open>__vsprintf_chk\<close>, with the text the host formats given.\<close>

definition vsprintf_chk :: "bytes \<Rightarrow> int \<Rightarrow> u64 \<Rightarrow> bytes \<Rightarrow> (int \<times> bytes) result" where
  "vsprintf_chk dst flags dst_len formatted = bindR (wr dst 0 (formatted @ [0])) (\<lambda>m. Inr (int (length formatted), m))"

section \<open>Random bytes\<close>

text \<open>
  The loop of \<open>arc4random_buf\<close> for systems without that function: \<open>draws i\<close> is the \<open>i\<close>th
  value of \<open>std::random_device\<close>, \<open>i\<close> counts the draws. The second result is that count.
\<close>

function arc4random_loop :: "(nat \<Rightarrow> u32) \<Rightarrow> nat \<Rightarrow> bytes \<Rightarrow> nat \<Rightarrow> nat \<Rightarrow> (bytes \<times> nat) result" where
  "arc4random_loop draws i m buf len =
     (if len > 0
      then let u = draws i; n = min len 4 in
        bindR (wr m buf (take n (to_le 4 (unat u))))
          (\<lambda>m. arc4random_loop draws (i + 1) m (buf + n) (len - n))
      else Inr (m, i))"
  by pat_completeness auto

termination
  by (relation "measure (\<lambda>(draws, i, m, buf, len). len)") auto

declare arc4random_loop.simps [simp del]

definition arc4random_buf :: "(nat \<Rightarrow> u32) \<Rightarrow> nat \<Rightarrow> bytes \<Rightarrow> nat \<Rightarrow> nat \<Rightarrow> (bytes \<times> nat) result" where
  "arc4random_buf draws i m buf len = arc4random_loop draws i m buf len"

definition arc4random :: "(nat \<Rightarrow> u32) \<Rightarrow> nat \<Rightarrow> (bytes \<times> nat) result" where
  "arc4random draws i = arc4random_buf draws i (replicate 4 0) 0 4"

text \<open>The bytes of the draws one after the other.\<close>

definition random_bytes :: "(nat \<Rightarrow> u32) \<Rightarrow> nat \<Rightarrow> nat \<Rightarrow> bytes" where
  "random_bytes draws i n = concat (map (\<lambda>k. to_le 4 (unat (draws k))) [i..<i + n])"

lemma random_bytes_simps:
  "random_bytes draws i 0 = []"
  "random_bytes draws i (Suc n) = to_le 4 (unat (draws i)) @ random_bytes draws (Suc i) n"
  by (simp_all add: random_bytes_def upt_conv_Cons del: upt_Suc)

lemma length_random_bytes [simp]: "length (random_bytes draws i n) = 4 * n"
  by (induction n arbitrary: i) (simp_all add: random_bytes_simps)

lemma arc4random_run:
  "buf + len \<le> length m \<Longrightarrow>
   arc4random_loop draws i m buf len =
     Inr (take buf m @ take len (random_bytes draws i ((len + 3) div 4)) @ drop (buf + len) m, i + (len + 3) div 4)"
proof (induction len arbitrary: i m buf rule: less_induct)
  case (less len)
  show ?case
  proof (cases "len = 0")
    case True
    then show ?thesis by (simp add: arc4random_loop.simps)
  next
    case False
    define n where "n = min len 4"
    define bs where "bs = take n (to_le 4 (unat (draws i)))"
    define m1 where "m1 = take buf m @ bs @ drop (buf + n) m"
    have bs: "length bs = n" by (simp add: bs_def n_def)
    have n: "n \<le> len" "0 < n" using False by (simp_all add: n_def)
    have w: "wr m buf bs = Inr m1" using less.prems n(1) bs by (simp add: wr_def m1_def)
    have len1: "length m1 = length m" using less.prems n(1) bs by (simp add: m1_def)
    have step: "arc4random_loop draws i m buf len = arc4random_loop draws (i + 1) m1 (buf + n) (len - n)"
      using False w by (subst arc4random_loop.simps) (simp add: Let_def n_def bs_def)
    have count: "(len + 3) div 4 = Suc ((len - n + 3) div 4)" 
    proof (cases "len \<le> 4")
      case True
      with False have "(len + 3) div 4 = 1" by linarith
      with True show ?thesis by (simp add: n_def)
    next
      case False
      then have "len + 3 = (len - n + 3) + 4" by (simp add: n_def)
      then show ?thesis by simp
    qed
    have rest: "take len (random_bytes draws i ((len + 3) div 4)) =
        bs @ take (len - n) (random_bytes draws (i + 1) ((len - n + 3) div 4))"
      unfolding count by (auto simp: random_bytes_simps bs_def n_def min_def)
    have "take (buf + n) m1 = take buf m @ bs" "drop (buf + len) m1 = drop (buf + len) m"
      using less.prems n(1) bs by (simp_all add: m1_def add.commute)
    then show ?thesis
      using less.IH [of "len - n" "buf + n" m1 "i + 1"] less.prems n len1 rest [unfolded count]
      by (simp add: step count)
  qed
qed

lemma to_le_4: "to_le 4 v = [word_of_nat v, word_of_nat (v div 256), word_of_nat (v div 256 div 256),
    word_of_nat (v div 256 div 256 div 256)]"
proof -
  have "(4 :: nat) = Suc (Suc (Suc (Suc 0)))" by simp
  then show ?thesis by (simp only: to_le.simps)
qed

lemma upt_0_2: "[0..<2] = [0, 1]"
  by (simp add: eval_nat_numeral)

section \<open>Properties\<close>

text \<open>
  C17. \<open>strlcpy\<close> returns the length of the whole source string, leaves in the destination
  that string cut to the given size, always terminated when there is room for a NUL, and
  touches no byte at or behind the given size, none at all when the size is zero.
\<close>

theorem strlcpy_correct:
  assumes "0 \<in> set src" and "unat siz \<le> length dst"
  shows "\<exists>dst'. strlcpy dst src siz = Inr (length (c_str src), dst') \<and>
    length dst' = length dst \<and> drop (unat siz) dst' = drop (unat siz) dst \<and>
    (siz \<noteq> 0 \<longrightarrow> 0 \<in> set (take (unat siz) dst') \<and> c_str dst' = take (unat siz - 1) (c_str src))"
proof -
  define kept where "kept = take (unat siz - 1) (c_str src)"
  have nonzero: "0 \<notin> set kept"
    by (auto simp: kept_def c_str_def dest!: in_set_takeD set_takeWhileD)
  show ?thesis
  proof (cases "siz = 0")
    case True
    then show ?thesis using strlcpy_run [OF assms] by (simp add: strlcpy_spec_def)
  next
    case False
    then have siz: "0 < unat siz" by (simp add: unat_gt_0)
    have fits: "length kept + 1 \<le> unat siz" using siz by (simp add: kept_def)
    let ?dst = "kept @ [0] @ drop (length kept + 1) dst"
    have "strlcpy dst src siz = Inr (length (c_str src), ?dst)"
      using strlcpy_run [OF assms] siz by (simp add: strlcpy_spec_def kept_def Let_def)
    moreover have "c_str ?dst = kept"
      using nonzero by (subst c_str_def, subst takeWhile_append2) auto
    moreover have "0 \<in> set (take (unat siz) ?dst)"
    proof -
      have "take (unat siz) ?dst ! length kept = 0" "length kept < length (take (unat siz) ?dst)"
        using fits assms(2) by (simp_all add: nth_append)
      then show ?thesis by (metis nth_mem)
    qed
    moreover have "drop (unat siz) ?dst = drop (unat siz) dst"
    proof -
      have "unat siz - length kept = Suc (unat siz - (length kept + 1))" using fits by simp
      with fits show ?thesis by simp
    qed
    moreover have "length ?dst = length dst" using fits assms(2) by simp
    ultimately show ?thesis unfolding kept_def by blast
  qed
qed

theorem strlcpy_correct_witness:
  "\<exists>dst'. strlcpy [9, 9, 9, 9] [104, 101, 108, 108, 111, 0, 7] 3 = Inr (5, dst') \<and> c_str dst' = [104, 101] \<and>
     drop 3 dst' = [9]"
  using strlcpy_correct [of "[104, 101, 108, 108, 111, 0, 7]" 3 "[9, 9, 9, 9]"] by (auto simp: c_str_def)

text \<open>
  C32. The checked functions keep fortified programs inside the destination: a size beyond the
  object aborts before anything is written, and any other size changes that many bytes at
  the start and nothing behind them.
\<close>

theorem fortify_contained:
  assumes "unat max_len \<le> length dst" and "unat sz \<le> length src" and "0 \<in> set src"
  shows "if max_len < sz
    then memcpy_chk dst src sz max_len = Inl (Aborted ''detected copy past buffer size'') \<and>
      memmove_chk dst src sz max_len = Inl (Aborted ''detected copy past buffer size'') \<and>
      memset_chk dst c sz max_len = Inl (Aborted ''detected set past buffer size'') \<and>
      strlcpy_chk dst src sz max_len = Inl (Aborted ''detected copy past buffer size'')
    else memcpy_chk dst src sz max_len = Inr (take (unat sz) src @ drop (unat sz) dst) \<and>
      memmove_chk dst src sz max_len = Inr (take (unat sz) src @ drop (unat sz) dst) \<and>
      memset_chk dst c sz max_len = Inr (replicate (unat sz) (word_of_int c) @ drop (unat sz) dst) \<and>
      strlcpy_chk dst src sz max_len = Inr (length (c_str src), strlcpy_spec dst (c_str src) (unat sz))"
proof (cases "max_len < sz")
  case True
  then show ?thesis by (simp add: memcpy_chk_def memmove_chk_def memset_chk_def strlcpy_chk_def)
next
  case False
  then have "unat sz \<le> unat max_len" by (simp add: word_le_nat_alt not_less)
  with assms(1) have fits: "unat sz \<le> length dst" by simp
  with False assms(2) strlcpy_run [OF assms(3) fits] show ?thesis
    by (simp add: memcpy_chk_def memmove_chk_def memset_chk_def strlcpy_chk_def c_memcpy_def c_memset_def rd_def wr_def)
qed

theorem fortify_contained_witness:
  "memcpy_chk [9, 9] [1, 2, 0] 3 2 = Inl (Aborted ''detected copy past buffer size'') \<and>
   memcpy_chk [9, 9] [1, 2, 0] 1 2 = Inr [1, 9]"
  using fortify_contained [of 2 "[9, 9]" 3 "[1, 2, 0]"] fortify_contained [of 2 "[9, 9]" 1 "[1, 2, 0]"] by simp

text \<open>
  C40. The fallback \<open>arc4random_buf\<close> ends after one draw for every four bytes it was asked
  for, the last one possibly used in part, and has then filled exactly the requested bytes.
\<close>

theorem arc4random_buf_fills:
  assumes "buf + len \<le> length m"
  shows "arc4random_buf draws i m buf len =
    Inr (take buf m @ take len (random_bytes draws i ((len + 3) div 4)) @ drop (buf + len) m, i + (len + 3) div 4)"
  using arc4random_run [OF assms] by (simp add: arc4random_buf_def)

theorem arc4random_buf_fills_witness:
  "\<exists>m'. arc4random_buf (\<lambda>k. of_nat k + 0x04030201) 0 (replicate 8 0) 1 5 = Inr (m', 2) \<and>
     take 6 m' = [0, 1, 2, 3, 4, 2]"
  using arc4random_buf_fills [of 1 5 "replicate 8 0" "\<lambda>k. of_nat k + 0x04030201" 0]
  by (simp add: random_bytes_def to_le_4 upt_0_2)

text \<open>
  A copy into a destination that is too small: \<open>__strcpy_chk\<close> is told the size and does not
  look at it, so that the access outside the object happens.
\<close>

lemma strcpy_chk_unchecked: "strcpy_chk [9, 9] [1, 2, 3, 0] 2 = Inl Memory_fault"
  by (simp add: strcpy_chk_def c_strcpy_def strlen_def c_str_def wr_def)

text \<open>\<open>arc4random\<close> is one draw.\<close>

lemma arc4random_one_draw: "arc4random draws i = Inr (to_le 4 (unat (draws i)), i + 1)"
  using arc4random_run [of 0 4 "replicate 4 0" draws i]
  by (simp add: arc4random_def arc4random_buf_def random_bytes_def)

end
