(* ===== verification/Poll.thy ===== *)
theory Poll
  imports Errno Time "HOL-Library.Signed_Division"
begin

text \<open>
  \<open>poll\<close> by way of \<open>select\<close>, as the Apple build implements it, and the checked \<open>FD_\<close>
  functions (src/src/file_misc.cpp). A descriptor set is a set of descriptors; the
  \<open>FD_\<close> macros on a descriptor outside 0 to \<open>FD_SETSIZE\<close> touch memory outside the set.
\<close>

section \<open>Descriptor sets\<close>

definition fd_in_range :: "headers \<Rightarrow> int \<Rightarrow> bool" where
  "fd_in_range h fd \<longleftrightarrow> 0 \<le> fd \<and> fd < h ''FD_SETSIZE''"

definition FD_ISSET_chk :: "headers \<Rightarrow> int \<Rightarrow> int set \<Rightarrow> bool result" where
  "FD_ISSET_chk h fd fds = (if fd_in_range h fd then Inr (fd \<in> fds) else Inl Memory_fault)"

definition FD_CLR_chk :: "headers \<Rightarrow> int \<Rightarrow> int set \<Rightarrow> int set result" where
  "FD_CLR_chk h fd fds = (if fd_in_range h fd then Inr (fds - {fd}) else Inl Memory_fault)"

definition FD_SET_chk :: "headers \<Rightarrow> int \<Rightarrow> int set \<Rightarrow> int set result" where
  "FD_SET_chk h fd fds = (if fd_in_range h fd then Inr (insert fd fds) else Inl Memory_fault)"

section \<open>poll\<close>

record pollfd =
  pfd :: int
  events :: "16 word"
  revents :: "16 word"

abbreviation poll_bit :: "headers \<Rightarrow> string \<Rightarrow> 16 word" where
  "poll_bit h m \<equiv> word_of_int (h m)"

record fd_sets =
  maxfd :: int
  r_fdset :: "int set"
  w_fdset :: "int set"
  e_fdset :: "int set"

text \<open>C++ division truncates towards zero, and the remainder takes the sign of the dividend.\<close>

definition poll_timeval :: "int \<Rightarrow> timeval" where
  "poll_timeval timeout = \<lparr>tv_sec = timeout sdiv 1000, tv_usec = (timeout smod 1000) * 1000\<rparr>"

fun poll_fill :: "headers \<Rightarrow> pollfd list \<Rightarrow> fd_sets \<Rightarrow> fd_sets result" where
  "poll_fill h [] s = Inr s"
| "poll_fill h (p # ps) s =
     (let s = (if pfd p > maxfd s then s\<lparr>maxfd := pfd p\<rparr> else s) in
      bindR (if events p AND poll_bit h ''POLLIN'' \<noteq> 0 \<or> events p AND poll_bit h ''POLLPRI'' \<noteq> 0
             then FD_SET_chk h (pfd p) (r_fdset s) else Inr (r_fdset s)) (\<lambda>r.
      bindR (if events p AND poll_bit h ''POLLOUT'' \<noteq> 0
             then FD_SET_chk h (pfd p) (w_fdset s) else Inr (w_fdset s)) (\<lambda>w.
      bindR (FD_SET_chk h (pfd p) (e_fdset s)) (\<lambda>e.
      poll_fill h ps (s\<lparr>r_fdset := r, w_fdset := w, e_fdset := e\<rparr>)))))"

fun poll_report :: "headers \<Rightarrow> fd_sets \<Rightarrow> pollfd list \<Rightarrow> pollfd list result" where
  "poll_report h s [] = Inr []"
| "poll_report h s (p # ps) =
     bindR (FD_ISSET_chk h (pfd p) (r_fdset s)) (\<lambda>r.
     bindR (FD_ISSET_chk h (pfd p) (w_fdset s)) (\<lambda>w.
     bindR (FD_ISSET_chk h (pfd p) (e_fdset s)) (\<lambda>e.
     let rev = (if r then 0 OR poll_bit h ''POLLIN'' else 0);
         rev = (if w then rev OR poll_bit h ''POLLOUT'' else rev);
         rev = (if e then rev OR poll_bit h ''POLLERR'' else rev) in
     bindR (poll_report h s ps) (\<lambda>ps. Inr (p\<lparr>revents := rev\<rparr> # ps)))))"

text \<open>The host's \<open>select\<close> takes \<open>nfds\<close>, the sets and the timeout, and changes the sets.\<close>

type_synonym 'w select_host = "int \<Rightarrow> fd_sets \<Rightarrow> timeval \<Rightarrow> 'w \<Rightarrow> (int \<times> fd_sets) \<times> 'w"

definition poll_via_select ::
  "headers \<Rightarrow> 'w select_host \<Rightarrow> pollfd list \<Rightarrow> int \<Rightarrow> ('w, int \<times> pollfd list) act" where
  "poll_via_select h select fds timeout =
     bindA (liftA (poll_fill h fds \<lparr>maxfd = 0, r_fdset = {}, w_fdset = {}, e_fdset = {}\<rparr>)) (\<lambda>s w.
       let ((ret, s), w) = select (maxfd s + 1) s (poll_timeval timeout) w in
       (bindR (poll_report h s fds) (\<lambda>fds. Inr (ret, fds)), w))"

text \<open>\<open>__poll_chk\<close>: the size of the array the caller knows is not looked at.\<close>

definition poll_chk ::
  "os \<Rightarrow> headers \<Rightarrow> ('w \<times> errno_state) select_host \<Rightarrow>
   (pollfd list \<Rightarrow> int \<Rightarrow> 'w \<times> errno_state \<Rightarrow> (int \<times> pollfd list) \<times> 'w \<times> errno_state) \<Rightarrow>
   pollfd list \<Rightarrow> int \<Rightarrow> nat \<Rightarrow> ('w \<times> errno_state, int \<times> pollfd list) act" where
  "poll_chk os h select host_poll fds timeout fdslen =
     bindA (if os = Apple then poll_via_select h select fds timeout
            else (\<lambda>s. let (r, s) = host_poll fds timeout s in (Inr r, s)))
       (\<lambda>r. bindA (modifyA (\<lambda>(w, e). (w, update_errno os h e))) (\<lambda>_. retA r))"

section \<open>What the sets contain\<close>

definition wants_in :: "headers \<Rightarrow> pollfd \<Rightarrow> bool" where
  "wants_in h p \<longleftrightarrow> events p AND poll_bit h ''POLLIN'' \<noteq> 0 \<or> events p AND poll_bit h ''POLLPRI'' \<noteq> 0"

definition wants_out :: "headers \<Rightarrow> pollfd \<Rightarrow> bool" where
  "wants_out h p \<longleftrightarrow> events p AND poll_bit h ''POLLOUT'' \<noteq> 0"

lemma poll_fill_run:
  "list_all (\<lambda>p. fd_in_range h (pfd p)) fds \<Longrightarrow>
   poll_fill h fds s = Inr \<lparr>maxfd = fold max (map pfd fds) (maxfd s),
     r_fdset = r_fdset s \<union> pfd ` {p \<in> set fds. wants_in h p},
     w_fdset = w_fdset s \<union> pfd ` {p \<in> set fds. wants_out h p},
     e_fdset = e_fdset s \<union> pfd ` set fds\<rparr>"
proof (induction fds arbitrary: s)
  case (Cons p fds)
  define s1 where "s1 = \<lparr>maxfd = max (pfd p) (maxfd s),
    r_fdset = (if wants_in h p then insert (pfd p) (r_fdset s) else r_fdset s),
    w_fdset = (if wants_out h p then insert (pfd p) (w_fdset s) else w_fdset s),
    e_fdset = insert (pfd p) (e_fdset s)\<rparr>"
  have "poll_fill h (p # fds) s = poll_fill h fds s1"
    using Cons.prems by (cases s) (simp add: FD_SET_chk_def s1_def wants_in_def wants_out_def Let_def max_def)
  with Cons.IH [of s1] Cons.prems show ?case
    by (simp add: s1_def) (intro conjI set_eqI; auto)
qed (cases s, simp)

lemma fold_max_ge: "x \<le> fold max xs x" "y \<in> set xs \<Longrightarrow> y \<le> fold max xs x" for x y :: int
proof (induction xs arbitrary: x)
  case (Cons a xs)
  {
    case 1
    show ?case using Cons(1) [of "max a x"] by simp
  next
    case 2
    then show ?case using Cons(1) [of "max a x"] Cons(2) [of "max a x"] by fastforce
  }
qed simp_all

definition answer :: "headers \<Rightarrow> fd_sets \<Rightarrow> pollfd \<Rightarrow> 16 word" where
  "answer h s p =
     (if pfd p \<in> r_fdset s then poll_bit h ''POLLIN'' else 0) OR
     (if pfd p \<in> w_fdset s then poll_bit h ''POLLOUT'' else 0) OR
     (if pfd p \<in> e_fdset s then poll_bit h ''POLLERR'' else 0)"

lemma poll_report_run:
  "list_all (\<lambda>p. fd_in_range h (pfd p)) fds \<Longrightarrow>
   poll_report h s fds = Inr (map (\<lambda>p. p\<lparr>revents := answer h s p\<rparr>) fds)"
  by (induction fds) (simp_all add: FD_ISSET_chk_def answer_def Let_def or.assoc)

text \<open>
  A \<open>select\<close> that does what its documentation says: of the descriptors below \<open>nfds\<close> it leaves
  the ready ones in the sets, and returns how many it left.
\<close>

definition ready_sets :: "(int \<Rightarrow> bool) \<Rightarrow> (int \<Rightarrow> bool) \<Rightarrow> (int \<Rightarrow> bool) \<Rightarrow> int \<Rightarrow> fd_sets \<Rightarrow> fd_sets" where
  "ready_sets readable writable exceptional nfds s =
     s\<lparr>r_fdset := {fd \<in> r_fdset s. fd < nfds \<and> readable fd},
       w_fdset := {fd \<in> w_fdset s. fd < nfds \<and> writable fd},
       e_fdset := {fd \<in> e_fdset s. fd < nfds \<and> exceptional fd}\<rparr>"

definition count_ready :: "fd_sets \<Rightarrow> int" where
  "count_ready s = int (card (r_fdset s) + card (w_fdset s) + card (e_fdset s))"

lemma in_image_distinct:
  assumes "distinct (map pfd fds)" and "p \<in> set fds"
  shows "pfd p \<in> pfd ` {q \<in> set fds. P q} \<longleftrightarrow> P p"
  using assms by (auto simp: distinct_map inj_on_def)

lemma card_ready:
  assumes "distinct (map pfd fds)" and "\<And>p. p \<in> set fds \<Longrightarrow> pfd p < n"
  shows "card {fd \<in> pfd ` {p \<in> set fds. P p}. fd < n \<and> R fd} = length (filter (\<lambda>p. P p \<and> R (pfd p)) fds)"
proof -
  have "{fd \<in> pfd ` {p \<in> set fds. P p}. fd < n \<and> R fd} = set (map pfd (filter (\<lambda>p. P p \<and> R (pfd p)) fds))"
    using assms(2) by auto
  moreover have "distinct (map pfd (filter (\<lambda>p. P p \<and> R (pfd p)) fds))"
    using assms(1) by (rule distinct_map_filter)
  ultimately show ?thesis using distinct_card by fastforce
qed

section \<open>Properties\<close>

text \<open>
  C19. Over a \<open>select\<close> that does what it promises, and for distinct descriptors in range,
  \<open>poll_via_select\<close> reports to each entry exactly the readiness it asked for, and exceptional
  conditions to all, and returns how many conditions it reported, one entry possibly counted
  several times; \<open>select\<close> is asked about every descriptor, for the requested number of
  milliseconds if it is not negative.
\<close>

theorem poll_via_select_reports:
  assumes "list_all (\<lambda>p. fd_in_range h (pfd p)) fds" and "distinct (map pfd fds)" and "0 \<le> timeout"
    and "\<And>nfds s t. tv_sec t * 1000 + tv_usec t div 1000 = timeout \<Longrightarrow>
      select nfds s t w = ((count_ready (ready_sets readable writable exceptional nfds s),
        ready_sets readable writable exceptional nfds s), w')"
  shows "poll_via_select h select fds timeout w =
    (Inr (int (length (filter (\<lambda>p. wants_in h p \<and> readable (pfd p)) fds) +
        length (filter (\<lambda>p. wants_out h p \<and> writable (pfd p)) fds) +
        length (filter (\<lambda>p. exceptional (pfd p)) fds)), map (\<lambda>p. p\<lparr>revents :=
      (if wants_in h p \<and> readable (pfd p) then poll_bit h ''POLLIN'' else 0) OR
      (if wants_out h p \<and> writable (pfd p) then poll_bit h ''POLLOUT'' else 0) OR
      (if exceptional (pfd p) then poll_bit h ''POLLERR'' else 0)\<rparr>) fds), w')"
proof -
  define s where "s = \<lparr>maxfd = fold max (map pfd fds) 0, r_fdset = pfd ` {p \<in> set fds. wants_in h p},
    w_fdset = pfd ` {p \<in> set fds. wants_out h p}, e_fdset = pfd ` set fds\<rparr>"
  define s' where "s' = ready_sets readable writable exceptional (maxfd s + 1) s"
  have fill: "poll_fill h fds \<lparr>maxfd = 0, r_fdset = {}, w_fdset = {}, e_fdset = {}\<rparr> = Inr s"
    using poll_fill_run [OF assms(1)] by (simp add: s_def)
  have "tv_sec (poll_timeval timeout) * 1000 + tv_usec (poll_timeval timeout) div 1000 = timeout"
    using assms(3) by (cases "timeout = 0")
      (simp_all add: poll_timeval_def signed_divide_int_def signed_modulo_int_def sgn_pos)
  then have sel: "select (maxfd s + 1) s (poll_timeval timeout) w = ((count_ready s', s'), w')"
    unfolding s'_def by (rule assms(4))
  have "answer h s' p = (if wants_in h p \<and> readable (pfd p) then poll_bit h ''POLLIN'' else 0) OR
      (if wants_out h p \<and> writable (pfd p) then poll_bit h ''POLLOUT'' else 0) OR
      (if exceptional (pfd p) then poll_bit h ''POLLERR'' else 0)" if p: "p \<in> set fds" for p
  proof -
    have "pfd p < maxfd s + 1" using fold_max_ge(2) [of "pfd p" "map pfd fds" 0] p by (simp add: s_def)
    then have "pfd p \<in> r_fdset s' \<longleftrightarrow> wants_in h p \<and> readable (pfd p)"
      "pfd p \<in> w_fdset s' \<longleftrightarrow> wants_out h p \<and> writable (pfd p)" "pfd p \<in> e_fdset s' \<longleftrightarrow> exceptional (pfd p)"
      using in_image_distinct [OF assms(2) p] p by (simp_all add: s'_def s_def ready_sets_def)
    then show ?thesis by (simp add: answer_def)
  qed
  then have "poll_report h s' fds = Inr (map (\<lambda>p. p\<lparr>revents :=
      (if wants_in h p \<and> readable (pfd p) then poll_bit h ''POLLIN'' else 0) OR
      (if wants_out h p \<and> writable (pfd p) then poll_bit h ''POLLOUT'' else 0) OR
      (if exceptional (pfd p) then poll_bit h ''POLLERR'' else 0)\<rparr>) fds)"
    by (simp add: poll_report_run [OF assms(1)] del: bit_simps cong: map_cong)
  moreover have "count_ready s' = int (length (filter (\<lambda>p. wants_in h p \<and> readable (pfd p)) fds) +
      length (filter (\<lambda>p. wants_out h p \<and> writable (pfd p)) fds) + length (filter (\<lambda>p. exceptional (pfd p)) fds))"
  proof -
    have below: "p \<in> set fds \<Longrightarrow> pfd p < maxfd s + 1" for p
      using fold_max_ge(2) [of "pfd p" "map pfd fds" 0] by (simp add: s_def)
    note card_ready [OF assms(2) below]
    from this [of "wants_in h" readable] this [of "wants_out h" writable] this [of "\<lambda>_. True" exceptional]
    show ?thesis by (simp add: count_ready_def s'_def ready_sets_def s_def)
  qed
  ultimately show ?thesis using fill sel by (simp add: poll_via_select_def)
qed

definition poll_headers :: headers where
  "poll_headers m = (case map_of [(''POLLIN'', 1), (''POLLPRI'', 2), (''POLLOUT'', 4), (''POLLERR'', 8),
     (''FD_SETSIZE'', 1024)] m of Some v \<Rightarrow> v | None \<Rightarrow> 0)"

definition two_polls :: "pollfd list" where
  "two_polls = [\<lparr>pfd = 5, events = 5, revents = 0\<rparr>, \<lparr>pfd = 3, events = 4, revents = 0\<rparr>]"

text \<open>
  Descriptor 5 is readable and writable, 3 only readable, which it was not asked for: one entry
  has an answer, but the result is 2, where \<open>poll\<close> counts the entries.
\<close>

theorem poll_via_select_reports_witness:
  "poll_via_select poll_headers (\<lambda>nfds s t w. let s = ready_sets (\<lambda>fd. True) (\<lambda>fd. fd = 5) (\<lambda>fd. False) nfds s
       in ((count_ready s, s), w)) two_polls 1500 () =
     (Inr (2, [\<lparr>pfd = 5, events = 5, revents = 5\<rparr>, \<lparr>pfd = 3, events = 4, revents = 0\<rparr>]), ())"
proof -
  have "list_all (\<lambda>p. fd_in_range poll_headers (pfd p)) two_polls" "distinct (map pfd two_polls)" "0 \<le> (1500 :: int)"
    by (simp_all add: two_polls_def fd_in_range_def poll_headers_def)
  from poll_via_select_reports [OF this, of "\<lambda>nfds s t w. let s = ready_sets (\<lambda>fd. True) (\<lambda>fd. fd = 5) (\<lambda>fd. False) nfds s
       in ((count_ready s, s), w)" "()" "\<lambda>fd. True" "\<lambda>fd. fd = 5" "\<lambda>fd. False" "()"]
  show ?thesis by (simp add: Let_def two_polls_def wants_in_def wants_out_def poll_headers_def)
qed

text \<open>An infinite wait, timeout -1, becomes a negative number of microseconds.\<close>

lemma infinite_timeout: "poll_timeval (- 1) = \<lparr>tv_sec = 0, tv_usec = - 1000\<rparr>"
  by (simp add: poll_timeval_def signed_divide_int_def signed_modulo_int_def)

text \<open>The entries \<open>poll\<close> is told to skip, with a negative descriptor, are written to the sets.\<close>

lemma ignored_entry_faults:
  "poll_via_select h select [\<lparr>pfd = - 1, events = ev, revents = rv\<rparr>] timeout w = (Inl Memory_fault, w)"
  by (simp add: poll_via_select_def FD_SET_chk_def fd_in_range_def Let_def)

end
