(* ===== verification/Path_Rewrite.thy ===== *)
theory Path_Rewrite
  imports Prelude "HOL-Library.Sublist"
begin

text \<open>
  Redirection of file system accesses (src/src/iorewrite.h, src/src/iorewrite.cpp). The
  embedding program lists pairs of a path prefix and its replacement; every path argument of
  the wrapped functions goes through \<open>iorewrite0\<close>. Paths are C strings, without their NUL;
  a null pointer is \<open>None\<close>.
\<close>

type_synonym path_rule = "string \<times> string"

section \<open>The rewriting\<close>

text \<open>
  \<open>kv.second.rfind(kv.first.data(), 0)\<close> looks for the prefix at position 0 only: it is 0, and
  the rule does not apply, if the replacement itself begins with the prefix.
\<close>

definition rfind_0 :: "string \<Rightarrow> string \<Rightarrow> bool" where
  "rfind_0 second first \<longleftrightarrow> \<not> (length first \<le> length second \<and> take (length first) second = first)"

fun iorewrite_rules :: "path_rule list \<Rightarrow> string \<Rightarrow> string" where
  "iorewrite_rules [] path = path"
| "iorewrite_rules ((first, second) # rules) path =
     (if path ! 0 \<noteq> CHR ''/'' \<and> first = ''.'' then second @ path
      else if length path \<ge> length first \<and> take (length first) path = first \<and> rfind_0 second first
      then second @ drop (length first) path
      else iorewrite_rules rules path)"

definition iorewrite0 :: "path_rule list \<Rightarrow> string option \<Rightarrow> string" where
  "iorewrite0 rules path =
     (let len = (case path of Some p \<Rightarrow> length p | None \<Rightarrow> 0) in
      if len > 0 then iorewrite_rules rules (the path) else [])"

text \<open>
  \<open>IOREWRITE1\<close> and \<open>IOREWRITE2\<close> wrap a function whose first one or two arguments are
  paths; the remaining arguments are part of \<open>org\<close>'s result type.
\<close>

definition iorewrite1 :: "path_rule list \<Rightarrow> (string option \<Rightarrow> 'r) \<Rightarrow> string option \<Rightarrow> 'r" where
  "iorewrite1 rules org path1 = org (Some (iorewrite0 rules path1))"

definition iorewrite2 ::
  "path_rule list \<Rightarrow> (string option \<Rightarrow> string option \<Rightarrow> 'r) \<Rightarrow> string option \<Rightarrow> string option \<Rightarrow> 'r" where
  "iorewrite2 rules org path1 path2 =
     org (Some (iorewrite0 rules path1)) (Some (iorewrite0 rules path2))"

section \<open>Which rule applies\<close>

lemma rfind_0_prefix: "rfind_0 second first \<longleftrightarrow> \<not> prefix first second"
  by (auto simp: rfind_0_def prefix_def) (metis append_take_drop_id)

definition current_dir_rule :: "path_rule \<Rightarrow> string \<Rightarrow> bool" where
  "current_dir_rule r p \<longleftrightarrow> p ! 0 \<noteq> CHR ''/'' \<and> fst r = ''.''"

definition prefix_rule :: "path_rule \<Rightarrow> string \<Rightarrow> bool" where
  "prefix_rule r p \<longleftrightarrow> prefix (fst r) p \<and> \<not> prefix (fst r) (snd r)"

definition hits :: "path_rule \<Rightarrow> string \<Rightarrow> bool" where
  "hits r p \<longleftrightarrow> current_dir_rule r p \<or> prefix_rule r p"

lemma iorewrite_rules_Cons:
  "iorewrite_rules (r # rules) p =
     (if current_dir_rule r p then snd r @ p
      else if prefix_rule r p then snd r @ drop (length (fst r)) p
      else iorewrite_rules rules p)"
proof -
  have "length (fst r) \<le> length p \<and> take (length (fst r)) p = fst r \<longleftrightarrow> prefix (fst r) p"
    by (auto simp: prefix_def) (metis append_take_drop_id)
  then show ?thesis
    by (cases r) (auto simp: current_dir_rule_def prefix_rule_def rfind_0_prefix)
qed

lemma iorewrite_none: "\<forall>r \<in> set rules. \<not> hits r p \<Longrightarrow> iorewrite_rules rules p = p"
  by (induction rules) (auto simp: iorewrite_rules_Cons hits_def simp del: iorewrite_rules.simps(2))

lemma iorewrite_first:
  "\<forall>r \<in> set before. \<not> hits r p \<Longrightarrow> iorewrite_rules (before @ rules) p = iorewrite_rules rules p"
  by (induction before) (auto simp: iorewrite_rules_Cons hits_def simp del: iorewrite_rules.simps)

text \<open>
  Rules that do not interfere: replacements are absolute paths, and a rule's prefix neither
  begins nor continues another rule's replacement, unless the rule is switched off by being a
  prefix of its own replacement.
\<close>

definition rules_independent :: "path_rule list \<Rightarrow> bool" where
  "rules_independent rules \<longleftrightarrow>
     list_all (\<lambda>(k, v). v \<noteq> [] \<and> v ! 0 = CHR ''/'' \<and>
       list_all (\<lambda>(k', v'). prefix k' v' \<or> \<not> prefix k' v \<and> \<not> prefix v k') rules) rules"

lemma no_hit_below:
  assumes "rules_independent rules" and "(k, v) \<in> set rules" and "r \<in> set rules"
  shows "\<not> hits r (v @ rest)"
proof -
  from assms(1,2) have v: "v \<noteq> []" "v ! 0 = CHR ''/''"
    and others: "list_all (\<lambda>(k', v'). prefix k' v' \<or> \<not> prefix k' v \<and> \<not> prefix v k') rules"
    by (auto simp: rules_independent_def list_all_iff dest: bspec [where x = "(k, v)"])
  from others assms(3) have "prefix (fst r) (snd r) \<or> \<not> prefix (fst r) v \<and> \<not> prefix v (fst r)"
    unfolding list_all_iff by (auto split: prod.splits)
  then have "\<not> prefix_rule r (v @ rest)"
    by (meson prefix_rule_def prefix_same_cases prefixI)
  moreover have "\<not> current_dir_rule r (v @ rest)" using v by (simp add: current_dir_rule_def nth_append)
  ultimately show ?thesis by (simp add: hits_def)
qed

lemma rewrite_result:
  "iorewrite_rules rules p = p \<and> (\<forall>r \<in> set rules. \<not> hits r p) \<or>
   (\<exists>(k, v) \<in> set rules. \<exists>rest. iorewrite_rules rules p = v @ rest)"
proof (induction rules)
  case (Cons r rules)
  then show ?case
    by (cases r) (auto simp: iorewrite_rules_Cons hits_def simp del: iorewrite_rules.simps(2))
qed simp

lemma rewrite_stable:
  assumes "rules_independent rules"
  shows "iorewrite_rules rules (iorewrite_rules rules p) = iorewrite_rules rules p"
  using rewrite_result [of rules p]
proof
  assume "\<exists>(k, v) \<in> set rules. \<exists>rest. iorewrite_rules rules p = v @ rest"
  then obtain k v rest where kv: "(k, v) \<in> set rules" "iorewrite_rules rules p = v @ rest" by auto
  from no_hit_below [OF assms kv(1)] have "\<forall>r \<in> set rules. \<not> hits r (v @ rest)" by blast
  then show ?thesis unfolding kv(2) by (rule iorewrite_none)
qed simp

lemma iorewrite0_stable:
  assumes "rules_independent rules"
  shows "iorewrite0 rules (Some (iorewrite0 rules path)) = iorewrite0 rules path"
  using rewrite_stable [OF assms]
  by (cases path) (auto simp: iorewrite0_def Let_def)

section \<open>Properties\<close>

text \<open>
  C24. A path is rewritten by the first rule that hits it and by no other: a relative path by a
  rule for the current directory, which puts the replacement in front of all of it, any other
  by a rule whose prefix it begins with, which exchanges the prefix. A path that no rule
  hits is handed on unchanged, the null pointer and the empty path as the empty path.
\<close>

theorem iorewrite_first_match:
  assumes "p \<noteq> []" and "\<forall>r \<in> set before. \<not> hits r p"
  shows "iorewrite0 before (Some p) = p \<and>
    (current_dir_rule (k, v) p \<longrightarrow> iorewrite0 (before @ (k, v) # after) (Some p) = v @ p) \<and>
    (prefix_rule (k, v) (k @ rest) \<longrightarrow> p = k @ rest \<longrightarrow> \<not> current_dir_rule (k, v) p \<longrightarrow>
      iorewrite0 (before @ (k, v) # after) (Some p) = v @ rest) \<and>
    iorewrite0 before None = [] \<and> iorewrite0 before (Some []) = []"
  using assms iorewrite_none [OF assms(2)] iorewrite_first [OF assms(2), of "(k, v) # after"]
  by (auto simp: iorewrite0_def Let_def iorewrite_rules_Cons simp del: iorewrite_rules.simps)

theorem iorewrite_first_match_witness:
  "iorewrite0 [(''/sdcard'', ''/home/u/sd''), (''/data'', ''/home/u/d'')] (Some ''/data/x'') = ''/home/u/d/x''"
  using iorewrite_first_match [of "''/data/x''" "[(''/sdcard'', ''/home/u/sd'')]" "''/data''" "''/home/u/d''"
      "[]" "''/x''"]
  by (simp add: hits_def current_dir_rule_def prefix_rule_def)

text \<open>
  The double rewriting of \<open>__libc_shim_open_3\<close>: rules that chain are applied twice.
\<close>

lemma chained_rules_not_stable:
  "iorewrite0 [(''/a'', ''/b''), (''/b'', ''/c'')] (Some ''/a/f'') = ''/b/f''"
  "iorewrite0 [(''/a'', ''/b''), (''/b'', ''/c'')] (Some ''/b/f'') = ''/c/f''"
  by (simp_all add: iorewrite0_def rfind_0_def)

end
