(* ===== verification/File_Misc.thy ===== *)
theory File_Misc
  imports Path_Rewrite Strings Flags Errno Sockaddr
begin

text \<open>
  Opening files, \<open>fcntl\<close> and \<open>ioctl\<close> (src/src/file_misc.cpp). Host calls are parameters over
  a host state \<open>'w\<close>; where the shim publishes the error number itself the state is a pair
  of it and the error variables.
\<close>

section \<open>Opening files\<close>

type_synonym 'w open_host = "string option \<Rightarrow> u32 \<Rightarrow> int \<Rightarrow> 'w \<times> errno_state \<Rightarrow> int \<times> 'w \<times> errno_state"

definition with_update_errno ::
  "os \<Rightarrow> headers \<Rightarrow> ('w \<times> errno_state \<Rightarrow> int \<times> 'w \<times> errno_state) \<Rightarrow> ('w \<times> errno_state, int) act" where
  "with_update_errno os h call s = (let (ret, w, e) = call s in (Inr ret, w, update_errno os h e))"

text \<open>
  \<open>open\<close> reads its variadic mode argument only when the file may be created; \<open>mode_arg\<close> is
  what the caller passed there.
\<close>

definition open_mode :: "headers \<Rightarrow> u32 \<Rightarrow> int \<Rightarrow> int" where
  "open_mode h hflags mode_arg = (if hflags AND hmask h ''O_CREAT'' \<noteq> 0 then mode_arg else 0)"

definition open_path ::
  "os \<Rightarrow> headers \<Rightarrow> path_rule list \<Rightarrow> 'w open_host \<Rightarrow> string option \<Rightarrow> u32 \<Rightarrow> int \<Rightarrow> ('w \<times> errno_state, int) act" where
  "open_path os h rules host pathname flags mode_arg =
     (let hflags = to_host_file_status_flags h flags; mode = open_mode h hflags mode_arg in
      with_update_errno os h (host (Some (iorewrite0 rules pathname)) hflags mode))"

definition openat ::
  "os \<Rightarrow> headers \<Rightarrow> path_rule list \<Rightarrow> (int \<Rightarrow> 'w open_host) \<Rightarrow> int \<Rightarrow> string option \<Rightarrow> u32 \<Rightarrow> int \<Rightarrow>
   ('w \<times> errno_state, int) act" where
  "openat os h rules host dirfd pathname flags mode_arg =
     (let hflags = to_host_file_status_flags h flags; mode = open_mode h hflags mode_arg in
      with_update_errno os h (host dirfd (Some (iorewrite0 rules pathname)) hflags mode))"

definition open_2 ::
  "os \<Rightarrow> headers \<Rightarrow> 'w open_host \<Rightarrow> string option \<Rightarrow> u32 \<Rightarrow> ('w \<times> errno_state, int) act" where
  "open_2 os h host pathname flags =
     (let hflags = to_host_file_status_flags h flags in
      with_update_errno os h (host pathname hflags 0))"

definition open_3 ::
  "os \<Rightarrow> headers \<Rightarrow> path_rule list \<Rightarrow> 'w open_host \<Rightarrow> string option \<Rightarrow> u32 \<Rightarrow> int \<Rightarrow> ('w \<times> errno_state, int) act" where
  "open_3 os h rules host pathname flags mode =
     (let hflags = to_host_file_status_flags h flags in
      with_update_errno os h (host (Some (iorewrite0 rules pathname)) hflags mode))"

text \<open>
  What the table of symbols binds \<open>__open_2\<close> and \<open>__libc_shim_open_3\<close> to: the functions
  above inside \<open>IOREWRITE1\<close>.
\<close>

definition open_2_symbol ::
  "os \<Rightarrow> headers \<Rightarrow> path_rule list \<Rightarrow> 'w open_host \<Rightarrow> string option \<Rightarrow> u32 \<Rightarrow> ('w \<times> errno_state, int) act" where
  "open_2_symbol os h rules host pathname flags =
     iorewrite1 rules (\<lambda>p. open_2 os h host p flags) pathname"

definition open_3_symbol ::
  "os \<Rightarrow> headers \<Rightarrow> path_rule list \<Rightarrow> 'w open_host \<Rightarrow> string option \<Rightarrow> u32 \<Rightarrow> int \<Rightarrow> ('w \<times> errno_state, int) act" where
  "open_3_symbol os h rules host pathname flags mode =
     iorewrite1 rules (\<lambda>p. open_3 os h rules host p flags mode) pathname"

section \<open>fcntl\<close>

record flock =
  l_type :: "16 word"
  l_whence :: "16 word"
  l_start :: int
  l_len :: int
  l_pid :: int

text \<open>The host calls \<open>fcntl\<close> ends in, and its variadic argument: a number or a lock.\<close>

datatype host_fcntl = F_SETFD int | F_GETFL | F_SETFL u32 | F_SETLK flock

datatype fcntl_arg = Arg_word u64 | Arg_lock flock

fun fcntl_word :: "fcntl_arg \<Rightarrow> u64 result" where
  "fcntl_word (Arg_word v) = Inr v"
| "fcntl_word (Arg_lock l) = Inl Memory_fault"

fun fcntl_lock :: "fcntl_arg \<Rightarrow> flock result" where
  "fcntl_lock (Arg_lock l) = Inr l"
| "fcntl_lock (Arg_word v) = Inl Memory_fault"

definition fcntl ::
  "headers \<Rightarrow> (int \<Rightarrow> host_fcntl \<Rightarrow> 'w \<Rightarrow> int \<times> 'w) \<Rightarrow> int \<Rightarrow> int \<Rightarrow> fcntl_arg \<Rightarrow> ('w, int) act" where
  "fcntl h host fd cmd arg =
     (if cmd = 2 then bindA (liftA (fcntl_word arg)) (\<lambda>v w.
        let (ret, w) = host fd (F_SETFD (sint (ucast v :: u32))) w in (Inr ret, w))
      else if cmd = 3 then (\<lambda>w.
        let (ret, w) = host fd F_GETFL w in
        (bindR (from_host_file_status_flags h (word_of_int ret)) (\<lambda>v. Inr (sint v)), w))
      else if cmd = 4 then bindA (liftA (fcntl_word arg)) (\<lambda>v w.
        let (ret, w) = host fd (F_SETFL (to_host_file_status_flags h (ucast v))) w in (Inr ret, w))
      else if cmd = 6 then bindA (liftA (fcntl_lock arg)) (\<lambda>afl w.
        let fl = \<lparr>l_type = l_type afl, l_whence = l_whence afl, l_start = l_start afl,
              l_len = l_len afl, l_pid = l_pid afl\<rparr>;
            (ret, w) = host fd (F_SETLK fl) w in (Inr ret, w))
      else liftA (Inl (Runtime_error ''Unsupported fcntl %d'' [cmd])))"

section \<open>ioctl\<close>

text \<open>
  The guest's \<open>ifreq\<close>; its address is a \<open>sockaddr_in\<close> of 16 bytes. The host's \<open>ifreq\<close> is
  a pair of the name and the address.
\<close>

record ifreq =
  if_name :: bytes
  if_addr :: bytes

definition sizeof_ifreq :: "bool \<Rightarrow> nat" where
  "sizeof_ifreq b64 = (if b64 then 40 else 32)"

datatype ioctl_arg = Arg_raw u64 | Arg_ifreq ifreq | Arg_ifconf int "ifreq list"

record 'w host_ioctl =
  fionbio :: "int \<Rightarrow> ioctl_arg \<Rightarrow> 'w \<Rightarrow> int \<times> 'w"
  siocgifnetmask :: "int \<Rightarrow> bytes \<times> bytes \<Rightarrow> 'w \<Rightarrow> (int \<times> bytes \<times> bytes) \<times> 'w"
  siocgifconf :: "int \<Rightarrow> nat \<Rightarrow> 'w \<Rightarrow> (int \<times> (bytes \<times> bytes) list) \<times> 'w"

text \<open>\<open>strncpy(dst, src, 16); dst[15] = 0\<close>.\<close>

definition copy_name :: "bytes \<Rightarrow> bytes \<Rightarrow> bytes result" where
  "copy_name dst src = bindR (c_strncpy dst src 16) (\<lambda>m. store1 m 15 0)"

definition netmask ::
  "sa_layout \<Rightarrow> headers \<Rightarrow> (bytes \<times> bytes \<Rightarrow> 'w \<Rightarrow> (int \<times> bytes \<times> bytes) \<times> 'w) \<Rightarrow> ifreq \<Rightarrow> ('w, int \<times> ifreq) act" where
  "netmask L h host buf =
     bindA (liftA (to_host_sockaddr L h (if_addr buf) (replicate 16 0))) (\<lambda>raddr.
     bindA (liftA (copy_name (replicate 16 0) (if_name buf))) (\<lambda>rname w.
       let ((ret, rname, raddr), w) = host (rname, raddr) w in
       if ret < 0 then (Inr (ret, buf), w)
       else (bindR (from_host_sockaddr L h raddr (if_addr buf)) (\<lambda>addr.
             bindR (copy_name (if_name buf) rname) (\<lambda>nm.
               Inr (ret, \<lparr>if_name = nm, if_addr = addr\<rparr>))), w)))"

text \<open>
  The loop over what the host returned for \<open>SIOCGIFCONF\<close>. The name is copied before the
  family is looked at; an entry of another family is overwritten by the next one.
\<close>

fun ifconf_loop ::
  "sa_layout \<Rightarrow> headers \<Rightarrow> nat \<Rightarrow> (bytes \<times> bytes) list \<Rightarrow> nat \<Rightarrow> ifreq list \<Rightarrow> (nat \<times> ifreq list) result" where
  "ifconf_loop L h maxcnt [] cnt req = Inr (cnt, req)"
| "ifconf_loop L h maxcnt ((name, addr) # rest) cnt req =
     (if cnt < maxcnt then
        if length req \<le> cnt then Inl Memory_fault
        else bindR (copy_name (if_name (req ! cnt)) name) (\<lambda>nm.
          let req = req[cnt := (req ! cnt)\<lparr>if_name := nm\<rparr>] in
          bindR (load_le addr (family_off L) (family_len L)) (\<lambda>fam.
            if int fam = h ''AF_INET'' then
              bindR (from_host_sockaddr L h addr (if_addr (req ! cnt))) (\<lambda>a.
              bindR (to_host_sockaddr L h a addr) (\<lambda>_.
                ifconf_loop L h maxcnt rest (cnt + 1) (req[cnt := (req ! cnt)\<lparr>if_addr := a\<rparr>])))
            else ifconf_loop L h maxcnt rest cnt req))
      else Inr (cnt, req))"

text \<open>A negative length becomes a huge array, which \<open>new\<close> refuses with an exception.\<close>

definition ifconf ::
  "bool \<Rightarrow> sa_layout \<Rightarrow> headers \<Rightarrow> (nat \<Rightarrow> 'w \<Rightarrow> (int \<times> (bytes \<times> bytes) list) \<times> 'w) \<Rightarrow> int \<Rightarrow> ifreq list \<Rightarrow>
   ('w, int \<times> int \<times> ifreq list) act" where
  "ifconf b64 L h host len req w =
     (if len < 0 then (Inl (Runtime_error ''bad_array_new_length'' []), w)
      else let cnt = nat len div sizeof_ifreq b64; ((ret, entries), w) = host cnt w in
        if ret < 0 then (Inr (ret, len, req), w)
        else (bindR (ifconf_loop L h cnt entries 0 req) (\<lambda>(cnt, req).
          Inr (ret, int (cnt * sizeof_ifreq b64), req)), w))"

definition ioctl ::
  "bool \<Rightarrow> sa_layout \<Rightarrow> headers \<Rightarrow> 'w host_ioctl \<Rightarrow> int \<Rightarrow> u64 \<Rightarrow> ioctl_arg \<Rightarrow> ('w, int \<times> ioctl_arg) act" where
  "ioctl b64 L h host fd cmd arg =
     (if cmd = 0x5421 then (\<lambda>w. let (ret, w) = fionbio host fd arg w in (Inr (ret, arg), w))
      else if cmd = 0x891b then
        (case arg of Arg_ifreq buf \<Rightarrow>
            bindA (netmask L h (siocgifnetmask host fd) buf) (\<lambda>(ret, buf). retA (ret, Arg_ifreq buf))
          | _ \<Rightarrow> liftA (Inl Memory_fault))
      else if cmd = 0x8912 then
        (case arg of Arg_ifconf len req \<Rightarrow>
            bindA (ifconf b64 L h (siocgifconf host fd) len req) (\<lambda>(ret, len, req). retA (ret, Arg_ifconf len req))
          | _ \<Rightarrow> liftA (Inl Memory_fault))
      else retA (0, arg))"

section \<open>Names and addresses of interfaces\<close>

text \<open>The name a 16-byte field ends up with.\<close>

definition name16 :: "bytes \<Rightarrow> bytes" where
  "name16 src = (take 16 (c_str src @ replicate 16 0))[15 := 0]"

lemma copy_name_run:
  assumes "16 \<le> length src" and "length dst = 16"
  shows "copy_name dst src = Inr (name16 src)"
proof -
  have "length (take 16 (c_str src @ replicate 16 0)) = 16" by simp
  with assms show ?thesis by (simp add: copy_name_def c_strncpy_def wr_def store1_def name16_def)
qed

lemma length_name16 [simp]: "length (name16 src) = 16"
  by (simp add: name16_def)

text \<open>Well-formed guest entries, what the shim takes for an internet entry, and what such an
  entry becomes.\<close>

definition ifreq_ok :: "ifreq \<Rightarrow> bool" where
  "ifreq_ok r \<longleftrightarrow> length (if_name r) = 16 \<and> length (if_addr r) = 16"

definition inet_entry :: "sa_layout \<Rightarrow> headers \<Rightarrow> bytes \<times> bytes \<Rightarrow> bool" where
  "inet_entry L h e \<longleftrightarrow>
     (case load_le (snd e) (family_off L) (family_len L) of Inr fam \<Rightarrow> int fam = h ''AF_INET'' | _ \<Rightarrow> False)"

definition host_entry_ok :: "sa_layout \<Rightarrow> headers \<Rightarrow> bytes \<times> bytes \<Rightarrow> bool" where
  "host_entry_ok L h e \<longleftrightarrow>
     16 \<le> length (fst e) \<and> family_off L + family_len L \<le> length (snd e) \<and> in_addr L + 4 \<le> length (snd e) \<and>
     (inet_entry L h e \<longrightarrow> (\<exists>p a. host_view L h (snd e) = Inr (V_inet p a)))"

definition shows_entry :: "sa_layout \<Rightarrow> headers \<Rightarrow> ifreq \<Rightarrow> bytes \<times> bytes \<Rightarrow> bool" where
  "shows_entry L h r e \<longleftrightarrow> if_name r = name16 (fst e) \<and> guest_view (if_addr r) = host_view L h (snd e)"

lemma inet_converts:
  assumes "sa_layout_ok L" and "af_headers_ok L h" and "host_view L h i = Inr (V_inet p a)"
    and "length out = 16" and "in_addr L + 4 \<le> length i"
  shows "\<exists>out'. from_host_sockaddr L h i out = Inr out' \<and> guest_view out' = Inr (V_inet p a) \<and>
    length out' = 16 \<and> (\<exists>i'. to_host_sockaddr L h out' i = Inr i')"
proof -
  note wf = host_view_wf [OF assms(3)]
  have "view_end bionic_layout (V_inet p a) \<le> length out" using assms(4) by (simp add: bionic_layout_def)
  from bionic_store_view [OF wf this] obtain out' where out': "guest_view out' = Inr (V_inet p a)"
    "store_view bionic_layout 2 (V_inet p a) out = Inr out'" "length out' = 16"
    using assms(4) by auto
  moreover have "\<exists>i'. to_host_sockaddr L h out' i = Inr i'"
    using host_store_view [OF assms(1,2) wf, of i] assms(5)
    unfolding to_host_stores [OF assms(2) out'(1)] by auto
  ultimately show ?thesis by (simp add: from_host_stores [OF assms(2,3)])
qed

lemma ifconf_run:
  assumes L: "sa_layout_ok L" "af_headers_ok L h"
  shows "list_all (host_entry_ok L h) es \<Longrightarrow> list_all ifreq_ok req \<Longrightarrow> maxcnt \<le> length req \<Longrightarrow> cnt \<le> maxcnt \<Longrightarrow>
    \<exists>req'. ifconf_loop L h maxcnt es cnt req = Inr (cnt + min (maxcnt - cnt) (length (filter (inet_entry L h) es)), req') \<and>
      length req' = length req \<and> take cnt req' = take cnt req \<and>
      list_all2 (shows_entry L h) (take (min (maxcnt - cnt) (length (filter (inet_entry L h) es))) (drop cnt req'))
        (take (maxcnt - cnt) (filter (inet_entry L h) es))"
proof (induction es arbitrary: cnt req)
  case (Cons e es)
  obtain nm ad where e: "e = (nm, ad)" by (cases e)
  show ?case
  proof (cases "cnt < maxcnt")
    case False
    then show ?thesis using Cons.prems(4) by (simp add: e)
  next
    case True
    then have c: "cnt < length req" using Cons.prems(3) by simp
    with Cons.prems(2) have ok: "ifreq_ok (req ! cnt)" by (simp add: list_all_length)
    from Cons.prems(1) have ok_e: "host_entry_ok L h e" and ok_es: "list_all (host_entry_ok L h) es" by simp_all
    define r1 where "r1 = (req ! cnt)\<lparr>if_name := name16 nm\<rparr>"
    have name: "copy_name (if_name (req ! cnt)) nm = Inr (name16 nm)"
      using ok ok_e by (intro copy_name_run) (simp_all add: ifreq_ok_def host_entry_ok_def e)
    have r1: "ifreq_ok r1" using ok by (simp add: ifreq_ok_def r1_def)
    from ok_e obtain fam where fam: "load_le ad (family_off L) (family_len L) = Inr fam"
      by (auto simp: host_entry_ok_def e load_le_def rd_def)
    show ?thesis
    proof (cases "inet_entry L h e")
      case False
      then have other: "int fam \<noteq> h ''AF_INET''" by (simp add: inet_entry_def e fam)
      have "list_all ifreq_ok (req[cnt := r1])"
        using Cons.prems(2) r1 c by (simp add: list_all_length nth_list_update)
      from Cons.IH [OF ok_es this _ Cons.prems(4)] Cons.prems(3) obtain req' where
        "ifconf_loop L h maxcnt es cnt (req[cnt := r1]) =
          Inr (cnt + min (maxcnt - cnt) (length (filter (inet_entry L h) es)), req')"
        "length req' = length req" "take cnt req' = take cnt req"
        "list_all2 (shows_entry L h) (take (min (maxcnt - cnt) (length (filter (inet_entry L h) es))) (drop cnt req'))
          (take (maxcnt - cnt) (filter (inet_entry L h) es))" by auto
      moreover have "ifconf_loop L h maxcnt (e # es) cnt req = ifconf_loop L h maxcnt es cnt (req[cnt := r1])"
        using True c name fam other by (simp add: e r1_def)
      ultimately show ?thesis using False by simp
    next
      case inet: True
      then have same: "int fam = h ''AF_INET''" by (simp add: inet_entry_def e fam)
      from ok_e inet obtain p a where view: "host_view L h ad = Inr (V_inet p a)"
        by (auto simp: host_entry_ok_def e)
      have "length (if_addr (req ! cnt)) = 16" "in_addr L + 4 \<le> length ad"
        using ok ok_e by (simp_all add: ifreq_ok_def host_entry_ok_def e)
      from inet_converts [OF L view this] obtain ad' i' where
        ad': "from_host_sockaddr L h ad (if_addr (req ! cnt)) = Inr ad'" "guest_view ad' = Inr (V_inet p a)"
          "length ad' = 16" "to_host_sockaddr L h ad' ad = Inr i'" by blast
      define r2 where "r2 = r1\<lparr>if_addr := ad'\<rparr>"
      have r2: "ifreq_ok r2" "shows_entry L h r2 e"
        using r1 ad' view by (simp_all add: ifreq_ok_def r2_def r1_def shows_entry_def e)
      have "list_all ifreq_ok (req[cnt := r2])"
        using Cons.prems(2) r2(1) c by (simp add: list_all_length nth_list_update)
      from Cons.IH [OF ok_es this, of "cnt + 1"] Cons.prems(3) True obtain req' where
        IH: "ifconf_loop L h maxcnt es (cnt + 1) (req[cnt := r2]) =
          Inr (cnt + 1 + min (maxcnt - (cnt + 1)) (length (filter (inet_entry L h) es)), req')"
        "length req' = length req" "take (cnt + 1) req' = take (cnt + 1) (req[cnt := r2])"
        "list_all2 (shows_entry L h) (take (min (maxcnt - (cnt + 1)) (length (filter (inet_entry L h) es))) (drop (cnt + 1) req'))
          (take (maxcnt - (cnt + 1)) (filter (inet_entry L h) es))" by auto
      have step: "ifconf_loop L h maxcnt (e # es) cnt req = ifconf_loop L h maxcnt es (cnt + 1) (req[cnt := r2])"
        using True c name fam same ad' by (simp add: e r1_def r2_def)
      have "req' ! cnt = r2"
        using IH(3) c by (metis length_list_update less_add_one nth_list_update_eq nth_take)
      then have d: "drop cnt req' = r2 # drop (cnt + 1) req'"
        using c IH(2) by (metis Cons_nth_drop_Suc Suc_eq_plus1)
      have "take cnt req' = take cnt req"
        using IH(3) by (metis (no_types, lifting) le_add1 min.absorb1 take_take take_update_cancel order_refl)
      moreover have m: "maxcnt - cnt = Suc (maxcnt - (cnt + 1))" using True by simp
      ultimately show ?thesis
        using IH(1,2,4) r2(2) inet by (simp add: step d m)
    qed
  qed
qed simp

section \<open>Properties\<close>

text \<open>
  \<open>__libc_shim_open_3\<close> rewrites the path twice, once in its own body and once in the
  wrapper it is registered in; when no rule applies to the result of another, it opens the
  same file with the same flags and mode as \<open>open\<close>.
\<close>

theorem open_3_symbol_as_open:
  assumes "rules_independent rules"
    and "to_host_file_status_flags h flags AND hmask h ''O_CREAT'' \<noteq> 0"
  shows "open_3_symbol os h rules host pathname flags mode = open_path os h rules host pathname flags mode"
  using assms(2) by (simp add: open_3_symbol_def iorewrite1_def open_3_def open_path_def open_mode_def Let_def
      iorewrite0_stable [OF assms(1)])

theorem open_3_symbol_as_open_witness:
  "\<forall>host :: nat open_host. open_3_symbol Linux linux_flag_headers [(''/data'', ''/home/u'')] host (Some ''/data/x'') 0x41 0x1A4 =
   open_path Linux linux_flag_headers [(''/data'', ''/home/u'')] host (Some ''/data/x'') 0x41 0x1A4"
  by (intro allI, rule open_3_symbol_as_open)
    (simp_all add: rules_independent_def to_host_file_status_flags_def to_host_flags_def translate_flags_def
      linux_flag_headers_def file_to_host_rows_def file_from_host_rows_def)

text \<open>
  C30. \<open>SIOCGIFCONF\<close> gives the guest the first internet interfaces the host reported, in the
  host's order and no more than fit, each with its name cut to the field and its address
  readable in bionic's layout; entries of other families are skipped, and the returned
  length counts exactly the entries that were written.
\<close>

theorem ifconf_keeps_inet:
  assumes "sa_layout_ok L" and "af_headers_ok L h" and "list_all (host_entry_ok L h) es"
    and "list_all ifreq_ok req" and "len = int (length req * sizeof_ifreq b64)"
    and "host (length req) w = ((ret, es), w')" and "0 \<le> ret"
  shows "\<exists>req' k. ifconf b64 L h host len req w = (Inr (ret, int (k * sizeof_ifreq b64), req'), w') \<and>
    k = min (length req) (length (filter (inet_entry L h) es)) \<and> length req' = length req \<and>
    list_all2 (shows_entry L h) (take k req') (take k (filter (inet_entry L h) es))"
proof -
  have "nat len div sizeof_ifreq b64 = length req" "0 \<le> len"
    unfolding assms(5) nat_int by (simp_all add: sizeof_ifreq_def)
  moreover define k where "k = min (length req) (length (filter (inet_entry L h) es))"
  from ifconf_run [OF assms(1,2,3,4), of "length req" 0] obtain req' where
    "ifconf_loop L h (length req) es 0 req = Inr (k, req')" "length req' = length req"
    "list_all2 (shows_entry L h) (take k req') (take (length req) (filter (inet_entry L h) es))"
    by (auto simp: k_def)
  moreover have "take k (filter (inet_entry L h) es) = take (length req) (filter (inet_entry L h) es)"
    by (simp add: k_def min_def)
  ultimately show ?thesis using assms(6,7) by (auto simp: ifconf_def k_def)
qed

text \<open>An interface with an IPv6 address, one with an IPv4 address, and room for two.\<close>

definition two_interfaces :: "(bytes \<times> bytes) list" where
  "two_interfaces = [([119, 108] @ replicate 14 0, [10, 0] @ replicate 14 0), ([108, 111] @ replicate 14 0, loopback_80)]"

definition blank_ifreq :: ifreq where
  "blank_ifreq = \<lparr>if_name = replicate 16 0, if_addr = replicate 16 0\<rparr>"

lemma two_interfaces_ok:
  "list_all (host_entry_ok bionic_layout linux_net_headers) two_interfaces"
  "filter (inet_entry bionic_layout linux_net_headers) two_interfaces = [([108, 111] @ replicate 14 0, loopback_80)]"
proof -
  have "inet_entry bionic_layout linux_net_headers (nm, loopback_80)"
    "\<not> inet_entry bionic_layout linux_net_headers (nm, [10, 0] @ replicate 14 0)" for nm
    by (simp_all add: inet_entry_def loopback_80_def load_le_def rd_def bionic_layout_def)
  moreover have "length loopback_80 = 16" by (simp add: loopback_80_def)
  ultimately show "list_all (host_entry_ok bionic_layout linux_net_headers) two_interfaces"
    "filter (inet_entry bionic_layout linux_net_headers) two_interfaces = [([108, 111] @ replicate 14 0, loopback_80)]"
    using loopback_80_host_view by (simp_all add: two_interfaces_def host_entry_ok_def bionic_sizes)
qed

theorem ifconf_keeps_inet_witness:
  "\<exists>r r'. ifconf True bionic_layout linux_net_headers (\<lambda>n w. ((0, two_interfaces), w)) 80 [blank_ifreq, blank_ifreq] () =
     (Inr (0, 40, [r, r']), ()) \<and> guest_view (if_addr r) = Inr (V_inet [0, 80] [127, 0, 0, 1])"
proof -
  have "\<exists>req' k. ifconf True bionic_layout linux_net_headers (\<lambda>n w. ((0, two_interfaces), w)) 80 [blank_ifreq, blank_ifreq] () =
      (Inr (0, int (k * sizeof_ifreq True), req'), ()) \<and>
    k = min (length [blank_ifreq, blank_ifreq]) (length (filter (inet_entry bionic_layout linux_net_headers) two_interfaces)) \<and>
    length req' = length [blank_ifreq, blank_ifreq] \<and>
    list_all2 (shows_entry bionic_layout linux_net_headers) (take k req')
      (take k (filter (inet_entry bionic_layout linux_net_headers) two_interfaces))"
    by (rule ifconf_keeps_inet [OF bionic.sa_layout_ok_axioms linux_af_headers two_interfaces_ok(1)])
      (simp_all add: ifreq_ok_def blank_ifreq_def sizeof_ifreq_def)
  then show ?thesis
    unfolding two_interfaces_ok(2)
    by (auto simp: sizeof_ifreq_def length_Suc_conv shows_entry_def loopback_80_host_view)
qed

text \<open>
  \<open>F_GETFL\<close> of a bad descriptor: the host's -1 is read as a set of unsupported flags, so the
  guest meets an exception where it expects -1.
\<close>

lemma getfl_error_throws:
  assumes "host fd F_GETFL w = (- 1, w')"
  shows "fcntl h host fd 3 arg w = (Inl (Runtime_error ''Unsupported fd flag used %d'' [- 1]), w')"
  using assms by (simp add: fcntl_def from_host_file_status_flags_def KNOWN_FLAGS_def)

text \<open>\<open>F_SETFL\<close> passes the known flags in the host's numbering and nothing else.\<close>

lemma setfl_run:
  "fcntl h host fd 4 (Arg_word v) w =
     (Inr (fst (host fd (F_SETFL (to_host_file_status_flags h (ucast v))) w)),
      snd (host fd (F_SETFL (to_host_file_status_flags h (ucast v))) w))"
  by (simp add: fcntl_def split: prod.split)

end
