(* ===== verification/Wrappers.thy ===== *)
theory Wrappers
  imports Prelude
begin

text \<open>
  Objects the guest holds that stand for objects of the host: bionic's \<open>FILE\<close> and \<open>DIR\<close>
  each keep the host's pointer in a field. The state has the guest's objects by their
  addresses (0 is the null pointer), the next address \<open>new\<close> returns, the host's handles
  that are open, and the rest of the host. Using an object that was deleted or a handle that
  was closed is a \<open>Memory_fault\<close>.
\<close>

record ('o, 'w) wrap_state =
  objects :: "nat \<Rightarrow> 'o option"
  next_obj :: nat
  handles :: "nat set"
  hostw :: 'w

section \<open>Steps\<close>

text \<open>A host function that opens something: 0 is failure, any other result a new handle.\<close>

definition open_handle :: "('w \<Rightarrow> nat \<times> 'w) \<Rightarrow> (('o, 'w) wrap_state, nat) act" where
  "open_handle host s =
     (let (f, w) = host (hostw s) in
      (Inr f, s\<lparr>hostw := w, handles := (if f = 0 then handles s else insert f (handles s))\<rparr>))"

definition new_object :: "'o \<Rightarrow> (('o, 'w) wrap_state, nat) act" where
  "new_object ob s =
     (Inr (next_obj s), s\<lparr>objects := (objects s)(next_obj s \<mapsto> ob), next_obj := Suc (next_obj s)\<rparr>)"

definition wrap_handle :: "(nat \<Rightarrow> 'o) \<Rightarrow> nat \<Rightarrow> (('o, 'w) wrap_state, nat) act" where
  "wrap_handle mk f = (if f = 0 then retA 0 else new_object (mk f))"

definition get_object :: "nat \<Rightarrow> (('o, 'w) wrap_state, 'o) act" where
  "get_object p s = (case objects s p of Some ob \<Rightarrow> (Inr ob, s) | None \<Rightarrow> (Inl Memory_fault, s))"

definition put_object :: "nat \<Rightarrow> 'o \<Rightarrow> (('o, 'w) wrap_state, unit) act" where
  "put_object p ob s =
     (if objects s p = None then (Inl Memory_fault, s) else (Inr (), s\<lparr>objects := (objects s)(p \<mapsto> ob)\<rparr>))"

definition delete_object :: "nat \<Rightarrow> (('o, 'w) wrap_state, unit) act" where
  "delete_object p s =
     (if objects s p = None then (Inl Memory_fault, s) else (Inr (), s\<lparr>objects := (objects s)(p := None)\<rparr>))"

text \<open>A host call on an open handle, and one that closes it.\<close>

definition use_handle :: "nat \<Rightarrow> ('w \<Rightarrow> 'a \<times> 'w) \<Rightarrow> (('o, 'w) wrap_state, 'a) act" where
  "use_handle f host s =
     (if f \<notin> handles s then (Inl Memory_fault, s)
      else let (r, w) = host (hostw s) in (Inr r, s\<lparr>hostw := w\<rparr>))"

definition close_handle :: "nat \<Rightarrow> ('w \<Rightarrow> 'a \<times> 'w) \<Rightarrow> (('o, 'w) wrap_state, 'a) act" where
  "close_handle f host s =
     (if f \<notin> handles s then (Inl Memory_fault, s)
      else let (r, w) = host (hostw s) in (Inr r, s\<lparr>hostw := w, handles := handles s - {f}\<rparr>))"

section \<open>Who owns which handle\<close>

text \<open>
  On the map from objects to their handles: addresses are fresh, every object that is not
  static owns an open handle no other object has, and every open handle has an object.
\<close>

definition own_ok :: "nat set \<Rightarrow> (nat \<Rightarrow> nat option) \<Rightarrow> nat \<Rightarrow> nat set \<Rightarrow> bool" where
  "own_ok S m n hs \<longleftrightarrow>
     0 < n \<and> 0 \<notin> hs \<and> (\<forall>p f. m p = Some f \<longrightarrow> 0 < p \<and> p < n) \<and> (\<forall>p \<in> S. p < n) \<and>
     (\<forall>p f. m p = Some f \<longrightarrow> p \<notin> S \<longrightarrow> f \<in> hs) \<and> (\<forall>f \<in> hs. \<exists>p. m p = Some f) \<and>
     (\<forall>p q f. m p = Some f \<longrightarrow> p \<notin> S \<longrightarrow> m q = Some f \<longrightarrow> q = p)"

lemma own_okD:
  assumes "own_ok S m n hs"
  shows "m p = Some f \<Longrightarrow> 0 < p" "m p = Some f \<Longrightarrow> p < n" "m p = Some f \<Longrightarrow> p \<notin> S \<Longrightarrow> f \<in> hs"
    "m p = Some f \<Longrightarrow> p \<notin> S \<Longrightarrow> m q = Some f \<Longrightarrow> q = p"
  using assms unfolding own_ok_def by blast+

lemma own_ok_fresh:
  assumes "own_ok S m n hs"
  shows "m n = None" "n \<notin> S" "0 < n"
  using assms unfolding own_ok_def by (auto intro: ccontr)

lemma own_ok_add:
  assumes "own_ok S m n hs" and "f \<noteq> 0" and "\<forall>p. m p \<noteq> Some f"
  shows "own_ok S (m(n \<mapsto> f)) (Suc n) (insert f hs)"
proof -
  note n = own_ok_fresh [OF assms(1)]
  show ?thesis
    unfolding own_ok_def
  proof (intro conjI allI ballI impI)
    fix g assume "g \<in> insert f hs"
    then consider "g = f" | p where "m p = Some g" using assms(1) unfolding own_ok_def by blast
    then show "\<exists>p. (m(n \<mapsto> f)) p = Some g"
    proof cases
      case (2 p)
      with n(1) have "(m(n \<mapsto> f)) p = Some g" by auto
      then show ?thesis ..
    qed auto
  next
    fix p q g
    assume "(m(n \<mapsto> f)) p = Some g" "p \<notin> S" "(m(n \<mapsto> f)) q = Some g"
    then show "q = p" using assms(3) own_okD(4) [OF assms(1), of p g q] by (auto split: if_splits)
  next
    fix p g assume "(m(n \<mapsto> f)) p = Some g" "p \<notin> S"
    then show "g \<in> insert f hs" using own_okD(3) [OF assms(1)] by (auto split: if_splits)
  next
    fix p g assume "(m(n \<mapsto> f)) p = Some g"
    then show "0 < p" "p < Suc n" using own_okD(1,2) [OF assms(1), of p g] n(3) by (auto split: if_splits)
  qed (use assms(1,2) in \<open>auto simp: own_ok_def less_Suc_eq\<close>)
qed

lemma own_ok_delete:
  assumes "own_ok S m n hs" and "m p = Some f" and "p \<notin> S"
  shows "own_ok S (m(p := None)) n (hs - {f})"
proof -
  note D = own_okD [OF assms(1)]
  show ?thesis
    unfolding own_ok_def
  proof (intro conjI allI ballI impI)
    fix g assume g: "g \<in> hs - {f}"
    then obtain q where "m q = Some g" using assms(1) unfolding own_ok_def by blast
    with g assms(2) show "\<exists>q. (m(p := None)) q = Some g" by (intro exI [of _ q]) auto
  next
    fix q g assume q: "(m(p := None)) q = Some g" "q \<notin> S"
    then have "m q = Some g" "q \<noteq> p" by (auto split: if_splits)
    with D(3) [of q g] D(4) [OF assms(2,3), of q] q(2) show "g \<in> hs - {f}" by auto
  next
    fix q r g assume "(m(p := None)) q = Some g" "q \<notin> S" "(m(p := None)) r = Some g"
    then show "r = q" using D(4) [of q g r] by (auto split: if_splits)
  next
    fix q g assume "(m(p := None)) q = Some g"
    then show "0 < q" "q < n" using D(1,2) [of q g] by (auto split: if_splits)
  qed (use assms(1) in \<open>auto simp: own_ok_def\<close>)
qed

section \<open>Interface: objects that own a handle each\<close>

text \<open>
  \<open>handle_of\<close> reads the host's pointer from an object, \<open>mk\<close> builds the object around one.
  Objects at the addresses \<open>statics\<close> are not allocated and never deleted.
\<close>

locale handle_owner =
  fixes handle_of :: "'o \<Rightarrow> nat" and mk :: "nat \<Rightarrow> 'o" and statics :: "nat set"
  assumes handle_mk: "handle_of (mk f) = f"
begin

definition handle_map :: "('o, 'w) wrap_state \<Rightarrow> nat \<Rightarrow> nat option" where
  "handle_map s = (\<lambda>p. map_option handle_of (objects s p))"

definition owning :: "('o, 'w) wrap_state \<Rightarrow> bool" where
  "owning s \<longleftrightarrow> own_ok statics (handle_map s) (next_obj s) (handles s)"

lemma owningD:
  assumes "owning s" and "objects s p = Some ob" and "p \<notin> statics"
  shows "handle_of ob \<in> handles s" and "0 < p" and "p < next_obj s"
    and "objects s q = Some ob' \<Longrightarrow> q \<noteq> p \<Longrightarrow> handle_of ob' \<noteq> handle_of ob"
  using own_okD(1-4) [OF assms(1) [unfolded owning_def], of p "handle_of ob"] assms(2,3)
  by (auto simp: handle_map_def)

text \<open>
  Opening and wrapping: the result is 0, and only the host's own state has changed, or a new
  object around the new handle.
\<close>

lemma open_wrap:
  assumes "owning s" and "host (hostw s) = (f, w)" and "\<forall>p. handle_map s p \<noteq> Some f"
  shows "\<exists>s'. bindA (open_handle host) (wrap_handle mk) s = (Inr (if f = 0 then 0 else next_obj s), s') \<and> owning s' \<and>
    handles s' = (if f = 0 then handles s else insert f (handles s)) \<and>
    objects s' = (if f = 0 then objects s else (objects s)(next_obj s \<mapsto> mk f)) \<and> hostw s' = w"
proof (cases "f = 0")
  case True
  with assms show ?thesis by (simp add: open_handle_def wrap_handle_def bindA_def owning_def handle_map_def)
next
  case False
  define s' where "s' = s\<lparr>hostw := w, handles := insert f (handles s),
    objects := (objects s)(next_obj s \<mapsto> mk f), next_obj := Suc (next_obj s)\<rparr>"
  have "bindA (open_handle host) (wrap_handle mk) s = (Inr (next_obj s), s')"
    using False assms(2) by (simp add: open_handle_def wrap_handle_def new_object_def bindA_def s'_def)
  moreover have "handle_map s' = (handle_map s)(next_obj s \<mapsto> f)"
    by (simp add: handle_map_def s'_def fun_eq_iff handle_mk)
  then have "owning s'"
    using own_ok_add [OF assms(1) [unfolded owning_def] False assms(3)] by (simp add: owning_def s'_def)
  ultimately show ?thesis using False by (simp add: s'_def)
qed

text \<open>Closing an allocated object and its handle.\<close>

lemma close_delete:
  assumes "owning s" and "objects s p = Some ob" and "p \<notin> statics" and "host (hostw s) = (r, w)"
  shows "\<exists>s'. bindA (close_handle (handle_of ob) host) (\<lambda>ret. bindA (delete_object p) (\<lambda>_. retA ret)) s = (Inr r, s') \<and>
    owning s' \<and> handles s' = handles s - {handle_of ob} \<and> objects s' = (objects s)(p := None) \<and> hostw s' = w"
proof -
  define s' where "s' = s\<lparr>hostw := w, handles := handles s - {handle_of ob}, objects := (objects s)(p := None)\<rparr>"
  have "bindA (close_handle (handle_of ob) host) (\<lambda>ret. bindA (delete_object p) (\<lambda>_. retA ret)) s = (Inr r, s')"
    using owningD(1) [OF assms(1-3)] assms(2,4) by (simp add: close_handle_def delete_object_def bindA_def s'_def)
  moreover have "handle_map s p = Some (handle_of ob)" using assms(2) by (simp add: handle_map_def)
  from own_ok_delete [OF assms(1) [unfolded owning_def] this assms(3)] have "owning s'"
    unfolding owning_def by (simp add: s'_def handle_map_def fun_upd_def if_distrib cong: if_cong)
  ultimately show ?thesis by (simp add: s'_def)
qed

text \<open>A change of an object that keeps its handle, and of the host.\<close>

lemma owning_update:
  assumes "owning s" and "objects s p = Some ob" and "handle_of ob' = handle_of ob"
  shows "owning (s\<lparr>hostw := w, objects := (objects s)(p \<mapsto> ob')\<rparr>)"
proof -
  have "handle_map (s\<lparr>hostw := w, objects := (objects s)(p \<mapsto> ob')\<rparr>) = handle_map s"
    using assms(2,3) by (auto simp: handle_map_def fun_eq_iff)
  with assms(1) show ?thesis by (simp add: owning_def)
qed

lemma owning_host: "owning s \<Longrightarrow> owning (s\<lparr>hostw := w\<rparr>)"
  by (simp add: owning_def handle_map_def)

end

end
