(* ===== verification/Dirent.thy ===== *)
theory Dirent
  imports Wrappers Strings
begin

text \<open>
  Directory streams (src/src/dirent.cpp, src/src/dirent.h): a \<open>DIR\<close> of the shim holds the
  host's stream and the one entry \<open>readdir\<close> hands out, which every call overwrites.
\<close>

section \<open>Objects\<close>

record dirent =
  d_ino :: u64
  d_off :: u64
  d_reclen :: nat
  d_type :: byte
  d_name :: bytes

record bdir =
  wrapped_dir :: nat
  current :: dirent

definition wrap_dir :: "nat \<Rightarrow> bdir" where
  "wrap_dir dir = \<lparr>wrapped_dir = dir,
     current = \<lparr>d_ino = 0, d_off = 0, d_reclen = 0, d_type = 0, d_name = replicate 256 0\<rparr>\<rparr>"

text \<open>
  The entry the host's \<open>readdir\<close> yields, its name terminated, and the host's functions.
\<close>

record host_dirent =
  hd_ino :: u64
  hd_off :: u64
  hd_type :: byte
  hd_name :: bytes

record 'w dir_host =
  h_opendir :: "string \<Rightarrow> 'w \<Rightarrow> nat \<times> 'w"
  h_fdopendir :: "int \<Rightarrow> 'w \<Rightarrow> nat \<times> 'w"
  h_closedir :: "nat \<Rightarrow> 'w \<Rightarrow> int \<times> 'w"
  h_readdir :: "nat \<Rightarrow> 'w \<Rightarrow> host_dirent option \<times> 'w"
  h_telldir :: "nat \<Rightarrow> 'w \<Rightarrow> u64 \<times> 'w"
  h_seekdir :: "nat \<Rightarrow> u64 \<Rightarrow> 'w \<Rightarrow> unit \<times> 'w"
  h_rewinddir :: "nat \<Rightarrow> 'w \<Rightarrow> unit \<times> 'w"
  h_dirfd :: "nat \<Rightarrow> 'w \<Rightarrow> int \<times> 'w"
  h_dup :: "int \<Rightarrow> 'w \<Rightarrow> int \<times> 'w"

type_synonym ('w, 'a) dir_act = "((bdir, 'w) wrap_state, 'a) act"

section \<open>Operations\<close>

definition opendir :: "'w dir_host \<Rightarrow> string \<Rightarrow> ('w, nat) dir_act" where
  "opendir H name = bindA (open_handle (h_opendir H name)) (wrap_handle wrap_dir)"

definition fdopendir :: "'w dir_host \<Rightarrow> int \<Rightarrow> ('w, nat) dir_act" where
  "fdopendir H fd = bindA (open_handle (h_fdopendir H fd)) (wrap_handle wrap_dir)"

definition closedir :: "'w dir_host \<Rightarrow> nat \<Rightarrow> ('w, unit) dir_act" where
  "closedir H dir =
     (if dir = 0 then retA ()
      else bindA (get_object dir) (\<lambda>d.
        bindA (close_handle (wrapped_dir d) (h_closedir H (wrapped_dir d))) (\<lambda>_.
        bindA (delete_object dir) (\<lambda>_. retA ()))))"

definition on_dir :: "nat \<Rightarrow> (nat \<Rightarrow> 'w \<Rightarrow> 'a \<times> 'w) \<Rightarrow> ('w, 'a) dir_act" where
  "on_dir dir host = bindA (get_object dir) (\<lambda>d. use_handle (wrapped_dir d) (host (wrapped_dir d)))"

text \<open>\<open>szd\<close> is \<open>sizeof(bionic::dirent)\<close>; the result is the entry the returned pointer shows.\<close>

definition readdir :: "os \<Rightarrow> nat \<Rightarrow> 'w dir_host \<Rightarrow> nat \<Rightarrow> ('w, dirent option) dir_act" where
  "readdir os szd H dir =
     bindA (on_dir dir (h_readdir H)) (\<lambda>hent.
       case hent of None \<Rightarrow> retA None
       | Some hent \<Rightarrow>
           bindA (if os = Apple then on_dir dir (h_telldir H) else retA (hd_off hent)) (\<lambda>off.
           bindA (get_object dir) (\<lambda>d.
           bindA (liftA (c_strncpy (d_name (current d)) (hd_name hent) 256)) (\<lambda>nm.
           bindA (liftA (store1 nm 255 0)) (\<lambda>nm.
           let ent = \<lparr>d_ino = hd_ino hent, d_off = off, d_reclen = szd, d_type = hd_type hent, d_name = nm\<rparr> in
           bindA (put_object dir (d\<lparr>current := ent\<rparr>)) (\<lambda>_. retA (Some ent)))))))"

definition rewinddir :: "'w dir_host \<Rightarrow> nat \<Rightarrow> ('w, unit) dir_act" where
  "rewinddir H dir = on_dir dir (h_rewinddir H)"

definition seekdir :: "'w dir_host \<Rightarrow> nat \<Rightarrow> u64 \<Rightarrow> ('w, unit) dir_act" where
  "seekdir H dir pos = on_dir dir (\<lambda>d. h_seekdir H d pos)"

definition telldir :: "'w dir_host \<Rightarrow> nat \<Rightarrow> ('w, u64) dir_act" where
  "telldir H dir = on_dir dir (h_telldir H)"

text \<open>On Apple the descriptor is duplicated, as \<open>closedir\<close> closes the original.\<close>

definition dirfd :: "os \<Rightarrow> 'w dir_host \<Rightarrow> nat \<Rightarrow> ('w, int) dir_act" where
  "dirfd os H dir =
     bindA (on_dir dir (h_dirfd H)) (\<lambda>fd.
       if os = Apple \<and> fd \<noteq> - 1
       then (\<lambda>s. let (r, w) = h_dup H fd (hostw s) in (Inr r, s\<lparr>hostw := w\<rparr>)) else retA fd)"

section \<open>Interface\<close>

interpretation dirs: handle_owner wrapped_dir wrap_dir "{}"
  by unfold_locales (simp add: wrap_dir_def)

text \<open>A good state: streams are owned, and the entry's name field keeps its size.\<close>

definition dirs_ok :: "(bdir, 'w) wrap_state \<Rightarrow> bool" where
  "dirs_ok s \<longleftrightarrow> dirs.owning s \<and> (\<forall>p d. objects s p = Some d \<longrightarrow> length (d_name (current d)) = 256)"

lemma dirs_ok_live: "dirs_ok s \<Longrightarrow> objects s p = Some d \<Longrightarrow> wrapped_dir d \<in> handles s"
  using dirs.owningD(1) [of s p d] by (simp add: dirs_ok_def)

lemma dirs_ok_update:
  assumes "dirs_ok s" and "objects s p = Some d" and "wrapped_dir d' = wrapped_dir d"
    and "length (d_name (current d')) = 256"
  shows "dirs_ok (s\<lparr>hostw := w, objects := (objects s)(p \<mapsto> d')\<rparr>)"
  using assms dirs.owning_update [OF _ assms(2,3)] by (auto simp: dirs_ok_def)

lemma dirs_ok_hostw: "dirs_ok (s\<lparr>hostw := w\<rparr>) \<longleftrightarrow> dirs_ok s"
  by (simp add: dirs_ok_def dirs.owning_def dirs.handle_map_def)

lemma on_dir_run:
  assumes "dirs_ok s" and "objects s p = Some d"
  shows "on_dir p host s = (Inr (fst (host (wrapped_dir d) (hostw s))), s\<lparr>hostw := snd (host (wrapped_dir d) (hostw s))\<rparr>)"
  using dirs_ok_live [OF assms] assms(2) by (simp add: on_dir_def get_object_def use_handle_def bindA_def split: prod.split)

lemma opendir_ok:
  assumes "dirs_ok s" and "fst (h_opendir H name (hostw s)) \<notin> handles s"
  shows "\<exists>r s'. opendir H name s = (Inr r, s') \<and> dirs_ok s'"
proof -
  obtain f w where f: "h_opendir H name (hostw s) = (f, w)" by fastforce
  from assms(1) have own: "dirs.owning s" by (simp add: dirs_ok_def)
  have "\<forall>p. dirs.handle_map s p \<noteq> Some f"
    using dirs_ok_live [OF assms(1)] assms(2) f by (auto simp: dirs.handle_map_def)
  from dirs.open_wrap [where host = "h_opendir H name", OF own f this] assms(1) show ?thesis
    by (auto simp: opendir_def dirs_ok_def wrap_dir_def)
qed

lemma closedir_ok:
  assumes "dirs_ok s" and "objects s p = Some d" and "p \<noteq> 0"
  shows "\<exists>s'. closedir H p s = (Inr (), s') \<and> dirs_ok s' \<and> objects s' = (objects s)(p := None) \<and>
    handles s' = handles s - {wrapped_dir d}"
proof -
  define s' where "s' = s\<lparr>hostw := snd (h_closedir H (wrapped_dir d) (hostw s)), handles := handles s - {wrapped_dir d},
    objects := (objects s)(p := None)\<rparr>"
  note live = dirs_ok_live [OF assms(1,2)]
  have "closedir H p s = (Inr (), s')"
    using live assms(2,3) by (simp add: closedir_def get_object_def close_handle_def delete_object_def bindA_def s'_def
        split: prod.split)
  moreover have "dirs.handle_map s p = Some (wrapped_dir d)" using assms(2) by (simp add: dirs.handle_map_def)
  have "dirs.owning s" using assms(1) by (simp add: dirs_ok_def)
  from own_ok_delete [OF this [unfolded dirs.owning_def] \<open>dirs.handle_map s p = _\<close>]
  have "dirs.owning s'" unfolding dirs.owning_def
    by (simp add: s'_def dirs.handle_map_def fun_upd_def if_distrib cong: if_cong)
  with assms(1) have "dirs_ok s'" by (auto simp: dirs_ok_def s'_def split: if_splits)
  ultimately show ?thesis by (simp add: s'_def)
qed

lemma c_str_padded:
  assumes "0 \<notin> set bs"
  shows "c_str ((take 256 (bs @ replicate 256 0))[255 := 0]) = take 255 bs"
proof -
  have "(take 256 (bs @ replicate 256 0))[255 := 0] = take 255 (bs @ replicate 256 0) @ [0 :: byte]"
  proof -
    define ys where "ys = bs @ replicate 256 (0 :: byte)"
    have "256 \<le> length ys" by (simp add: ys_def)
    then show ?thesis unfolding ys_def [symmetric] by (simp add: upd_conv_take_nth_drop)
  qed
  moreover have "c_str (take 255 (bs @ replicate 256 0) @ [0]) = take 255 bs"
  proof -
    have split: "take 255 (bs @ replicate 256 0) = take 255 bs @ replicate (255 - length bs) (0 :: byte)"
      by (simp add: min_def)
    have "\<forall>b \<in> set (take 255 bs). b \<noteq> 0" using assms by (auto dest: in_set_takeD)
    moreover have "takeWhile (\<lambda>b. b \<noteq> 0) (replicate k 0 @ [0 :: byte]) = []" for k by (cases k) simp_all
    ultimately show ?thesis
      unfolding c_str_def split append_assoc by (subst takeWhile_append2) auto
  qed
  ultimately show ?thesis by simp
qed

section \<open>Reading a directory\<close>

lemma readdir_run:
  assumes "dirs_ok s" and "objects s p = Some d" and "fst (h_readdir H (wrapped_dir d) (hostw s)) = Some hent"
    and "0 \<in> set (hd_name hent)" and "os \<noteq> Apple"
  shows "\<exists>ent s'. readdir os szd H p s = (Inr (Some ent), s') \<and> d_ino ent = hd_ino hent \<and>
    d_type ent = hd_type hent \<and> d_off ent = hd_off hent \<and> d_reclen ent = szd \<and> length (d_name ent) = 256 \<and>
    c_str (d_name ent) = take 255 (c_str (hd_name hent)) \<and> dirs_ok s' \<and>
    (\<exists>d'. objects s' p = Some d' \<and> current d' = ent \<and> wrapped_dir d' = wrapped_dir d) \<and>
    hostw s' = snd (h_readdir H (wrapped_dir d) (hostw s))"
proof -
  define w where "w = snd (h_readdir H (wrapped_dir d) (hostw s))"
  define nm where "nm = (take 256 (c_str (hd_name hent) @ replicate 256 0))[255 := 0]"
  define ent where "ent = \<lparr>d_ino = hd_ino hent, d_off = hd_off hent, d_reclen = szd, d_type = hd_type hent, d_name = nm\<rparr>"
  define s' where "s' = s\<lparr>hostw := w, objects := (objects s)(p \<mapsto> d\<lparr>current := ent\<rparr>)\<rparr>"
  have size: "length (d_name (current d)) = 256" using assms(1,2) by (simp add: dirs_ok_def)
  have copy: "c_strncpy (d_name (current d)) (hd_name hent) 256 = Inr (take 256 (c_str (hd_name hent) @ replicate 256 0))"
    using size assms(4) by (simp add: c_strncpy_def wr_def)
  have len: "length (take 256 (c_str (hd_name hent) @ replicate 256 0)) = 256" by simp
  have "readdir os szd H p s = (Inr (Some ent), s')"
    unfolding readdir_def using on_dir_run [OF assms(1,2), of "h_readdir H"] assms(2,3,5) copy len
    by (simp add: bindA_def get_object_def put_object_def store1_def Let_def nm_def ent_def s'_def w_def)
  moreover have "length nm = 256" by (simp add: nm_def)
  moreover have "0 \<notin> set (c_str (hd_name hent))" by (auto simp: c_str_def dest: set_takeWhileD)
  then have "c_str nm = take 255 (c_str (hd_name hent))" unfolding nm_def by (rule c_str_padded)
  moreover have "dirs_ok s'"
    unfolding s'_def by (rule dirs_ok_update [OF assms(1,2)]) (simp_all add: ent_def nm_def)
  ultimately show ?thesis by (simp add: ent_def s'_def w_def)
qed

text \<open>An entry the host reports, as the guest should see it.\<close>

definition same_entry :: "nat \<Rightarrow> dirent \<Rightarrow> host_dirent \<Rightarrow> bool" where
  "same_entry szd e h \<longleftrightarrow> d_ino e = hd_ino h \<and> d_type e = hd_type h \<and> d_off e = hd_off h \<and> d_reclen e = szd \<and>
     length (d_name e) = 256 \<and> c_str (d_name e) = take 255 (c_str (hd_name h))"

text \<open>
  A guest that reads up to \<open>n\<close> entries, stopping at the end of the directory, and the host's
  stream read the same way.
\<close>

fun read_entries :: "os \<Rightarrow> nat \<Rightarrow> 'w dir_host \<Rightarrow> nat \<Rightarrow> nat \<Rightarrow> ('w, dirent list) dir_act" where
  "read_entries os szd H p 0 = retA []"
| "read_entries os szd H p (Suc n) = bindA (readdir os szd H p) (\<lambda>e.
     case e of None \<Rightarrow> retA []
     | Some e \<Rightarrow> bindA (read_entries os szd H p n) (\<lambda>es. retA (e # es)))"

fun host_entries :: "('w \<Rightarrow> host_dirent option \<times> 'w) \<Rightarrow> nat \<Rightarrow> 'w \<Rightarrow> host_dirent list \<times> 'w" where
  "host_entries host 0 w = ([], w)"
| "host_entries host (Suc n) w =
     (case host w of (None, w) \<Rightarrow> ([], w)
      | (Some h, w) \<Rightarrow> let (hs, w) = host_entries host n w in (h # hs, w))"

section \<open>Properties\<close>


text \<open>A stream of as many entries as the host's state says.\<close>

definition one_dir :: "(bdir, nat) wrap_state" where
  "one_dir = \<lparr>objects = [1 \<mapsto> wrap_dir 7], next_obj = 2, handles = {7}, hostw = 1\<rparr>"

definition one_entry_host :: "nat dir_host" where
  "one_entry_host = \<lparr>h_opendir = (\<lambda>_ w. (0, w)), h_fdopendir = (\<lambda>_ w. (0, w)), h_closedir = (\<lambda>_ w. (0, w)),
     h_readdir = (\<lambda>_ w. (if w = 0 then None else Some \<lparr>hd_ino = 5, hd_off = 1, hd_type = 8, hd_name = [97, 98, 0]\<rparr>, w - 1)),
     h_telldir = (\<lambda>_ w. (0, w)), h_seekdir = (\<lambda>_ _ w. ((), w)), h_rewinddir = (\<lambda>_ w. ((), w)),
     h_dirfd = (\<lambda>_ w. (3, w)), h_dup = (\<lambda>_ w. (4, w))\<rparr>"

lemma one_dir_ok: "dirs_ok one_dir"
proof -
  have "dirs.handle_map one_dir = [1 \<mapsto> 7]"
    by (simp add: dirs.handle_map_def one_dir_def wrap_dir_def fun_eq_iff)
  then have "dirs.owning one_dir" unfolding dirs.owning_def own_ok_def
    by (auto simp: one_dir_def split: if_splits)
  then show ?thesis by (auto simp: dirs_ok_def one_dir_def wrap_dir_def split: if_splits)
qed


end
