(* ===== verification/C_Wrapped.thy ===== *)
theory C_Wrapped
  imports Prelude
begin

text \<open>
  The templates of src/src/meta.h by which a bionic type too small for the host's object
  holds a pointer to it instead. \<open>wrapper_type_resolver::is_wrapped\<close>, the comparison of two
  \<open>sizeof\<close>s, is the flag \<open>wrapped\<close>. A host object is a value \<open>'o\<close>; host constructors,
  uses and destructors are functions on it and on the rest of the host \<open>'w\<close>.
\<close>

section \<open>Memory\<close>

text \<open>
  \<open>wrapped_ptr\<close> is the pointer field of the guest's objects by their addresses, \<open>in_place\<close> the
  host objects that live in the guest's objects themselves, \<open>host_objs\<close> the blocks
  \<open>new\<close> returned and \<open>delete\<close> has not freed.
\<close>

record ('o, 'w) cell_state =
  wrapped_ptr :: "nat \<Rightarrow> nat"
  in_place :: "nat \<Rightarrow> 'o option"
  host_objs :: "nat \<Rightarrow> 'o option"
  next_block :: nat
  cworld :: 'w

type_synonym ('o, 'w) constructor = "'w \<Rightarrow> int \<times> 'o \<times> 'w"
type_synonym ('o, 'w) use_fun = "'o \<Rightarrow> 'w \<Rightarrow> int \<times> 'o \<times> 'w"
type_synonym ('o, 'w) destructor = "'o \<Rightarrow> 'w \<Rightarrow> int \<times> 'w"
type_synonym ('o, 'w) cell_fun = "(('o, 'w) cell_state, int) act"

definition is_wrapped :: "nat \<Rightarrow> nat \<Rightarrow> bool" where
  "is_wrapped sizeof_host sizeof_wrapper \<longleftrightarrow> sizeof_host > sizeof_wrapper"

definition make_c_wrapped :: "('o, 'w) constructor \<Rightarrow> nat \<Rightarrow> ('o, 'w) cell_fun" where
  "make_c_wrapped ctor a s =
     (let p = next_block s; (ret, ob, w) = ctor (cworld s) in
      (Inr ret, s\<lparr>wrapped_ptr := (wrapped_ptr s)(a := p), next_block := Suc p, cworld := w,
         host_objs := (if ret \<noteq> 0 then host_objs s else (host_objs s)(p \<mapsto> ob))\<rparr>))"

definition destroy_c_wrapped :: "('o, 'w) destructor \<Rightarrow> nat \<Rightarrow> ('o, 'w) cell_fun" where
  "destroy_c_wrapped dtor a s =
     (case host_objs s (wrapped_ptr s a) of None \<Rightarrow> (Inl Memory_fault, s)
      | Some ob \<Rightarrow> let (ret, w) = dtor ob (cworld s) in
          (Inr ret, s\<lparr>host_objs := (host_objs s)(wrapped_ptr s a := None), cworld := w\<rparr>))"

definition make_c_wrapped_via_resolver :: "bool \<Rightarrow> ('o, 'w) constructor \<Rightarrow> nat \<Rightarrow> ('o, 'w) cell_fun" where
  "make_c_wrapped_via_resolver wrapped ctor a s =
     (if wrapped then make_c_wrapped ctor a s
      else let (ret, ob, w) = ctor (cworld s) in
        (Inr ret, s\<lparr>in_place := (in_place s)(a := if ret \<noteq> 0 then None else Some ob), cworld := w\<rparr>))"

definition destroy_c_wrapped_via_resolver :: "bool \<Rightarrow> ('o, 'w) destructor \<Rightarrow> nat \<Rightarrow> ('o, 'w) cell_fun" where
  "destroy_c_wrapped_via_resolver wrapped dtor a s =
     (if wrapped then destroy_c_wrapped dtor a s
      else case in_place s a of None \<Rightarrow> (Inl Memory_fault, s)
      | Some ob \<Rightarrow> let (ret, w) = dtor ob (cworld s) in
          (Inr ret, s\<lparr>in_place := (in_place s)(a := None), cworld := w\<rparr>))"

text \<open>
  \<open>wrapper_resolved_ptr_rewriter\<close> of src/src/argrewrite.h: a host function is called on the
  object behind the pointer, or on the guest's object itself.
\<close>

definition resolved_use :: "bool \<Rightarrow> ('o, 'w) use_fun \<Rightarrow> nat \<Rightarrow> ('o, 'w) cell_fun" where
  "resolved_use wrapped f a s =
     (if wrapped then
        (case host_objs s (wrapped_ptr s a) of None \<Rightarrow> (Inl Memory_fault, s)
         | Some ob \<Rightarrow> let (ret, ob, w) = f ob (cworld s) in
             (Inr ret, s\<lparr>host_objs := (host_objs s)(wrapped_ptr s a \<mapsto> ob), cworld := w\<rparr>))
      else
        (case in_place s a of None \<Rightarrow> (Inl Memory_fault, s)
         | Some ob \<Rightarrow> let (ret, ob, w) = f ob (cworld s) in
             (Inr ret, s\<lparr>in_place := (in_place s)(a \<mapsto> ob), cworld := w\<rparr>)))"

section \<open>What a user of the templates sees\<close>

text \<open>
  Sequences of constructions, uses and destructions of objects, and their abstract meaning:
  one host object for each guest object that was constructed.
\<close>

datatype ('o, 'w) cell_act =
    Make nat "('o, 'w) constructor"
  | Use nat "('o, 'w) use_fun"
  | Destroy nat "('o, 'w) destructor"

type_synonym ('o, 'w) cells = "(nat \<Rightarrow> 'o option) \<times> 'w"

fun spec_act :: "('o, 'w) cell_act \<Rightarrow> ('o, 'w) cells \<Rightarrow> (int \<times> ('o, 'w) cells) option" where
  "spec_act (Make a ctor) (m, w) =
     (if m a \<noteq> None then None
      else let (ret, ob, w) = ctor w in Some (ret, m(a := if ret \<noteq> 0 then None else Some ob), w))"
| "spec_act (Use a f) (m, w) =
     (case m a of None \<Rightarrow> None | Some ob \<Rightarrow> let (ret, ob, w) = f ob w in Some (ret, m(a \<mapsto> ob), w))"
| "spec_act (Destroy a dtor) (m, w) =
     (case m a of None \<Rightarrow> None | Some ob \<Rightarrow> let (ret, w) = dtor ob w in Some (ret, m(a := None), w))"

fun spec_acts :: "('o, 'w) cell_act list \<Rightarrow> ('o, 'w) cells \<Rightarrow> (int list \<times> ('o, 'w) cells) option" where
  "spec_acts [] c = Some ([], c)"
| "spec_acts (x # xs) c =
     (case spec_act x c of None \<Rightarrow> None
      | Some (r, c) \<Rightarrow> map_option (\<lambda>(rs, c). (r # rs, c)) (spec_acts xs c))"

fun cell_run :: "(('o, 'w) cell_act \<Rightarrow> ('o, 'w) cell_fun) \<Rightarrow> ('o, 'w) cell_act list \<Rightarrow>
    (('o, 'w) cell_state, int list) act" where
  "cell_run step [] = retA []"
| "cell_run step (x # xs) = bindA (step x) (\<lambda>r. bindA (cell_run step xs) (\<lambda>rs. retA (r # rs)))"

text \<open>
  The contract of an implementation of cells: on states that are \<open>ok\<close> each step does to the
  abstract cells what the meaning of the step says, whenever the meaning allows the step.
\<close>

locale cell_impl =
  fixes step :: "('o, 'w) cell_act \<Rightarrow> ('o, 'w) cell_fun"
    and ok :: "('o, 'w) cell_state \<Rightarrow> bool"
    and abs_cells :: "('o, 'w) cell_state \<Rightarrow> ('o, 'w) cells"
  assumes step_refines: "ok s \<Longrightarrow> spec_act x (abs_cells s) = Some (r, c) \<Longrightarrow>
    \<exists>s'. step x s = (Inr r, s') \<and> ok s' \<and> abs_cells s' = c"
begin

lemma run_refines:
  "ok s \<Longrightarrow> spec_acts xs (abs_cells s) = Some (rs, c) \<Longrightarrow>
   \<exists>s'. cell_run step xs s = (Inr rs, s') \<and> ok s' \<and> abs_cells s' = c"
proof (induction xs arbitrary: s rs)
  case (Cons x xs)
  from Cons.prems(2) obtain r c1 where x: "spec_act x (abs_cells s) = Some (r, c1)"
    by (auto split: option.splits)
  with Cons.prems(2) obtain rs' where xs: "spec_acts xs c1 = Some (rs', c)" and rs: "rs = r # rs'" by auto
  from step_refines [OF Cons.prems(1) x] obtain s1 where s1: "step x s = (Inr r, s1)" "ok s1" "abs_cells s1 = c1"
    by blast
  from Cons.IH [OF s1(2) xs [folded s1(3)]] obtain s2 where
    "cell_run step xs s1 = (Inr rs', s2)" "ok s2" "abs_cells s2 = c" by blast
  with s1(1) rs show ?case by (simp add: bindA_def)
qed simp

end

section \<open>The templates fulfil the contract\<close>

fun template_step :: "bool \<Rightarrow> ('o, 'w) cell_act \<Rightarrow> ('o, 'w) cell_fun" where
  "template_step wrapped (Make a ctor) = make_c_wrapped_via_resolver wrapped ctor a"
| "template_step wrapped (Use a f) = resolved_use wrapped f a"
| "template_step wrapped (Destroy a dtor) = destroy_c_wrapped_via_resolver wrapped dtor a"

definition template_cells :: "bool \<Rightarrow> ('o, 'w) cell_state \<Rightarrow> ('o, 'w) cells" where
  "template_cells wrapped s =
     ((if wrapped then \<lambda>a. host_objs s (wrapped_ptr s a) else in_place s), cworld s)"

text \<open>
  With pointers: every block is some object's, no two objects share a block, and the next
  block is none of theirs. Without, no block is ever allocated.
\<close>

definition template_ok :: "bool \<Rightarrow> ('o, 'w) cell_state \<Rightarrow> bool" where
  "template_ok wrapped s \<longleftrightarrow>
     (if wrapped then
        (\<forall>a. wrapped_ptr s a < next_block s) \<and>
        (\<forall>p. host_objs s p \<noteq> None \<longrightarrow> p \<in> range (wrapped_ptr s)) \<and>
        (\<forall>a b. wrapped_ptr s a = wrapped_ptr s b \<longrightarrow> host_objs s (wrapped_ptr s a) \<noteq> None \<longrightarrow> a = b)
      else host_objs s = Map.empty)"

lemma make_ok:
  assumes "template_ok wrapped s" and "spec_act (Make a ctor) (template_cells wrapped s) = Some (r, c)"
  shows "\<exists>s'. make_c_wrapped_via_resolver wrapped ctor a s = (Inr r, s') \<and> template_ok wrapped s' \<and>
    template_cells wrapped s' = c"
proof -
  obtain ret ob w where ctor: "ctor (cworld s) = (ret, ob, w)" by (cases "ctor (cworld s)") auto
  show ?thesis
  proof (cases wrapped)
    case False
    with assms ctor show ?thesis
      by (auto simp: template_cells_def template_ok_def make_c_wrapped_via_resolver_def split: if_splits)
  next
    case True
    with assms have ok: "\<And>b. wrapped_ptr s b < next_block s" "\<And>p. host_objs s p \<noteq> None \<Longrightarrow> p \<in> range (wrapped_ptr s)"
      "\<And>a b. wrapped_ptr s a = wrapped_ptr s b \<Longrightarrow> host_objs s (wrapped_ptr s a) \<noteq> None \<Longrightarrow> a = b"
      and free: "host_objs s (wrapped_ptr s a) = None"
      by (auto simp: template_cells_def template_ok_def split: if_splits)
    from ok(1,2) have fresh: "host_objs s (next_block s) = None" by (metis less_irrefl rangeE)
    define s' where "s' = s\<lparr>wrapped_ptr := (wrapped_ptr s)(a := next_block s), next_block := Suc (next_block s),
      cworld := w, host_objs := (if ret \<noteq> 0 then host_objs s else (host_objs s)(next_block s \<mapsto> ob))\<rparr>"
    have "make_c_wrapped_via_resolver wrapped ctor a s = (Inr ret, s')"
      using True ctor by (simp add: make_c_wrapped_via_resolver_def make_c_wrapped_def Let_def s'_def)
    moreover have "template_cells wrapped s' = c" "r = ret"
      using True assms(2) ctor free fresh ok(1)
      by (auto simp: template_cells_def s'_def fun_eq_iff less_imp_neq)
    moreover have "template_ok wrapped s'"
    proof -
      have "wrapped_ptr s' b < next_block s'" for b using ok(1) by (simp add: s'_def less_SucI)
      moreover have "p \<in> range (wrapped_ptr s')" if p: "host_objs s' p \<noteq> None" for p
      proof (cases "p = next_block s")
        case True
        then have "p = wrapped_ptr s' a" by (simp add: s'_def)
        then show ?thesis by blast
      next
        case False
        with p have "host_objs s p \<noteq> None" by (auto simp: s'_def split: if_splits)
        with ok(2) obtain b where b: "p = wrapped_ptr s b" by blast
        with free \<open>host_objs s p \<noteq> None\<close> have "p = wrapped_ptr s' b" by (auto simp: s'_def)
        then show ?thesis by blast
      qed
      moreover have "b = b'" if "wrapped_ptr s' b = wrapped_ptr s' b'" "host_objs s' (wrapped_ptr s' b) \<noteq> None" for b b'
        using that ok(3) [of b b'] less_imp_neq [OF ok(1)] less_imp_neq [OF ok(1), symmetric]
        by (auto simp: s'_def split: if_splits)
      ultimately show ?thesis using True by (auto simp: template_ok_def)
    qed
    ultimately show ?thesis by blast
  qed
qed

lemma use_ok:
  assumes "template_ok wrapped s" and "spec_act (Use a f) (template_cells wrapped s) = Some (r, c)"
  shows "\<exists>s'. resolved_use wrapped f a s = (Inr r, s') \<and> template_ok wrapped s' \<and> template_cells wrapped s' = c"
proof -
  obtain ob where ob: "fst (template_cells wrapped s) a = Some ob"
    using assms(2) by (cases "fst (template_cells wrapped s) a") (simp_all add: template_cells_def)
  obtain ret ob' w where f: "f ob (cworld s) = (ret, ob', w)" by (cases "f ob (cworld s)") auto
  show ?thesis
  proof (cases wrapped)
    case False
    with assms ob f show ?thesis
      by (auto simp: template_cells_def template_ok_def resolved_use_def)
  next
    case True
    with assms(1) ob have uniq: "wrapped_ptr s b = wrapped_ptr s a \<longleftrightarrow> b = a" for b
      by (auto simp: template_cells_def template_ok_def)
    from True assms ob f uniq show ?thesis
      by (auto simp: template_cells_def template_ok_def resolved_use_def fun_eq_iff split: if_splits)
  qed
qed

lemma destroy_ok:
  assumes "template_ok wrapped s" and "spec_act (Destroy a dtor) (template_cells wrapped s) = Some (r, c)"
  shows "\<exists>s'. destroy_c_wrapped_via_resolver wrapped dtor a s = (Inr r, s') \<and> template_ok wrapped s' \<and>
    template_cells wrapped s' = c"
proof -
  obtain ob where ob: "fst (template_cells wrapped s) a = Some ob"
    using assms(2) by (cases "fst (template_cells wrapped s) a") (simp_all add: template_cells_def)
  obtain ret w where d: "dtor ob (cworld s) = (ret, w)" by (cases "dtor ob (cworld s)") auto
  show ?thesis
  proof (cases wrapped)
    case False
    with assms ob d show ?thesis
      by (auto simp: template_cells_def template_ok_def destroy_c_wrapped_via_resolver_def)
  next
    case True
    with assms(1) ob have uniq: "wrapped_ptr s b = wrapped_ptr s a \<longleftrightarrow> b = a" for b
      by (auto simp: template_cells_def template_ok_def)
    from True assms ob d uniq show ?thesis
      by (auto simp: template_cells_def template_ok_def destroy_c_wrapped_via_resolver_def destroy_c_wrapped_def
          fun_eq_iff split: if_splits)
  qed
qed

interpretation templates: cell_impl "template_step wrapped" "template_ok wrapped" "template_cells wrapped"
proof
  fix s x r c
  assume "template_ok wrapped s" and "spec_act x (template_cells wrapped s) = Some (r, c)"
  then show "\<exists>s'. template_step wrapped x s = (Inr r, s') \<and> template_ok wrapped s' \<and> template_cells wrapped s' = c"
    by (cases x) (auto intro: make_ok use_ok destroy_ok simp del: spec_act.simps)
qed

text \<open>A failed construction leaves the guest's object pointing at the freed block.\<close>

lemma failed_make_dangles:
  assumes "ctor (cworld s) = (ret, ob, w)" and "ret \<noteq> 0"
  shows "wrapped_ptr (snd (make_c_wrapped ctor a s)) a = next_block s \<and>
    host_objs (snd (make_c_wrapped ctor a s)) = host_objs s"
  using assms by (simp add: make_c_wrapped_def Let_def)

end
