(* ===== verification/Semaphore.thy ===== *)
theory Semaphore
  imports C_Wrapped Errno Time
begin

text \<open>
  Semaphores (src/src/semaphore.cpp, src/src/semaphore.h). On Apple a semaphore is a Mach
  port; elsewhere it is the host's \<open>sem_t\<close>, in place or behind a pointer as the templates of
  C_Wrapped decide by the sizes of the types.
\<close>

section \<open>Sizes\<close>

text \<open>\<open>bionic::sem_t\<close>: a pointer, and with 64-bit pointers four words of padding.\<close>

definition sizeof_sem :: "bool \<Rightarrow> nat" where
  "sizeof_sem lp = (if lp then 8 + 4 * 8 else 4)"

definition sem_wrapped :: "bool \<Rightarrow> nat \<Rightarrow> bool" where
  "sem_wrapped lp sizeof_host_sem = is_wrapped sizeof_host_sem (sizeof_sem lp)"

section \<open>POSIX hosts\<close>

record ('o, 'w) sem_host =
  h_sem_init :: "int \<Rightarrow> u32 \<Rightarrow> ('o, 'w) constructor"
  h_sem_destroy :: "('o, 'w) destructor"
  h_sem_wait :: "('o, 'w) use_fun"
  h_sem_post :: "('o, 'w) use_fun"
  h_sem_timedwait :: "timespec \<Rightarrow> ('o, 'w) use_fun"

definition sem_init :: "bool \<Rightarrow> ('o, 'w) sem_host \<Rightarrow> nat \<Rightarrow> int \<Rightarrow> u32 \<Rightarrow> ('o, 'w) cell_fun" where
  "sem_init wrapped H a pshared v = make_c_wrapped_via_resolver wrapped (h_sem_init H pshared v) a"

definition sem_destroy :: "bool \<Rightarrow> ('o, 'w) sem_host \<Rightarrow> nat \<Rightarrow> ('o, 'w) cell_fun" where
  "sem_destroy wrapped H a = destroy_c_wrapped_via_resolver wrapped (h_sem_destroy H) a"

text \<open>The other three are the host's functions with a rewritten argument.\<close>

definition sem_wait :: "bool \<Rightarrow> ('o, 'w) sem_host \<Rightarrow> nat \<Rightarrow> ('o, 'w) cell_fun" where
  "sem_wait wrapped H a = resolved_use wrapped (h_sem_wait H) a"

definition sem_post :: "bool \<Rightarrow> ('o, 'w) sem_host \<Rightarrow> nat \<Rightarrow> ('o, 'w) cell_fun" where
  "sem_post wrapped H a = resolved_use wrapped (h_sem_post H) a"

definition sem_timedwait :: "bool \<Rightarrow> ('o, 'w) sem_host \<Rightarrow> nat \<Rightarrow> timespec \<Rightarrow> ('o, 'w) cell_fun" where
  "sem_timedwait wrapped H a ts = resolved_use wrapped (h_sem_timedwait H ts) a"

datatype sem_op = Sem_init nat int u32 | Sem_destroy nat | Sem_wait nat | Sem_post nat | Sem_timedwait nat timespec

fun sem_step :: "bool \<Rightarrow> ('o, 'w) sem_host \<Rightarrow> sem_op \<Rightarrow> ('o, 'w) cell_fun" where
  "sem_step wrapped H (Sem_init a ps v) = sem_init wrapped H a ps v"
| "sem_step wrapped H (Sem_destroy a) = sem_destroy wrapped H a"
| "sem_step wrapped H (Sem_wait a) = sem_wait wrapped H a"
| "sem_step wrapped H (Sem_post a) = sem_post wrapped H a"
| "sem_step wrapped H (Sem_timedwait a ts) = sem_timedwait wrapped H a ts"

fun sem_run :: "bool \<Rightarrow> ('o, 'w) sem_host \<Rightarrow> sem_op list \<Rightarrow> (('o, 'w) cell_state, int list) act" where
  "sem_run wrapped H [] = retA []"
| "sem_run wrapped H (x # xs) =
     bindA (sem_step wrapped H x) (\<lambda>r. bindA (sem_run wrapped H xs) (\<lambda>rs. retA (r # rs)))"

text \<open>
  The same calls on host semaphores, one for each semaphore the guest initialised. The
  meaning is undefined where POSIX leaves it undefined: initialising a semaphore twice, and
  using one that is not initialised.
\<close>

fun host_act :: "('o, 'w) sem_host \<Rightarrow> sem_op \<Rightarrow> ('o, 'w) cell_act" where
  "host_act H (Sem_init a ps v) = Make a (h_sem_init H ps v)"
| "host_act H (Sem_destroy a) = Destroy a (h_sem_destroy H)"
| "host_act H (Sem_wait a) = Use a (h_sem_wait H)"
| "host_act H (Sem_post a) = Use a (h_sem_post H)"
| "host_act H (Sem_timedwait a ts) = Use a (h_sem_timedwait H ts)"

definition host_sems :: "('o, 'w) sem_host \<Rightarrow> sem_op list \<Rightarrow> ('o, 'w) cells \<Rightarrow> (int list \<times> ('o, 'w) cells) option" where
  "host_sems H xs = spec_acts (map (host_act H) xs)"

lemma sem_step_template: "sem_step wrapped H x = template_step wrapped (host_act H x)"
  by (cases x) (simp_all add: sem_init_def sem_destroy_def sem_wait_def sem_post_def sem_timedwait_def fun_eq_iff)

lemma sem_run_template: "sem_run wrapped H xs = cell_run (template_step wrapped) (map (host_act H) xs)"
  by (induction xs) (simp_all add: sem_step_template)

section \<open>Apple\<close>

text \<open>
  What Mach's calls return is a \<open>kern_return_t\<close>; the error numbers are part of the world.
  \<open>semaphore_create\<close> takes the policy and the initial value, \<open>semaphore_timedwait\<close> a
  time span whose seconds are an \<open>unsigned int\<close>.
\<close>

record ('o, 'w) mach_host =
  h_semaphore_create :: "int \<Rightarrow> int \<Rightarrow> ('o, 'w) constructor"
  h_semaphore_destroy :: "('o, 'w) destructor"
  h_semaphore_wait :: "('o, 'w) use_fun"
  h_semaphore_signal :: "('o, 'w) use_fun"
  h_semaphore_timedwait :: "u32 \<Rightarrow> int \<Rightarrow> ('o, 'w) use_fun"
  h_realtime :: "'w \<Rightarrow> timespec \<times> 'w"

text \<open>The host's \<open>errno\<close> after a Mach call, by a table of the codes that set it.\<close>

definition mach_errno :: "headers \<Rightarrow> (string \<times> string) list \<Rightarrow> int \<Rightarrow> errno_state \<Rightarrow> errno_state" where
  "mach_errno h rows ret e =
     (case host_case h rows ret of None \<Rightarrow> e | Some m \<Rightarrow> e\<lparr>host_errno := h m\<rparr>)"

definition mach_result ::
  "headers \<Rightarrow> (string \<times> string) list \<Rightarrow> int \<Rightarrow> errno_state \<Rightarrow> int \<times> errno_state" where
  "mach_result h rows ret e =
     (if ret \<noteq> 0 then (- 1, update_errno Apple h (mach_errno h rows ret e)) else (0, update_errno Apple h e))"

definition sem_init_apple ::
  "headers \<Rightarrow> ('o, 'w) mach_host \<Rightarrow> nat \<Rightarrow> int \<Rightarrow> u32 \<Rightarrow> (('o, 'w) cell_state \<times> errno_state, int) act" where
  "sem_init_apple h H a pshared v = (\<lambda>(s, e).
     if pshared \<noteq> 0 then (Inl (Runtime_error ''sem_init: pshared not supported'' []), s, e)
     else case make_c_wrapped_via_resolver False (h_semaphore_create H pshared (sint v)) a s of
         (Inl f, s) \<Rightarrow> (Inl f, s, e)
       | (Inr ret, s) \<Rightarrow>
           let (r, e) = mach_result h [(''KERN_INVALID_ARGUMENT'', ''EINVAL''), (''KERN_RESOURCE_SHORTAGE'', ''ENOMEM'')] ret e
           in (Inr r, s, e))"

definition sem_destroy_apple :: "('o, 'w) mach_host \<Rightarrow> nat \<Rightarrow> ('o, 'w) cell_fun" where
  "sem_destroy_apple H a = destroy_c_wrapped_via_resolver False (h_semaphore_destroy H) a"

definition sem_wait_apple :: "('o, 'w) mach_host \<Rightarrow> nat \<Rightarrow> ('o, 'w) cell_fun" where
  "sem_wait_apple H a = resolved_use False (h_semaphore_wait H) a"

definition sem_post_apple :: "('o, 'w) mach_host \<Rightarrow> nat \<Rightarrow> ('o, 'w) cell_fun" where
  "sem_post_apple H a = resolved_use False (h_semaphore_signal H) a"

text \<open>The span left until an absolute deadline, as \<open>mach_timespec_t\<close>.\<close>

definition relative_timeout :: "timespec \<Rightarrow> timespec \<Rightarrow> u32 \<times> int" where
  "relative_timeout deadline now =
     (if deadline > now
      then (word_of_int (ts_sec deadline - ts_sec now), sint (word_of_int (ts_nsec deadline - ts_nsec now) :: u32))
      else (0, 0))"

definition sem_timedwait_apple ::
  "headers \<Rightarrow> ('o, 'w) mach_host \<Rightarrow> nat \<Rightarrow> timespec \<Rightarrow> (('o, 'w) cell_state \<times> errno_state, int) act" where
  "sem_timedwait_apple h H a deadline = (\<lambda>(s, e).
     let (now, w) = h_realtime H (cworld s); (sec, nsec) = relative_timeout deadline now in
     case resolved_use False (h_semaphore_timedwait H sec nsec) a (s\<lparr>cworld := w\<rparr>) of
         (Inl f, s) \<Rightarrow> (Inl f, s, e)
       | (Inr ret, s) \<Rightarrow>
           let (r, e) = mach_result h [(''KERN_OPERATION_TIMED_OUT'', ''ETIMEDOUT''), (''KERN_ABORTED'', ''EINTR'')] ret e
           in (Inr r, s, e))"

text \<open>
  The seconds and nanoseconds are subtracted separately, without a borrow: with the
  deadline's nanoseconds below the present's the span is not in normal form.
\<close>

lemma relative_timeout_negative:
  "relative_timeout (Timespec 11 0) (Timespec 10 900000000) = (1, - 900000000)"
  by (simp add: relative_timeout_def less_timespec_def)

lemma sint_small: "- (2 ^ 31) \<le> i \<Longrightarrow> i < 2 ^ 31 \<Longrightarrow> sint (word_of_int i :: u32) = i"
  by (simp add: signed_of_int signed_take_bit_int_eq_self)

lemma uint_small: "0 \<le> i \<Longrightarrow> i < 2 ^ 32 \<Longrightarrow> uint (word_of_int i :: u32) = i"
  by (simp add: uint_word_of_int_eq take_bit_int_eq_self)

section \<open>Properties\<close>

text \<open>
  C10. Semaphores of the guest behave as host semaphores, whether they are held in place or
  behind a pointer: every sequence of calls that is defined on host semaphores returns the
  same results and leaves the same host semaphores and the same host behind, without a
  memory fault, and with pointers every block that is still allocated belongs to exactly one
  live semaphore.
\<close>

theorem semaphores_refine_host:
  assumes "template_ok wrapped s" and "host_sems H xs (template_cells wrapped s) = Some (rs, c)"
  shows "\<exists>s'. sem_run wrapped H xs s = (Inr rs, s') \<and> template_cells wrapped s' = c \<and> template_ok wrapped s'"
  using templates.run_refines [OF assms(1), of "map (host_act H) xs"] assms(2)
  by (auto simp: sem_run_template host_sems_def)

text \<open>A host whose semaphores are counters and whose world is the number of blocked waits.\<close>

definition counter_host :: "(nat, nat) sem_host" where
  "counter_host = \<lparr>h_sem_init = (\<lambda>ps v w. (0, unat v, w)), h_sem_destroy = (\<lambda>n w. (0, w)),
     h_sem_wait = (\<lambda>n w. if n = 0 then (- 1, n, Suc w) else (0, n - 1, w)),
     h_sem_post = (\<lambda>n w. (0, Suc n, w)),
     h_sem_timedwait = (\<lambda>ts n w. if n = 0 then (- 1, n, w) else (0, n - 1, w))\<rparr>"

definition no_cells :: "('o, nat) cell_state" where
  "no_cells = \<lparr>wrapped_ptr = (\<lambda>_. 0), in_place = Map.empty, host_objs = Map.empty, next_block = 1, cworld = 0\<rparr>"

lemma no_cells_ok: "template_ok wrapped no_cells" "template_cells wrapped no_cells = (Map.empty, 0)"
  by (auto simp: template_ok_def template_cells_def no_cells_def fun_eq_iff)

theorem semaphores_refine_host_witness:
  "\<exists>s'. sem_run True counter_host
      [Sem_init 7 0 1, Sem_init 9 0 0, Sem_wait 7, Sem_wait 7, Sem_post 9, Sem_timedwait 9 (Timespec 5 0), Sem_destroy 7] no_cells =
      (Inr [0, 0, 0, - 1, 0, 0, 0], s') \<and> template_cells True s' = ([9 \<mapsto> 0], 1) \<and> template_ok True s'"
  by (rule semaphores_refine_host)
    (simp_all add: no_cells_ok host_sems_def counter_host_def fun_eq_iff)



end
