(* ===== verification/Stdio.thy ===== *)
theory Stdio
  imports Wrappers Buffers
begin

text \<open>
  Buffered files (src/src/cstdio.cpp, src/src/cstdio.h). A bionic \<open>FILE\<close> is an object of
  the shim around the host's \<open>FILE\<close>; three of them are static. Handles 1, 2 and 3 are
  the host's \<open>stdin\<close>, \<open>stdout\<close> and \<open>stderr\<close>, and so are the addresses of the static objects.
\<close>

section \<open>Objects\<close>

record bfile =
  fp_name :: string
  fp_r :: int
  fp_w :: int
  fp_flags :: int
  fp_file :: int
  wrapped :: nat

definition std_files :: "nat set" where
  "std_files = {1, 2, 3}"

definition std_object :: "string \<Rightarrow> nat \<Rightarrow> bfile" where
  "std_object name f = \<lparr>fp_name = name, fp_r = 0, fp_w = 0, fp_flags = 0, fp_file = 0, wrapped = f\<rparr>"

definition init_standard_files :: "'w \<Rightarrow> (bfile, 'w) wrap_state" where
  "init_standard_files w = \<lparr>objects = [1 \<mapsto> std_object ''stdin'' 1, 2 \<mapsto> std_object ''stdout'' 2,
     3 \<mapsto> std_object ''stderr'' 3], next_obj = 4, handles = {1, 2, 3}, hostw = w\<rparr>"

text \<open>With 32-bit pointers the descriptor is kept in a \<open>short\<close>.\<close>

definition wrap_file :: "bool \<Rightarrow> (nat \<Rightarrow> int) \<Rightarrow> nat \<Rightarrow> bfile" where
  "wrap_file b64 fileno f = \<lparr>fp_name = ''Internal'', fp_r = 0, fp_w = 0, fp_flags = 0,
     fp_file = (if b64 then fileno f else sint (word_of_int (fileno f) :: 16 word)), wrapped = f\<rparr>"

section \<open>The host\<close>

text \<open>The host's functions on its streams; opening yields the new stream or 0.\<close>

record 'w stdio_host =
  h_fopen :: "string \<Rightarrow> string \<Rightarrow> 'w \<Rightarrow> nat \<times> 'w"
  h_fdopen :: "int \<Rightarrow> string \<Rightarrow> 'w \<Rightarrow> nat \<times> 'w"
  h_tmpfile :: "'w \<Rightarrow> nat \<times> 'w"
  h_popen :: "string \<Rightarrow> string \<Rightarrow> 'w \<Rightarrow> nat \<times> 'w"
  h_freopen :: "string \<Rightarrow> string \<Rightarrow> nat \<Rightarrow> 'w \<Rightarrow> bool \<times> 'w"
  h_fclose :: "nat \<Rightarrow> 'w \<Rightarrow> int \<times> 'w"
  h_pclose :: "nat \<Rightarrow> 'w \<Rightarrow> int \<times> 'w"
  h_fread :: "nat \<Rightarrow> u64 \<Rightarrow> u64 \<Rightarrow> 'w \<Rightarrow> (u64 \<times> bytes) \<times> 'w"
  h_fwrite :: "nat \<Rightarrow> bytes \<Rightarrow> u64 \<Rightarrow> u64 \<Rightarrow> 'w \<Rightarrow> u64 \<times> 'w"
  h_fgets :: "nat \<Rightarrow> int \<Rightarrow> 'w \<Rightarrow> bytes option \<times> 'w"
  h_vfscanf :: "nat \<Rightarrow> string \<Rightarrow> 'w \<Rightarrow> (int \<times> bytes) \<times> 'w"
  h_vfprintf :: "nat \<Rightarrow> string \<Rightarrow> bytes \<Rightarrow> 'w \<Rightarrow> int \<times> 'w"
  h_fseeko :: "nat \<Rightarrow> int \<Rightarrow> int \<Rightarrow> 'w \<Rightarrow> int \<times> 'w"
  h_ftello :: "nat \<Rightarrow> 'w \<Rightarrow> int \<times> 'w"
  h_feof :: "nat \<Rightarrow> 'w \<Rightarrow> bool \<times> 'w"
  h_fileno :: "nat \<Rightarrow> int"

type_synonym ('w, 'a) file_act = "((bfile, 'w) wrap_state, 'a) act"

section \<open>Opening and closing\<close>

definition open_file :: "bool \<Rightarrow> 'w stdio_host \<Rightarrow> ('w \<Rightarrow> nat \<times> 'w) \<Rightarrow> ('w, nat) file_act" where
  "open_file b64 H host = bindA (open_handle host) (wrap_handle (wrap_file b64 (h_fileno H)))"

definition fopen :: "bool \<Rightarrow> 'w stdio_host \<Rightarrow> string \<Rightarrow> string \<Rightarrow> ('w, nat) file_act" where
  "fopen b64 H filename mode = open_file b64 H (h_fopen H filename mode)"

definition fdopen :: "bool \<Rightarrow> 'w stdio_host \<Rightarrow> int \<Rightarrow> string \<Rightarrow> ('w, nat) file_act" where
  "fdopen b64 H fd mode = open_file b64 H (h_fdopen H fd mode)"

definition tmpfile :: "bool \<Rightarrow> 'w stdio_host \<Rightarrow> ('w, nat) file_act" where
  "tmpfile b64 H = open_file b64 H (h_tmpfile H)"

definition popen :: "bool \<Rightarrow> 'w stdio_host \<Rightarrow> string \<Rightarrow> string \<Rightarrow> ('w, nat) file_act" where
  "popen b64 H command mode = open_file b64 H (h_popen H command mode)"

text \<open>
  The host's \<open>freopen\<close> closes the stream and opens the same object again, or returns null;
  the shim wraps it a second time.
\<close>

definition freopen :: "bool \<Rightarrow> 'w stdio_host \<Rightarrow> string \<Rightarrow> string \<Rightarrow> nat \<Rightarrow> ('w, nat) file_act" where
  "freopen b64 H filename mode stream =
     bindA (get_object stream) (\<lambda>fp.
     bindA (close_handle (wrapped fp) (h_freopen H filename mode (wrapped fp))) (\<lambda>ok.
     bindA (open_handle (\<lambda>w. (if ok then wrapped fp else 0, w))) (wrap_handle (wrap_file b64 (h_fileno H)))))"

definition fclose :: "'w stdio_host \<Rightarrow> nat \<Rightarrow> ('w, int) file_act" where
  "fclose H file =
     bindA (get_object file) (\<lambda>fp.
     bindA (close_handle (wrapped fp) (h_fclose H (wrapped fp))) (\<lambda>ret.
       if file \<in> std_files then retA ret
       else bindA (delete_object file) (\<lambda>_. retA ret)))"

definition pclose :: "'w stdio_host \<Rightarrow> nat \<Rightarrow> ('w, int) file_act" where
  "pclose H file =
     bindA (get_object file) (\<lambda>fp.
     bindA (close_handle (wrapped fp) (h_pclose H (wrapped fp))) (\<lambda>ret.
       bindA (delete_object file) (\<lambda>_. retA ret)))"

section \<open>Reading and writing\<close>

text \<open>A host call on the stream of a file.\<close>

definition on_stream :: "nat \<Rightarrow> (nat \<Rightarrow> 'w \<Rightarrow> 'a \<times> 'w) \<Rightarrow> ('w, 'a) file_act" where
  "on_stream file host = bindA (get_object file) (\<lambda>fp. use_handle (wrapped fp) (host (wrapped fp)))"

definition update_feof :: "'w stdio_host \<Rightarrow> nat \<Rightarrow> ('w, unit) file_act" where
  "update_feof H file =
     bindA (on_stream file (h_feof H)) (\<lambda>eof.
     bindA (get_object file) (\<lambda>fp. put_object file (fp\<lparr>fp_flags := (if eof then 0x0020 else 0)\<rparr>)))"

definition fread :: "'w stdio_host \<Rightarrow> nat \<Rightarrow> u64 \<Rightarrow> u64 \<Rightarrow> ('w, u64 \<times> bytes) file_act" where
  "fread H file sz n =
     bindA (on_stream file (\<lambda>f. h_fread H f sz n)) (\<lambda>ret.
     bindA (update_feof H file) (\<lambda>_. retA ret))"

text \<open>\<open>fprintf\<close>, and \<open>fscanf\<close> and \<open>vfscanf\<close>, which share their body.\<close>

definition fprintf :: "'w stdio_host \<Rightarrow> nat \<Rightarrow> string \<Rightarrow> bytes \<Rightarrow> ('w, int) file_act" where
  "fprintf H fp fmt args = on_stream fp (\<lambda>f. h_vfprintf H f fmt args)"

definition vfscanf :: "'w stdio_host \<Rightarrow> nat \<Rightarrow> string \<Rightarrow> ('w, int \<times> bytes) file_act" where
  "vfscanf H fp fmt =
     bindA (on_stream fp (\<lambda>f. h_vfscanf H f fmt)) (\<lambda>ret.
     bindA (update_feof H fp) (\<lambda>_. retA ret))"

definition fseeko :: "'w stdio_host \<Rightarrow> nat \<Rightarrow> int \<Rightarrow> int \<Rightarrow> ('w, int) file_act" where
  "fseeko H fp off whence = on_stream fp (\<lambda>f. h_fseeko H f off whence)"

text \<open>bionic's \<open>off_t\<close> has 32 bits on 32-bit systems.\<close>

definition ftello :: "bool \<Rightarrow> 'w stdio_host \<Rightarrow> nat \<Rightarrow> ('w, int) file_act" where
  "ftello b64 H fp =
     bindA (on_stream fp (h_ftello H)) (\<lambda>off. retA (if b64 then off else sint (word_of_int off :: u32)))"

section \<open>Fortified functions\<close>

definition vsnprintf_chk ::
  "(u64 \<Rightarrow> string \<Rightarrow> 'w \<Rightarrow> (int \<times> bytes) \<times> 'w) \<Rightarrow> u64 \<Rightarrow> u64 \<Rightarrow> string \<Rightarrow> ('w, int \<times> bytes) act" where
  "vsnprintf_chk host in_len max_len fmt =
     (if in_len > max_len then liftA (Inl (Aborted ''detected write past buffer''))
      else (\<lambda>w. let (r, w) = host in_len fmt w in (Inr r, w)))"

definition snprintf_chk ::
  "(u64 \<Rightarrow> string \<Rightarrow> 'w \<Rightarrow> (int \<times> bytes) \<times> 'w) \<Rightarrow> u64 \<Rightarrow> u64 \<Rightarrow> string \<Rightarrow> ('w, int \<times> bytes) act" where
  "snprintf_chk host in_len max_len fmt = vsnprintf_chk host in_len max_len fmt"

definition fgets_chk :: "'w stdio_host \<Rightarrow> int \<Rightarrow> nat \<Rightarrow> u64 \<Rightarrow> ('w, bytes option) file_act" where
  "fgets_chk H len stream max_len =
     (if len < 0 \<or> len > uint max_len then liftA (Inl (Aborted ''detected write past buffer''))
      else on_stream stream (\<lambda>f. h_fgets H f len))"

definition SIZE_MAX :: u64 where
  "SIZE_MAX = 0xFFFFFFFFFFFFFFFF"

definition fread_chk :: "'w stdio_host \<Rightarrow> u64 \<Rightarrow> u64 \<Rightarrow> nat \<Rightarrow> u64 \<Rightarrow> ('w, u64 \<times> bytes) file_act" where
  "fread_chk H sz count stream buf_size =
     (if sz \<noteq> 0 \<and> count > SIZE_MAX div sz then on_stream stream (\<lambda>f. h_fread H f sz count)
      else let total = sz * count in
        if total > buf_size then liftA (Inl (Aborted ''detected write past buffer''))
        else bindA (on_stream stream (\<lambda>f. h_fread H f sz count)) (\<lambda>ret.
          bindA (update_feof H stream) (\<lambda>_. retA ret)))"

definition fwrite_chk :: "'w stdio_host \<Rightarrow> bytes \<Rightarrow> u64 \<Rightarrow> u64 \<Rightarrow> nat \<Rightarrow> u64 \<Rightarrow> ('w, u64) file_act" where
  "fwrite_chk H buf sz count stream buf_size =
     (if sz \<noteq> 0 \<and> count > SIZE_MAX div sz then on_stream stream (\<lambda>f. h_fwrite H f buf sz count)
      else let total = sz * count in
        if total > buf_size then liftA (Inl (Aborted ''detected read past buffer''))
        else on_stream stream (\<lambda>f. h_fwrite H f buf sz count))"

section \<open>Interface\<close>

interpretation stdio: handle_owner wrapped "wrap_file lp fileno" std_files
  by unfold_locales (simp add: wrap_file_def)

text \<open>
  The state of a process's files: every file object that is not static owns its stream, every
  open stream has an object, and the static objects stand for the standard streams.
\<close>

definition files_ok :: "(bfile, 'w) wrap_state \<Rightarrow> bool" where
  "files_ok s \<longleftrightarrow> stdio.owning s \<and> (\<forall>p \<in> std_files. map_option wrapped (objects s p) = Some p)"

lemma files_ok_init: "files_ok (init_standard_files w)"
proof -
  have map: "stdio.handle_map (init_standard_files w) = (\<lambda>p. if p \<in> std_files then Some p else None)"
    unfolding stdio.handle_map_def
    by (simp add: init_standard_files_def std_object_def std_files_def fun_eq_iff)
  have "own_ok std_files (\<lambda>p. if p \<in> std_files then Some p else None) 4 std_files"
  proof -
    have "p \<in> std_files \<Longrightarrow> 0 < p \<and> p < 4" for p by (auto simp: std_files_def)
    then show ?thesis unfolding own_ok_def by (auto split: if_splits)
  qed
  moreover have "next_obj (init_standard_files w) = 4" "handles (init_standard_files w) = std_files"
    by (simp_all add: init_standard_files_def std_files_def)
  ultimately have "stdio.owning (init_standard_files w)" by (simp add: stdio.owning_def map)
  moreover have "map_option wrapped (objects (init_standard_files w) p) = Some p" if "p \<in> std_files" for p
    using fun_cong [OF map, of p] that by (simp add: stdio.handle_map_def)
  ultimately show ?thesis by (simp add: files_ok_def)
qed

lemma files_ok_live:
  assumes "files_ok s" and "objects s p = Some fp" and "p \<notin> std_files \<or> p \<in> handles s"
  shows "wrapped fp \<in> handles s"
  using assms stdio.owningD(1) [of s p fp] by (cases "p \<in> std_files") (auto simp: files_ok_def)

lemma files_ok_update:
  assumes "files_ok s" and "objects s p = Some fp" and "wrapped fp' = wrapped fp"
  shows "files_ok (s\<lparr>hostw := w, objects := (objects s)(p \<mapsto> fp')\<rparr>)"
  using assms stdio.owning_update [OF _ assms(2,3)] by (auto simp: files_ok_def)

lemma files_ok_host: "files_ok s \<Longrightarrow> files_ok (s\<lparr>hostw := w\<rparr>)"
  using stdio.owning_host [of s w] by (simp add: files_ok_def)

lemma wrap_eq: "(s\<lparr>hostw := w\<rparr>)\<lparr>hostw := w', objects := m\<rparr> = s\<lparr>hostw := w', objects := m\<rparr>" for s :: "('o, 'w) wrap_state"
  by simp

text \<open>Each operation on a good state with a usable file works and leaves a good state.\<close>

lemma open_file_ok:
  assumes "files_ok s" and "fst (host (hostw s)) \<notin> handles s \<union> std_files"
  shows "\<exists>s'. open_file b64 H host s = (Inr (if fst (host (hostw s)) = 0 then 0 else next_obj s), s') \<and> files_ok s' \<and>
    handles s' = (if fst (host (hostw s)) = 0 then handles s else insert (fst (host (hostw s))) (handles s)) \<and>
    objects s' = (if fst (host (hostw s)) = 0 then objects s
      else (objects s)(next_obj s \<mapsto> wrap_file b64 (h_fileno H) (fst (host (hostw s)))))"
proof -
  obtain f w where f: "host (hostw s) = (f, w)" by (cases "host (hostw s)")
  have own: "stdio.owning s" and std: "\<And>p. p \<in> std_files \<Longrightarrow> map_option wrapped (objects s p) = Some p"
    using assms(1) by (auto simp: files_ok_def)
  have fresh: "\<forall>p. stdio.handle_map s p \<noteq> Some f"
  proof (intro allI notI)
    fix p assume p: "stdio.handle_map s p = Some f"
    then obtain fp where fp: "objects s p = Some fp" "wrapped fp = f" by (auto simp: stdio.handle_map_def)
    show False
    proof (cases "p \<in> std_files")
      case True
      with std [OF True] fp assms(2) f show False by auto
    next
      case False
      with files_ok_live [OF assms(1) fp(1)] fp(2) assms(2) f show False by auto
    qed
  qed
  from stdio.open_wrap [where host = host, OF own f fresh, where lp = b64 and fileno = "h_fileno H"] obtain s' where s':
    "open_file b64 H host s = (Inr (if f = 0 then 0 else next_obj s), s')" "stdio.owning s'"
    "handles s' = (if f = 0 then handles s else insert f (handles s))"
    "objects s' = (if f = 0 then objects s else (objects s)(next_obj s \<mapsto> wrap_file b64 (h_fileno H) f))"
    unfolding open_file_def by blast
  have "next_obj s \<notin> std_files" using own own_ok_fresh(2) [of std_files] by (simp add: stdio.owning_def)
  with s' std have "files_ok s'" by (auto simp: files_ok_def)
  with s' f show ?thesis by auto
qed

lemma close_ok:
  assumes "files_ok s" and "objects s p = Some fp" and "p \<notin> std_files"
  shows "\<exists>r s'. bindA (close_handle (wrapped fp) host) (\<lambda>ret. bindA (delete_object p) (\<lambda>_. retA ret)) s = (Inr r, s') \<and>
    files_ok s' \<and> handles s' = handles s - {wrapped fp} \<and> objects s' = (objects s)(p := None)"
proof -
  obtain r w where r: "host (hostw s) = (r, w)" by (cases "host (hostw s)")
  from assms(1) have "stdio.owning s" by (simp add: files_ok_def)
  from stdio.close_delete [where host = host, OF this assms(2,3) r] assms(1,3) show ?thesis by (auto simp: files_ok_def)
qed

lemma close_static_ok:
  assumes "files_ok s" and "objects s p = Some fp" and "p \<in> std_files" and "p \<in> handles s"
  shows "\<exists>r s'. close_handle (wrapped fp) host s = (Inr r, s') \<and> files_ok s' \<and> handles s' = handles s - {p} \<and>
    objects s' = objects s"
proof -
  obtain r w where r: "host (hostw s) = (r, w)" by (cases "host (hostw s)")
  from assms(1-3) have wp: "wrapped fp = p" by (auto simp: files_ok_def)
  define s' where "s' = s\<lparr>hostw := w, handles := handles s - {p}\<rparr>"
  have run: "close_handle (wrapped fp) host s = (Inr r, s')"
    using assms(4) wp r by (simp add: close_handle_def s'_def)
  have map: "stdio.handle_map s' = stdio.handle_map s" by (simp add: stdio.handle_map_def s'_def)
  have other: "stdio.handle_map s q \<noteq> Some p" if "q \<notin> std_files" for q
  proof
    assume q: "stdio.handle_map s q = Some p"
    have "stdio.handle_map s p = Some p" using assms(2) wp by (simp add: stdio.handle_map_def)
    with q that assms(1) have "p = q" unfolding files_ok_def stdio.owning_def by (auto dest: own_okD(4))
    with that assms(3) show False by simp
  qed
  have "own_ok std_files (stdio.handle_map s) (next_obj s) (handles s - {p})"
    using assms(1) other unfolding files_ok_def stdio.owning_def own_ok_def by blast
  then have "stdio.owning s'" by (simp add: stdio.owning_def map) (simp add: s'_def)
  with assms(1) have "files_ok s'" by (simp add: files_ok_def s'_def)
  with run show ?thesis by (simp add: s'_def)
qed

lemma on_stream_run:
  assumes "objects s p = Some fp" and "wrapped fp \<in> handles s"
  shows "on_stream p host s = (Inr (fst (host (wrapped fp) (hostw s))), s\<lparr>hostw := snd (host (wrapped fp) (hostw s))\<rparr>)"
  using assms by (simp add: on_stream_def get_object_def use_handle_def bindA_def split: prod.split)

lemma update_feof_run:
  assumes "objects s p = Some fp" and "wrapped fp \<in> handles s" and "h_feof H (wrapped fp) (hostw s) = (eof, w)"
  shows "update_feof H p s = (Inr (), s\<lparr>hostw := w, objects := (objects s)(p \<mapsto> fp\<lparr>fp_flags := (if eof then 0x20 else 0)\<rparr>)\<rparr>)"
  using assms by (simp add: update_feof_def on_stream_def get_object_def use_handle_def put_object_def bindA_def)

text \<open>A call on the stream followed by the update of the end-of-file flag.\<close>

lemma stream_then_feof:
  assumes "files_ok s" and "objects s p = Some fp" and "wrapped fp \<in> handles s"
  shows "\<exists>r s'. bindA (on_stream p host) (\<lambda>ret. bindA (update_feof H p) (\<lambda>_. retA ret)) s = (Inr r, s') \<and> files_ok s' \<and>
    r = fst (host (wrapped fp) (hostw s)) \<and> handles s' = handles s \<and>
    objects s' = (objects s)(p \<mapsto> fp\<lparr>fp_flags := (if fst (h_feof H (wrapped fp) (snd (host (wrapped fp) (hostw s)))) then 0x20 else 0)\<rparr>)"
proof -
  define w where "w = snd (host (wrapped fp) (hostw s))"
  obtain eof w' where eof: "h_feof H (wrapped fp) w = (eof, w')" by fastforce
  have "update_feof H p (s\<lparr>hostw := w\<rparr>) =
      (Inr (), s\<lparr>hostw := w', objects := (objects s)(p \<mapsto> fp\<lparr>fp_flags := (if eof then 0x20 else 0)\<rparr>)\<rparr>)"
    using update_feof_run [of "s\<lparr>hostw := w\<rparr>" p fp H eof w'] assms(2,3) eof by simp
  moreover have "files_ok (s\<lparr>hostw := w', objects := (objects s)(p \<mapsto> fp\<lparr>fp_flags := (if eof then 0x20 else 0)\<rparr>)\<rparr>)"
    by (rule files_ok_update [OF assms(1,2)]) simp
  ultimately show ?thesis
    using on_stream_run [OF assms(2,3), of host] eof by (simp add: bindA_def w_def)
qed

section \<open>Sequences of operations\<close>

datatype io_op =
    Fopen string string
  | Fdopen int string
  | Tmpfile
  | Popen string string
  | Fclose nat
  | Pclose nat
  | Fread nat u64 u64
  | Fscanf nat string
  | Fprintf nat string bytes
  | Fseeko nat int int
  | Ftello nat

definition discard :: "('s, 'a) act \<Rightarrow> ('s, unit) act" where
  "discard m = bindA m (\<lambda>_. retA ())"

fun io_step :: "bool \<Rightarrow> 'w stdio_host \<Rightarrow> io_op \<Rightarrow> ('w, unit) file_act" where
  "io_step b64 H (Fopen fn mode) = discard (fopen b64 H fn mode)"
| "io_step b64 H (Fdopen fd mode) = discard (fdopen b64 H fd mode)"
| "io_step b64 H Tmpfile = discard (tmpfile b64 H)"
| "io_step b64 H (Popen cmd mode) = discard (popen b64 H cmd mode)"
| "io_step b64 H (Fclose p) = discard (fclose H p)"
| "io_step b64 H (Pclose p) = discard (pclose H p)"
| "io_step b64 H (Fread p sz n) = discard (fread H p sz n)"
| "io_step b64 H (Fscanf p fmt) = discard (vfscanf H p fmt)"
| "io_step b64 H (Fprintf p fmt args) = discard (fprintf H p fmt args)"
| "io_step b64 H (Fseeko p off wh) = discard (fseeko H p off wh)"
| "io_step b64 H (Ftello p) = discard (ftello b64 H p)"

text \<open>
  The sides of the contract: the host never returns a stream that is in use, and the guest
  passes pointers to files that are open and closes the standard files with \<open>fclose\<close> only.
\<close>

definition host_opens_fresh :: "('w \<Rightarrow> nat \<times> 'w) \<Rightarrow> (bfile, 'w) wrap_state \<Rightarrow> bool" where
  "host_opens_fresh host s \<longleftrightarrow> fst (host (hostw s)) \<notin> handles s \<union> std_files"

definition usable_file :: "nat \<Rightarrow> (bfile, 'w) wrap_state \<Rightarrow> bool" where
  "usable_file p s \<longleftrightarrow> objects s p \<noteq> None \<and> (p \<in> std_files \<longrightarrow> p \<in> handles s)"

fun io_valid :: "'w stdio_host \<Rightarrow> io_op \<Rightarrow> (bfile, 'w) wrap_state \<Rightarrow> bool" where
  "io_valid H (Fopen fn mode) s = host_opens_fresh (h_fopen H fn mode) s"
| "io_valid H (Fdopen fd mode) s = host_opens_fresh (h_fdopen H fd mode) s"
| "io_valid H Tmpfile s = host_opens_fresh (h_tmpfile H) s"
| "io_valid H (Popen cmd mode) s = host_opens_fresh (h_popen H cmd mode) s"
| "io_valid H (Fclose p) s = usable_file p s"
| "io_valid H (Pclose p) s = (usable_file p s \<and> p \<notin> std_files)"
| "io_valid H (Fread p sz n) s = usable_file p s"
| "io_valid H (Fscanf p fmt) s = usable_file p s"
| "io_valid H (Fprintf p fmt args) s = usable_file p s"
| "io_valid H (Fseeko p off wh) s = usable_file p s"
| "io_valid H (Ftello p) s = usable_file p s"

fun io_run :: "bool \<Rightarrow> 'w stdio_host \<Rightarrow> io_op list \<Rightarrow> ('w, unit) file_act" where
  "io_run b64 H [] = retA ()"
| "io_run b64 H (x # xs) = bindA (io_step b64 H x) (\<lambda>_. io_run b64 H xs)"

fun io_all_valid :: "bool \<Rightarrow> 'w stdio_host \<Rightarrow> io_op list \<Rightarrow> (bfile, 'w) wrap_state \<Rightarrow> bool" where
  "io_all_valid b64 H [] s \<longleftrightarrow> True"
| "io_all_valid b64 H (x # xs) s \<longleftrightarrow> io_valid H x s \<and> io_all_valid b64 H xs (snd (io_step b64 H x s))"

lemma discard_run: "m s = (Inr r, s') \<Longrightarrow> discard m s = (Inr (), s')"
  by (simp add: discard_def bindA_def)

lemma discard_ok: "\<exists>r s'. m s = (Inr r, s') \<and> P s' \<Longrightarrow> \<exists>s'. discard m s = (Inr (), s') \<and> P s'"
  by (elim exE conjE) (drule discard_run, blast)

lemma usable_fileD:
  assumes "files_ok s" and "usable_file p s"
  shows "\<exists>fp. objects s p = Some fp \<and> wrapped fp \<in> handles s"
  using assms files_ok_live [OF assms(1), of p] by (auto simp: usable_file_def)

lemma opens_ok:
  "files_ok s \<Longrightarrow> host_opens_fresh host s \<Longrightarrow> \<exists>r s'. open_file b64 H host s = (Inr r, s') \<and> files_ok s'"
  using open_file_ok [of s host b64 H] by (auto simp: host_opens_fresh_def)

lemma stream_ok:
  assumes "files_ok s" and "usable_file p s"
  shows "\<exists>r s'. on_stream p host s = (Inr r, s') \<and> files_ok s'"
  using usable_fileD [OF assms] on_stream_run files_ok_host [OF assms(1)] by blast

lemma fclose_ok:
  assumes "files_ok s" and "usable_file p s"
  shows "\<exists>r s'. fclose H p s = (Inr r, s') \<and> files_ok s'"
proof -
  from usable_fileD [OF assms] obtain fp where fp: "objects s p = Some fp" by blast
  then have eq: "fclose H p s = bindA (close_handle (wrapped fp) (h_fclose H (wrapped fp))) (\<lambda>ret.
      if p \<in> std_files then retA ret else bindA (delete_object p) (\<lambda>_. retA ret)) s"
    by (simp add: fclose_def get_object_def bindA_def)
  show ?thesis
  proof (cases "p \<in> std_files")
    case True
    with assms(2) have "p \<in> handles s" by (simp add: usable_file_def)
    from close_static_ok [OF assms(1) fp True this, of "h_fclose H (wrapped fp)"] True show ?thesis
      unfolding eq by (auto simp: bindA_def)
  next
    case False
    from close_ok [OF assms(1) fp this, of "h_fclose H (wrapped fp)"] False show ?thesis
      unfolding eq by auto
  qed
qed

lemma pclose_ok:
  assumes "files_ok s" and "usable_file p s" and "p \<notin> std_files"
  shows "\<exists>r s'. pclose H p s = (Inr r, s') \<and> files_ok s'"
proof -
  from usable_fileD [OF assms(1,2)] obtain fp where fp: "objects s p = Some fp" by blast
  then have "pclose H p s = bindA (close_handle (wrapped fp) (h_pclose H (wrapped fp))) (\<lambda>ret.
      bindA (delete_object p) (\<lambda>_. retA ret)) s"
    by (simp add: pclose_def get_object_def bindA_def)
  with close_ok [OF assms(1) fp assms(3), of "h_pclose H (wrapped fp)"] show ?thesis by auto
qed

lemma io_step_ok:
  assumes "files_ok s" and "io_valid H x s"
  shows "\<exists>s'. io_step b64 H x s = (Inr (), s') \<and> files_ok s'"
proof (cases x)
  case (Fread p sz n)
  with assms usable_fileD obtain fp where "objects s p = Some fp" "wrapped fp \<in> handles s" by auto
  from stream_then_feof [OF assms(1) this, of "\<lambda>f. h_fread H f sz n" H] show ?thesis
    unfolding Fread io_step.simps fread_def by - (rule discard_ok, elim exE conjE, intro exI conjI)
next
  case (Fscanf p fmt)
  with assms usable_fileD obtain fp where "objects s p = Some fp" "wrapped fp \<in> handles s" by auto
  from stream_then_feof [OF assms(1) this, of "\<lambda>f. h_vfscanf H f fmt" H] show ?thesis
    unfolding Fscanf io_step.simps vfscanf_def by - (rule discard_ok, elim exE conjE, intro exI conjI)
next
  case (Ftello p)
  with assms stream_ok [OF assms(1), of p "h_ftello H"] show ?thesis
    by (auto simp: ftello_def discard_def bindA_def)
qed (use assms opens_ok fclose_ok pclose_ok stream_ok in
  \<open>auto simp: fopen_def fdopen_def tmpfile_def popen_def fprintf_def fseeko_def intro!: discard_ok\<close>)

lemma io_run_ok:
  "files_ok s \<Longrightarrow> io_all_valid b64 H xs s \<Longrightarrow> \<exists>s'. io_run b64 H xs s = (Inr (), s') \<and> files_ok s'"
proof (induction xs arbitrary: s)
  case (Cons x xs)
  then have "files_ok s" "io_valid H x s" by simp_all
  from io_step_ok [OF this] obtain s1 where s1: "io_step b64 H x s = (Inr (), s1)" "files_ok s1" by blast
  with Cons show ?case by (simp add: bindA_def)
qed simp

section \<open>Properties\<close>

text \<open>
  C9. Whatever files a guest opens, reads, writes and closes, the shim never uses a stream or
  an object that is gone, every file object owns a stream of its own, and every open
  stream belongs to an object: closing a file frees both, so nothing leaks.
\<close>

theorem stdio_owns_streams:
  assumes "io_all_valid b64 H xs (init_standard_files w)"
  shows "\<exists>s. io_run b64 H xs (init_standard_files w) = (Inr (), s) \<and> files_ok s \<and>
    (\<forall>f \<in> handles s. \<exists>p fp. objects s p = Some fp \<and> wrapped fp = f) \<and>
    (\<forall>p fp. objects s p = Some fp \<longrightarrow> p \<notin> std_files \<longrightarrow> wrapped fp \<in> handles s \<and>
      (\<forall>q fq. objects s q = Some fq \<longrightarrow> wrapped fq = wrapped fp \<longrightarrow> q = p))"
proof -
  from io_run_ok [OF files_ok_init assms] obtain s where
    s: "io_run b64 H xs (init_standard_files w) = (Inr (), s)" "files_ok s" by blast
  then have own: "stdio.owning s" by (simp add: files_ok_def)
  then have "\<forall>f \<in> handles s. \<exists>p fp. objects s p = Some fp \<and> wrapped fp = f"
    unfolding stdio.owning_def own_ok_def stdio.handle_map_def by (metis map_option_eq_Some)
  moreover have "wrapped fp \<in> handles s \<and> (\<forall>q fq. objects s q = Some fq \<longrightarrow> wrapped fq = wrapped fp \<longrightarrow> q = p)"
    if "objects s p = Some fp" "p \<notin> std_files" for p fp
    using stdio.owningD(1,4) [OF own that] by metis
  ultimately show ?thesis using s by blast
qed

text \<open>A host whose streams are numbered from 4 on; \<open>'w\<close> is the next number.\<close>

definition counting_host :: "nat stdio_host" where
  "counting_host = \<lparr>h_fopen = (\<lambda>_ _ n. (n, Suc n)), h_fdopen = (\<lambda>_ _ n. (n, Suc n)), h_tmpfile = (\<lambda>n. (n, Suc n)),
     h_popen = (\<lambda>_ _ n. (n, Suc n)), h_freopen = (\<lambda>_ _ _ n. (True, n)), h_fclose = (\<lambda>_ n. (0, n)),
     h_pclose = (\<lambda>_ n. (0, n)), h_fread = (\<lambda>_ _ _ n. ((0, []), n)), h_fwrite = (\<lambda>_ _ _ _ n. (0, n)),
     h_fgets = (\<lambda>_ _ n. (None, n)), h_vfscanf = (\<lambda>_ _ n. ((0, []), n)), h_vfprintf = (\<lambda>_ _ _ n. (0, n)),
     h_fseeko = (\<lambda>_ _ _ n. (0, n)), h_ftello = (\<lambda>_ n. (0, n)), h_feof = (\<lambda>_ n. (True, n)), h_fileno = int\<rparr>"

lemmas io_simps = counting_host_def io_step.simps discard_def fopen_def tmpfile_def open_file_def fclose_def fread_def
  update_feof_def on_stream_def open_handle_def wrap_handle_def new_object_def get_object_def put_object_def
  delete_object_def use_handle_def close_handle_def bindA_def init_standard_files_def std_files_def
  host_opens_fresh_def usable_file_def wrap_file_def std_object_def

theorem stdio_owns_streams_witness:
  "\<exists>s. io_run True counting_host [Fopen ''a'' ''r'', Tmpfile, Fread 4 1 8, Fclose 4, Fclose 2] (init_standard_files 4) =
     (Inr (), s) \<and> handles s = {1, 3, 5} \<and> (\<forall>f \<in> handles s. \<exists>p fp. objects s p = Some fp \<and> wrapped fp = f)"
proof -
  have "io_all_valid True counting_host [Fopen ''a'' ''r'', Tmpfile, Fread 4 1 8, Fclose 4, Fclose 2] (init_standard_files 4)"
    by (simp add: io_simps)
  from stdio_owns_streams [OF this] obtain s where
    s: "io_run True counting_host [Fopen ''a'' ''r'', Tmpfile, Fread 4 1 8, Fclose 4, Fclose 2] (init_standard_files 4) = (Inr (), s)"
    "\<forall>f \<in> handles s. \<exists>p fp. objects s p = Some fp \<and> wrapped fp = f" by blast
  moreover from s(1) have "handles s = {1, 3, 5}" by (auto simp: io_simps)
  ultimately show ?thesis by blast
qed

text \<open>
  \<open>freopen\<close> is not part of the sequences: it wraps the reopened stream in a second object, so
  that two objects own it. Closing both closes the stream twice.
\<close>

lemma freopen_double_close:
  "fst (bindA (freopen True counting_host ''a'' ''r'' 4) (\<lambda>q. bindA (fclose counting_host q) (\<lambda>_. fclose counting_host 4))
     (snd (fopen True counting_host ''a'' ''r'' (init_standard_files 4)))) = Inl Memory_fault"
  by (simp add: io_simps freopen_def)

text \<open>The size check of \<open>__fread_chk\<close> does not wrap: it compares the exact product.\<close>

lemma product_check:
  "sz \<noteq> 0 \<and> SIZE_MAX div sz < count \<longleftrightarrow> 2 ^ 64 \<le> unat sz * unat count" for sz count :: u64
proof (cases "sz = 0")
  case False
  then have pos: "0 < unat sz" by (simp add: unat_gt_0)
  have "unat (SIZE_MAX div sz) = (2 ^ 64 - 1) div unat sz" by (simp add: SIZE_MAX_def unat_div)
  then have "SIZE_MAX div sz < count \<longleftrightarrow> (2 ^ 64 - 1) div unat sz < unat count" by (simp add: word_less_nat_alt)
  also have "\<dots> \<longleftrightarrow> 2 ^ 64 - 1 < unat count * unat sz" using pos by (rule div_less_iff_less_mult)
  also have "\<dots> \<longleftrightarrow> 2 ^ 64 \<le> unat sz * unat count" by (simp add: mult.commute) linarith
  finally show ?thesis using False by simp
qed simp

lemma fread_chk_exact:
  "fread_chk H sz count stream buf_size =
     (if 2 ^ 64 \<le> unat sz * unat count then on_stream stream (\<lambda>f. h_fread H f sz count)
      else if unat buf_size < unat sz * unat count then liftA (Inl (Aborted ''detected write past buffer''))
      else fread H stream sz count)"
proof -
  have "unat (sz * count) = unat sz * unat count" if "\<not> 2 ^ 64 \<le> unat sz * unat count"
    using that by (simp add: unat_word_ariths)
  then have "\<not> 2 ^ 64 \<le> unat sz * unat count \<Longrightarrow> buf_size < sz * count \<longleftrightarrow> unat buf_size < unat sz * unat count"
    by (simp add: word_less_nat_alt)
  then show ?thesis unfolding fread_chk_def product_check fread_def Let_def by simp
qed

end
