(* ===== verification/Arg_Rewrite.thy ===== *)
theory Arg_Rewrite
  imports Stdio
begin

text \<open>
  The argument rewriting of src/src/argrewrite.h: a shimmed function with the host's own
  signature is called with every argument passed through the \<open>before\<close> of its type's
  rewriter, the destructors running the \<open>after\<close>s. Its use in src/src/cstdio.cpp gives the
  host functions on files that need no code of their own.
\<close>

section \<open>Rewriters\<close>

text \<open>
  A rewriter of arguments \<open>'a\<close> into \<open>'b\<close> over a state. An \<open>after\<close> runs in a destructor
  and cannot throw.
\<close>

record ('s, 'a, 'b) rewriter =
  before :: "'a \<Rightarrow> ('s, 'b) act"
  after :: "'a \<Rightarrow> 's \<Rightarrow> 's"

definition nop_arg_rewrite :: "('s, 'a, 'a) rewriter" where
  "nop_arg_rewrite = \<lparr>before = retA, after = (\<lambda>_ s. s)\<rparr>"

definition bionic_ptr_rewriter :: "('a \<Rightarrow> ('s, 'b) act) \<Rightarrow> ('s, 'a, 'b) rewriter" where
  "bionic_ptr_rewriter to_host = \<lparr>before = to_host, after = (\<lambda>_ s. s)\<rparr>"

text \<open>
  A destructor at the end of a scope: it runs when the scope returns and when an exception
  leaves it, not when the process has aborted or faulted.
\<close>

fun unwinds :: "'a result \<Rightarrow> bool" where
  "unwinds (Inr _) \<longleftrightarrow> True"
| "unwinds (Inl (Runtime_error _ _)) \<longleftrightarrow> True"
| "unwinds (Inl _) \<longleftrightarrow> False"

definition destroy_invoker :: "('s \<Rightarrow> 's) \<Rightarrow> ('s, 'a) act \<Rightarrow> ('s, 'a) act" where
  "destroy_invoker t scope s = (let (r, s) = scope s in (r, if unwinds r then t s else s))"

type_synonym ('s, 'a, 'b) args = "(('s, 'a, 'b) rewriter \<times> 'a) list"

text \<open>\<open>arg_rewriter_impl::rewrite\<close>: \<open>rargs\<close> are the arguments already rewritten.\<close>

fun rewrite_args :: "('b list \<Rightarrow> ('s, 'r) act) \<Rightarrow> 'b list \<Rightarrow> ('s, 'a, 'b) args \<Rightarrow> ('s, 'r) act" where
  "rewrite_args invoke rargs [] = invoke rargs"
| "rewrite_args invoke rargs ((rewritten, arg) # args) =
     bindA (before rewritten arg) (\<lambda>v.
       destroy_invoker (after rewritten arg) (rewrite_args invoke (rargs @ [v]) args))"

definition arg_rewrite_helper :: "('b list \<Rightarrow> ('s, 'r) act) \<Rightarrow> ('s, 'a, 'b) args \<Rightarrow> ('s, 'r) act" where
  "arg_rewrite_helper ptr args = rewrite_args ptr [] args"

section \<open>What rewriting amounts to\<close>

text \<open>
  The \<open>before\<close>s from left to right, as far as they succeed: the values or the failure, and
  the arguments whose \<open>after\<close> is still to run, last first.
\<close>

fun befores :: "('s, 'a, 'b) args \<Rightarrow> 's \<Rightarrow> 'b list result \<times> ('s, 'a, 'b) args \<times> 's" where
  "befores [] s = (Inr [], [], s)"
| "befores ((rw, arg) # args) s =
     (case before rw arg s of
        (Inl e, s) \<Rightarrow> (Inl e, [], s)
      | (Inr v, s) \<Rightarrow> (case befores args s of
            (Inl e, open_args, s) \<Rightarrow> (Inl e, open_args @ [(rw, arg)], s)
          | (Inr vs, open_args, s) \<Rightarrow> (Inr (v # vs), open_args @ [(rw, arg)], s)))"

definition afters :: "('s, 'a, 'b) args \<Rightarrow> 'r result \<times> 's \<Rightarrow> 'r result \<times> 's" where
  "afters args = (\<lambda>(r, s). (r, if unwinds r then fold (\<lambda>(rw, arg). after rw arg) args s else s))"

lemma afters_append: "afters (xs @ ys) p = afters ys (afters xs p)"
  by (cases p) (simp add: afters_def)

lemma destroy_invoker_one:
  "destroy_invoker (after rw arg) scope s = afters [(rw, arg)] (scope s)"
  by (simp add: destroy_invoker_def afters_def split: prod.split)

lemma rewrite_args_brackets:
  "rewrite_args invoke rargs args s =
     (case befores args s of
        (Inl e, open_args, s') \<Rightarrow> afters open_args (Inl e, s')
      | (Inr vs, open_args, s') \<Rightarrow> afters open_args (invoke (rargs @ vs) s'))"
proof (induction args arbitrary: rargs s)
  case Nil
  then show ?case by (cases "invoke rargs s") (simp add: afters_def)
next
  case (Cons x args)
  obtain rw arg where x: "x = (rw, arg)" by (cases x)
  show ?case
  proof (cases "before rw arg s")
    case (Pair r s1)
    then show ?thesis
    proof (cases r)
      case (Inl e)
      with Pair x show ?thesis by (simp add: bindA_def afters_def)
    next
      case (Inr v)
      with Pair x have "rewrite_args invoke rargs (x # args) s =
          afters [(rw, arg)] (rewrite_args invoke (rargs @ [v]) args s1)"
        by (simp add: bindA_def destroy_invoker_one)
      with Pair Inr x show ?thesis
        by (simp add: Cons.IH afters_append split: prod.split sum.split)
    qed
  qed
qed

section \<open>Host functions on files\<close>

text \<open>
  \<open>AutoArgRewritten\<close> of a host function whose first argument is a file: the file is
  replaced by its stream (\<open>to_host\<close> reads the field \<open>wrapped\<close>), other arguments, one word
  each, are passed on.
\<close>

datatype 'h carg = Word_arg u64 | File_arg 'h

definition to_host_FILE :: "nat carg \<Rightarrow> ((bfile, 'w) wrap_state, nat carg) act" where
  "to_host_FILE a = (case a of
     File_arg p \<Rightarrow> bindA (get_object p) (\<lambda>fp. retA (File_arg (wrapped fp)))
   | Word_arg v \<Rightarrow> retA (Word_arg v))"

definition AutoArgRewritten ::
  "(nat \<Rightarrow> u64 list \<Rightarrow> 'w \<Rightarrow> 'r \<times> 'w) \<Rightarrow> nat \<Rightarrow> u64 list \<Rightarrow> ('w, 'r) file_act" where
  "AutoArgRewritten host p words =
     arg_rewrite_helper
       (\<lambda>vs. case vs of File_arg f # rest \<Rightarrow>
            use_handle f (host f (map (\<lambda>v. case v of Word_arg x \<Rightarrow> x | File_arg _ \<Rightarrow> 0) rest))
          | _ \<Rightarrow> liftA (Inl Memory_fault))
       ((bionic_ptr_rewriter to_host_FILE, File_arg p) # map (\<lambda>x. (nop_arg_rewrite, Word_arg x)) words)"

lemma destroy_invoker_nothing: "destroy_invoker (\<lambda>s. s) scope = scope"
  by (simp add: destroy_invoker_def fun_eq_iff split: prod.split)

lemma rewrite_nops:
  "rewrite_args invoke rargs (map (\<lambda>x. (nop_arg_rewrite, Word_arg x)) words) = invoke (rargs @ map Word_arg words)"
  by (induction words arbitrary: rargs) (simp_all add: nop_arg_rewrite_def destroy_invoker_nothing)

lemma AutoArgRewritten_on_stream:
  "AutoArgRewritten host p words = on_stream p (\<lambda>f. host f words)"
proof -
  have words: "map ((\<lambda>v. case v of Word_arg x \<Rightarrow> x | File_arg _ \<Rightarrow> 0) \<circ> Word_arg) words = words"
    by (induction words) simp_all
  show ?thesis
    by (simp add: AutoArgRewritten_def arg_rewrite_helper_def rewrite_nops words bionic_ptr_rewriter_def
        to_host_FILE_def on_stream_def bindA_assoc destroy_invoker_nothing)
qed

text \<open>On an open file such a function is the host's, and the files stay as they should be.\<close>

lemma AutoArgRewritten_ok:
  assumes "files_ok s" and "usable_file p s"
  shows "\<exists>r s'. AutoArgRewritten host p words s = (Inr r, s') \<and> files_ok s'"
proof -
  from usable_fileD [OF assms] obtain fp where "objects s p = Some fp" "wrapped fp \<in> handles s" by blast
  from on_stream_run [OF this] assms(1) show ?thesis
    unfolding AutoArgRewritten_on_stream by (auto intro: files_ok_host)
qed

text \<open>A null file, which \<open>fflush\<close> takes for every open file, is dereferenced.\<close>

lemma fflush_null_faults:
  assumes "files_ok s"
  shows "AutoArgRewritten host 0 [] s = (Inl Memory_fault, s)"
proof -
  from assms have own: "own_ok std_files (stdio.handle_map s) (next_obj s) (handles s)"
    by (simp add: files_ok_def stdio.owning_def)
  have "objects s 0 = None"
    using own_okD(1) [OF own, of 0] by (cases "objects s 0") (simp_all add: stdio.handle_map_def)
  then show ?thesis by (simp add: AutoArgRewritten_on_stream on_stream_def get_object_def bindA_def)
qed

section \<open>Properties\<close>

text \<open>
  C37. Calling a function with rewritten arguments is: the \<open>before\<close>s from left to right, the
  call on their results, and then, whether the call returned or threw, the \<open>after\<close> of every
  argument exactly once, from right to left; when a \<open>before\<close> throws, the call is not made
  and only the arguments rewritten before it get their \<open>after\<close>.
\<close>

theorem arg_rewrite_brackets:
  "arg_rewrite_helper ptr args s =
     (case befores args s of
        (Inl e, open_args, s') \<Rightarrow> afters open_args (Inl e, s')
      | (Inr vs, open_args, s') \<Rightarrow> afters open_args (ptr vs s'))"
  by (simp add: arg_rewrite_helper_def rewrite_args_brackets split: prod.split sum.split)

end
