(* ===== verification/Setjmp.thy ===== *)
theory Setjmp
  imports Prelude
begin

text \<open>
  The cookie that protects a \<open>jmp_buf\<close> (src/src/bionic/setjmp_cookie.c). A \<open>long\<close> is a word
  of the architecture's width; the generator behind \<open>arc4random\<close> is a parameter. Setjmp_Asm
  has the assembly that calls these functions.
\<close>

section \<open>The cookie\<close>

text \<open>The state is the static variable \<open>setjmp_cookie\<close> and the generator's.\<close>

type_synonym ('l, 'w) cookie_state = "'l word \<times> 'w"

definition init_setjmp_cookie :: "('w \<Rightarrow> u32 \<times> 'w) \<Rightarrow> ('l::len, 'w) cookie_state \<Rightarrow> ('l, 'w) cookie_state" where
  "init_setjmp_cookie rng = (\<lambda>(cookie, w). let (v, w) = rng w in (ucast v AND NOT 1, w))"

definition setjmp_cookie_get ::
  "('w \<Rightarrow> u32 \<times> 'w) \<Rightarrow> 'l word \<Rightarrow> (('l::len, 'w) cookie_state, 'l word) act" where
  "setjmp_cookie_get rng sigflag s =
     (let s = (if fst s = 0 then init_setjmp_cookie rng s else s) in
      if sigflag AND NOT 1 \<noteq> 0 then (Inl (Aborted ''unexpected sigflag value: %ld''), s)
      else (Inr (fst s OR sigflag), s))"

definition setjmp_cookie_check :: "'l word \<Rightarrow> (('l::len, 'w) cookie_state, 'l word) act" where
  "setjmp_cookie_check cookie s =
     (if fst s \<noteq> cookie AND NOT 1 then (Inl (Aborted ''setjmp cookie mismatch''), s)
      else (Inr (cookie AND 1), s))"

definition setjmp_checksum_mismatch :: "('s, 'a) act" where
  "setjmp_checksum_mismatch = liftA (Inl (Aborted ''setjmp checksum mismatch''))"

text \<open>Further calls of \<open>setjmp\<close> between a \<open>setjmp\<close> and its \<open>longjmp\<close>.\<close>

fun later_gets :: "('w \<Rightarrow> u32 \<times> 'w) \<Rightarrow> 'l word list \<Rightarrow> ('l::len, 'w) cookie_state \<Rightarrow> ('l, 'w) cookie_state" where
  "later_gets rng [] s = s"
| "later_gets rng (f # fs) s = later_gets rng fs (snd (setjmp_cookie_get rng f s))"

section \<open>Properties\<close>

definition cookie_ok :: "('l::len, 'w) cookie_state \<Rightarrow> bool" where
  "cookie_ok s \<longleftrightarrow> fst s AND 1 = 0"

lemma even_masked: "x AND 1 = 0 \<Longrightarrow> x AND NOT 1 = (x :: 'l::len word)"
  by (metis and.right_neutral bit.conj_disj_distrib bit.disj_cancel_right or.left_neutral)

lemma init_ok: "cookie_ok (init_setjmp_cookie rng s)"
  by (cases s) (simp add: init_setjmp_cookie_def cookie_ok_def and.assoc split: prod.split)

lemma get_ok: "cookie_ok s \<Longrightarrow> cookie_ok (snd (setjmp_cookie_get rng f s))"
  by (simp add: setjmp_cookie_get_def Let_def init_ok)

lemma get_keeps: "fst s \<noteq> 0 \<Longrightarrow> fst (snd (setjmp_cookie_get rng f s)) = fst s"
  by (simp add: setjmp_cookie_get_def Let_def)

lemma later_gets_keep: "fst s \<noteq> 0 \<Longrightarrow> fst (later_gets rng fs s) = fst s"
  by (induction fs arbitrary: s) (simp_all add: get_keeps)

lemma issued_cookie:
  assumes "cookie_ok s" and "setjmp_cookie_get rng sigflag s = (Inr cookie, s1)"
  shows "cookie AND NOT 1 = fst s1" "cookie AND 1 = sigflag"
proof -
  from assms have s1: "cookie_ok s1" using get_ok [of s rng sigflag] by simp
  from assms(2) have flag: "sigflag AND NOT 1 = 0" and cookie: "cookie = fst s1 OR sigflag"
    by (auto simp: setjmp_cookie_get_def Let_def split: if_splits)
  from flag have one: "sigflag AND 1 = sigflag"
    by (metis bit.conj_cancel_right bit.conj_disj_distrib bit.disj_cancel_right and.right_neutral or.right_neutral)
  from s1 have even: "fst s1 AND 1 = 0" by (simp add: cookie_ok_def)
  show "cookie AND NOT 1 = fst s1"
    using flag even_masked [OF even] by (simp add: cookie bit.conj_disj_distrib2)
  show "cookie AND 1 = sigflag"
    using even one by (simp add: cookie bit.conj_disj_distrib2)
qed

text \<open>
  A cookie that was handed out with a signal flag is accepted, and yields that flag,
  after any number of further \<open>setjmp\<close> calls, provided the generator's draw left it other
  than zero; and no word whose upper bits differ from the cookie's is ever accepted.
\<close>

theorem setjmp_cookie_roundtrip:
  assumes "cookie_ok s" and "setjmp_cookie_get rng sigflag s = (Inr cookie, s1)" and "fst s1 \<noteq> 0"
    and "s2 = later_gets rng fs s1"
  shows "setjmp_cookie_check cookie s2 = (Inr sigflag, s2) \<and>
    setjmp_cookie_check k s2 =
      (if k AND NOT 1 = cookie AND NOT 1 then Inr (k AND 1) else Inl (Aborted ''setjmp cookie mismatch''), s2)"
proof -
  note issued = issued_cookie [OF assms(1,2)]
  have "fst s2 = fst s1" unfolding assms(4) by (rule later_gets_keep [OF assms(3)])
  with issued show ?thesis by (auto simp: setjmp_cookie_check_def)
qed

theorem setjmp_cookie_roundtrip_witness:
  "setjmp_cookie_check (43 :: 64 word) (42, 1) = (Inr 1, (42, 1 :: nat)) \<and>
   setjmp_cookie_check (99 :: 64 word) (42, 1 :: nat) =
     (if (99 :: 64 word) AND NOT 1 = 43 AND NOT 1 then Inr (99 AND 1) else Inl (Aborted ''setjmp cookie mismatch''), (42, 1))"
  by (rule setjmp_cookie_roundtrip [of "(0, 0)" "\<lambda>w. (43, w + 1)" 1 _ "(42, 1)" _ "[0, 1]"])
    (simp_all add: cookie_ok_def setjmp_cookie_get_def init_setjmp_cookie_def)

text \<open>
  A draw of 0 or 1 leaves the cookie zero, which stands for a cookie not yet drawn: the next
  \<open>setjmp\<close> draws again, and a buffer filled before it is refused.
\<close>

lemma zero_cookie_redrawn:
  "setjmp_cookie_get (\<lambda>w. (w, w + 7)) 0 (0 :: 64 word, 1) = (Inr 0, (0, 8)) \<and>
   later_gets (\<lambda>w. (w, w + 7)) [0] (0 :: 64 word, 8) = (8, 15) \<and>
   setjmp_cookie_check 0 (8 :: 64 word, 15 :: u32) = (Inl (Aborted ''setjmp cookie mismatch''), (8, 15))"
  by (simp add: setjmp_cookie_get_def init_setjmp_cookie_def setjmp_cookie_check_def)

end
