(* ===== verification/Setjmp_Asm.thy ===== *)
theory Setjmp_Asm
  imports Setjmp
begin

text \<open>
  \<open>setjmp\<close> and \<open>longjmp\<close> of 32-bit macOS (src/src/bionic/arch-x86/setjmp.S with the macros of
  src/src/bionic/bionic_asm_x86.h): the instructions they use on a machine of registers and
  memory, the program as it is written, and what a jump restores.
\<close>

section \<open>The machine\<close>

datatype reg = EAX | EBX | ECX | EDX | ESI | EDI | EBP | ESP

text \<open>\<open>Mem d r\<close> is the operand \<open>d(%r)\<close>, \<open>Imm v\<close> is \<open>$v\<close>.\<close>

datatype operand = Reg reg | Imm u32 | Mem u32 reg

datatype c_function = F_cookie_get | F_cookie_check | F_checksum_mismatch | F_sigprocmask

datatype label = Global string | Local string | Num nat

text \<open>Operands are in the order of the source: the source first, the destination second.\<close>

datatype instr =
    Label label
  | movl operand operand
  | xorl operand operand
  | andl operand operand
  | addl operand operand
  | subl operand operand
  | testl operand operand
  | leal operand reg
  | incl reg
  | pushl operand
  | popl reg
  | jmp label
  | jz label
  | jnz label
  | call_near label
  | call c_function
  | ret

text \<open>
  Memory is a map of aligned words; \<open>cookie\<close> is the state of setjmp_cookie.c with the generator
  \<open>'w\<close>, \<open>blocked\<close> the thread's signal mask, whose type has 32 bits on macOS, and \<open>calls\<close> the history
  of the C functions called, each with the stack pointer at its call.
\<close>

record 'w cpu =
  eax :: u32
  ebx :: u32
  ecx :: u32
  edx :: u32
  esi :: u32
  edi :: u32
  ebp :: u32
  esp :: u32
  mem :: "u32 \<Rightarrow> u32"
  zf :: bool
  cookie :: "(32, 'w) cookie_state"
  blocked :: u32
  calls :: "(c_function \<times> u32) list"

text \<open>
  What the platform decides: the address of the code with so many instructions left, the end of
  the stack, what a called function leaves in the registers and the stack words that are its
  to use, the generator and the macros of the headers.
\<close>

record 'w platform =
  code_address :: "nat \<Rightarrow> u32"
  stack_limit :: u32
  scratch_reg :: "c_function \<Rightarrow> reg \<Rightarrow> u32"
  scratch_mem :: "c_function \<Rightarrow> u32 \<Rightarrow> u32"
  scratch_zf :: "c_function \<Rightarrow> bool"
  random :: "'w \<Rightarrow> u32 \<times> 'w"
  hdrs :: headers

type_synonym ('w, 'a) cpu_act = "('w cpu, 'a) act"

definition aligned :: "u32 \<Rightarrow> bool" where
  "aligned a \<longleftrightarrow> uint a mod 4 = 0"

definition load32 :: "u32 \<Rightarrow> ('w, u32) cpu_act" where
  "load32 a s = (if aligned a then (Inr (mem s a), s) else (Inl Memory_fault, s))"

definition store32 :: "u32 \<Rightarrow> u32 \<Rightarrow> ('w, unit) cpu_act" where
  "store32 a v s = (if aligned a then (Inr (), s\<lparr>mem := (mem s)(a := v)\<rparr>) else (Inl Memory_fault, s))"

fun get_reg :: "reg \<Rightarrow> 'w cpu \<Rightarrow> u32" where
  "get_reg EAX s = eax s"
| "get_reg EBX s = ebx s"
| "get_reg ECX s = ecx s"
| "get_reg EDX s = edx s"
| "get_reg ESI s = esi s"
| "get_reg EDI s = edi s"
| "get_reg EBP s = ebp s"
| "get_reg ESP s = esp s"

fun set_reg :: "reg \<Rightarrow> u32 \<Rightarrow> 'w cpu \<Rightarrow> 'w cpu" where
  "set_reg EAX v s = s\<lparr>eax := v\<rparr>"
| "set_reg EBX v s = s\<lparr>ebx := v\<rparr>"
| "set_reg ECX v s = s\<lparr>ecx := v\<rparr>"
| "set_reg EDX v s = s\<lparr>edx := v\<rparr>"
| "set_reg ESI v s = s\<lparr>esi := v\<rparr>"
| "set_reg EDI v s = s\<lparr>edi := v\<rparr>"
| "set_reg EBP v s = s\<lparr>ebp := v\<rparr>"
| "set_reg ESP v s = s\<lparr>esp := v\<rparr>"

fun read_op :: "operand \<Rightarrow> ('w, u32) cpu_act" where
  "read_op (Reg r) s = (Inr (get_reg r s), s)"
| "read_op (Imm v) s = (Inr v, s)"
| "read_op (Mem d r) s = load32 (get_reg r s + d) s"

fun write_op :: "operand \<Rightarrow> u32 \<Rightarrow> ('w, unit) cpu_act" where
  "write_op (Reg r) v s = (Inr (), set_reg r v s)"
| "write_op (Imm w) v s = (Inl Memory_fault, s)"
| "write_op (Mem d r) v s = store32 (get_reg r s + d) v s"

definition set_zf :: "u32 \<Rightarrow> ('w, unit) cpu_act" where
  "set_zf v = modifyA (\<lambda>s. s\<lparr>zf := (v = 0)\<rparr>)"

text \<open>An instruction of the form \<open>dst := dst op src\<close>.\<close>

definition alu :: "(u32 \<Rightarrow> u32 \<Rightarrow> u32) \<Rightarrow> operand \<Rightarrow> operand \<Rightarrow> ('w, unit) cpu_act" where
  "alu f src dst =
     bindA (read_op src) (\<lambda>a. bindA (read_op dst) (\<lambda>b. bindA (write_op dst (f b a)) (\<lambda>_. set_zf (f b a))))"

definition push :: "u32 \<Rightarrow> ('w, unit) cpu_act" where
  "push v s = bindA (store32 (esp s - 4) v) (\<lambda>_. modifyA (set_reg ESP (esp s - 4))) s"

definition pop :: "('w, u32) cpu_act" where
  "pop s = bindA (load32 (esp s)) (\<lambda>v. bindA (modifyA (set_reg ESP (esp s + 4))) (\<lambda>_. retA v)) s"

section \<open>Calls of C functions\<close>

text \<open>
  \<open>sigprocmask\<close> as POSIX has it, on the mask and the new set, if there is one.
\<close>

definition sigprocmask :: "headers \<Rightarrow> u32 \<Rightarrow> u32 option \<Rightarrow> u32 \<Rightarrow> int \<times> u32" where
  "sigprocmask h how set_arg m =
     (case set_arg of None \<Rightarrow> (0, m)
      | Some v \<Rightarrow>
          if sint how = h ''SIG_BLOCK'' then (0, m OR v)
          else if sint how = h ''SIG_UNBLOCK'' then (0, m AND NOT v)
          else if sint how = h ''SIG_SETMASK'' then (0, v)
          else (- 1, m))"

text \<open>
  By the calling convention a function finds its arguments from the stack pointer on and returns
  in \<open>%eax\<close>; \<open>%ecx\<close>, \<open>%edx\<close>, the flags, its arguments and the stack below them are its own.
\<close>

definition after_call :: "'w platform \<Rightarrow> c_function \<Rightarrow> u32 \<Rightarrow> u32 \<Rightarrow> 'w cpu \<Rightarrow> 'w cpu" where
  "after_call P f args v s = s\<lparr>
     eax := v, ecx := scratch_reg P f ECX, edx := scratch_reg P f EDX,
     mem := (\<lambda>a. if stack_limit P \<le> a \<and> a < esp s + args then scratch_mem P f a else mem s a),
     zf := scratch_zf P f\<rparr>"

definition cookie_call :: "((32, 'w) cookie_state, u32) act \<Rightarrow> ('w, u32) cpu_act" where
  "cookie_call f s = (case f (cookie s) of (r, c) \<Rightarrow> (r, s\<lparr>cookie := c\<rparr>))"

definition sigprocmask_call :: "headers \<Rightarrow> u32 \<Rightarrow> u32 \<Rightarrow> u32 \<Rightarrow> ('w, u32) cpu_act" where
  "sigprocmask_call h how set_ptr old_ptr =
     bindA (if set_ptr = 0 then retA None else bindA (load32 set_ptr) (\<lambda>v. retA (Some v))) (\<lambda>set_arg.
     bindA (getsA blocked) (\<lambda>old.
     bindA (if old_ptr = 0 then retA () else store32 old_ptr old) (\<lambda>_.
     let (ret, new) = sigprocmask h how set_arg old in
     bindA (modifyA (\<lambda>s. s\<lparr>blocked := new\<rparr>)) (\<lambda>_. retA (word_of_int ret)))))"

fun c_call :: "'w platform \<Rightarrow> c_function \<Rightarrow> ('w, unit) cpu_act" where
  "c_call P F_cookie_get s =
     bindA (load32 (esp s)) (\<lambda>flag.
     bindA (cookie_call (setjmp_cookie_get (random P) flag)) (\<lambda>v.
     modifyA (after_call P F_cookie_get 4 v))) s"
| "c_call P F_cookie_check s =
     bindA (load32 (esp s)) (\<lambda>c.
     bindA (cookie_call (setjmp_cookie_check c)) (\<lambda>v.
     modifyA (after_call P F_cookie_check 4 v))) s"
| "c_call P F_checksum_mismatch s = setjmp_checksum_mismatch s"
| "c_call P F_sigprocmask s =
     bindA (load32 (esp s)) (\<lambda>how.
     bindA (load32 (esp s + 4)) (\<lambda>set_ptr.
     bindA (load32 (esp s + 8)) (\<lambda>old_ptr.
     bindA (sigprocmask_call (hdrs P) how set_ptr old_ptr) (\<lambda>v.
     modifyA (after_call P F_sigprocmask 12 v))))) s"

section \<open>Execution\<close>

text \<open>
  Jumps of the program lead forward, so the code left to execute is a part of the list, which
  gets shorter: a run ends by itself, with the address it returns to.
\<close>

definition seek :: "label \<Rightarrow> instr list \<Rightarrow> instr list" where
  "seek l is = dropWhile (\<lambda>i. i \<noteq> Label l) is"

fun step :: "'w platform \<Rightarrow> instr \<Rightarrow> ('w, unit) cpu_act" where
  "step P (movl src dst) = bindA (read_op src) (write_op dst)"
| "step P (xorl src dst) = alu (\<lambda>b a. b XOR a) src dst"
| "step P (andl src dst) = alu (\<lambda>b a. b AND a) src dst"
| "step P (addl src dst) = alu (\<lambda>b a. b + a) src dst"
| "step P (subl src dst) = alu (\<lambda>b a. b - a) src dst"
| "step P (testl src dst) = bindA (read_op src) (\<lambda>a. bindA (read_op dst) (\<lambda>b. set_zf (b AND a)))"
| "step P (leal (Mem d r) dst) = modifyA (\<lambda>s. set_reg dst (get_reg r s + d) s)"
| "step P (incl r) = alu (\<lambda>b a. b + a) (Imm 1) (Reg r)"
| "step P (pushl src) = bindA (read_op src) push"
| "step P (popl r) = bindA pop (\<lambda>v. modifyA (set_reg r v))"
| "step P (call f) = bindA (modifyA (\<lambda>s. s\<lparr>calls := calls s @ [(f, esp s)]\<rparr>)) (\<lambda>_. c_call P f)"
| "step P _ = retA ()"

function (sequential) exec :: "'w platform \<Rightarrow> instr list \<Rightarrow> 'w cpu \<Rightarrow> u32 result \<times> 'w cpu" where
  "exec P [] s = (Inl Memory_fault, s)"
| "exec P (jmp l # is) s = exec P (seek l is) s"
| "exec P (jz l # is) s = exec P (if zf s then seek l is else is) s"
| "exec P (jnz l # is) s = exec P (if zf s then is else seek l is) s"
| "exec P (call_near l # is) s =
     (case push (code_address P (length is)) s of (Inl e, s) \<Rightarrow> (Inl e, s) | (Inr _, s) \<Rightarrow> exec P (seek l is) s)"
| "exec P (ret # is) s = pop s"
| "exec P (i # is) s = (case step P i s of (Inl e, s) \<Rightarrow> (Inl e, s) | (Inr _, s) \<Rightarrow> exec P is s)"
  by pat_completeness auto
termination
  by (relation "measure (\<lambda>(P, is, s). length is)")
    (auto simp: seek_def less_Suc_eq_le length_dropWhile_le)

section \<open>The program\<close>

definition PIC_PROLOGUE :: "instr list" where
  "PIC_PROLOGUE = [pushl (Reg EBX), call_near (Num 666), Label (Num 666), popl EBX]"

definition PIC_EPILOGUE :: "instr list" where
  "PIC_EPILOGUE = [popl EBX]"

definition JB_EDX :: u32 where "JB_EDX = 0"
definition JB_EBX :: u32 where "JB_EBX = 1"
definition JB_ESP :: u32 where "JB_ESP = 2"
definition JB_EBP :: u32 where "JB_EBP = 3"
definition JB_ESI :: u32 where "JB_ESI = 4"
definition JB_EDI :: u32 where "JB_EDI = 5"
definition JB_SIGMASK :: u32 where "JB_SIGMASK = 6"
definition JB_SIGFLAG :: u32 where "JB_SIGFLAG = 8"
definition JB_CHECKSUM :: u32 where "JB_CHECKSUM = 9"

definition m_mangle_registers :: "reg \<Rightarrow> instr list" where
  "m_mangle_registers r = map (\<lambda>q. xorl (Reg r) (Reg q)) [EDX, EBX, ESP, EBP, ESI, EDI]"

definition m_unmangle_registers :: "reg \<Rightarrow> instr list" where
  "m_unmangle_registers r = m_mangle_registers r"

definition m_calculate_checksum :: "reg \<Rightarrow> reg \<Rightarrow> instr list" where
  "m_calculate_checksum dst src =
     movl (Imm 0) (Reg dst) # map (\<lambda>i. xorl (Mem (i * 4) src) (Reg dst)) [0, 1, 2, 3, 4, 5]"

definition bionic_setjmp :: "instr list" where
  "bionic_setjmp =
     [Label (Global ''bionic_setjmp''),
      movl (Mem 4 ESP) (Reg ECX),
      movl (Imm 1) (Reg EAX),
      jmp (Local ''sigsetjmp'')]"

definition bionic__setjmp :: "instr list" where
  "bionic__setjmp =
     [Label (Global ''bionic__setjmp''),
      movl (Mem 4 ESP) (Reg ECX),
      movl (Imm 0) (Reg EAX),
      jmp (Local ''sigsetjmp'')]"

text \<open>\<open>sigsetjmp\<close> in three parts: the cookie, the signal mask, the registers and the checksum.\<close>

definition sigsetjmp_cookie :: "instr list" where
  "sigsetjmp_cookie =
     PIC_PROLOGUE @
     [pushl (Reg ECX),
      pushl (Reg EAX),
      call F_cookie_get,
      addl (Imm 4) (Reg ESP),
      popl ECX] @
     PIC_EPILOGUE @
     [movl (Reg EAX) (Mem (JB_SIGFLAG * 4) ECX)]"

definition sigsetjmp_mask :: "instr list" where
  "sigsetjmp_mask =
     [testl (Imm 1) (Reg EAX),
      jz (Num 1),
      pushl (Reg ECX)] @
     PIC_PROLOGUE @
     [leal (Mem (JB_SIGMASK * 4) ECX) EAX,
      subl (Imm 8) (Reg ESP),
      pushl (Reg EAX),
      pushl (Imm 0),
      pushl (Imm 2),
      call F_sigprocmask,
      addl (Imm 12) (Reg ESP),
      addl (Imm 8) (Reg ESP)] @
     PIC_EPILOGUE @
     [popl ECX]"

definition sigsetjmp_save :: "instr list" where
  "sigsetjmp_save =
     [Label (Num 1),
      movl (Mem (JB_SIGFLAG * 4) ECX) (Reg EAX),
      andl (Imm (- 2)) (Reg EAX),
      movl (Mem 0 ESP) (Reg EDX)] @
     m_mangle_registers EAX @
     [movl (Reg EDX) (Mem (JB_EDX * 4) ECX),
      movl (Reg EBX) (Mem (JB_EBX * 4) ECX),
      movl (Reg ESP) (Mem (JB_ESP * 4) ECX),
      movl (Reg EBP) (Mem (JB_EBP * 4) ECX),
      movl (Reg ESI) (Mem (JB_ESI * 4) ECX),
      movl (Reg EDI) (Mem (JB_EDI * 4) ECX)] @
     m_unmangle_registers EAX @
     m_calculate_checksum EAX ECX @
     [movl (Reg EAX) (Mem (JB_CHECKSUM * 4) ECX),
      xorl (Reg EAX) (Reg EAX),
      ret]"

definition bionic_sigsetjmp :: "instr list" where
  "bionic_sigsetjmp =
     [Label (Global ''bionic_sigsetjmp''),
      movl (Mem 4 ESP) (Reg ECX),
      movl (Mem 8 ESP) (Reg EAX),
      Label (Local ''sigsetjmp'')] @
     sigsetjmp_cookie @ sigsetjmp_mask @ sigsetjmp_save"

text \<open>
  \<open>siglongjmp\<close> in five parts: the checksum, the signal mask, the registers, the cookie with
  the return, and the code behind label 3.
\<close>

definition siglongjmp_checksum :: "instr list" where
  "siglongjmp_checksum =
     [Label (Global ''bionic_siglongjmp''),
      movl (Mem 4 ESP) (Reg EDX)] @
     m_calculate_checksum EAX EDX @
     [xorl (Mem (JB_CHECKSUM * 4) EDX) (Reg EAX),
      jnz (Num 3)]"

definition siglongjmp_mask :: "instr list" where
  "siglongjmp_mask =
     [movl (Mem (JB_SIGFLAG * 4) EDX) (Reg EAX),
      testl (Imm 1) (Reg EAX),
      jz (Num 1),
      leal (Mem (JB_SIGMASK * 4) EDX) EAX] @
     PIC_PROLOGUE @
     [pushl (Imm 0),
      pushl (Reg EAX),
      pushl (Imm 2),
      call F_sigprocmask,
      addl (Imm 12) (Reg ESP)] @
     PIC_EPILOGUE"

definition siglongjmp_restore :: "instr list" where
  "siglongjmp_restore =
     [Label (Num 1),
      movl (Mem 4 ESP) (Reg EDX),
      movl (Mem 8 ESP) (Reg EAX),
      movl (Mem (JB_SIGFLAG * 4) EDX) (Reg ECX),
      andl (Imm (- 2)) (Reg ECX),
      movl (Reg ECX) (Reg EBX),
      movl (Reg ECX) (Reg ESP),
      movl (Reg ECX) (Reg EBP),
      movl (Reg ECX) (Reg ESI),
      movl (Reg ECX) (Reg EDI),
      xorl (Mem (JB_EDX * 4) EDX) (Reg ECX),
      xorl (Mem (JB_EBX * 4) EDX) (Reg EBX),
      xorl (Mem (JB_ESP * 4) EDX) (Reg ESP),
      xorl (Mem (JB_EBP * 4) EDX) (Reg EBP),
      xorl (Mem (JB_ESI * 4) EDX) (Reg ESI),
      xorl (Mem (JB_EDI * 4) EDX) (Reg EDI)]"

definition siglongjmp_return :: "instr list" where
  "siglongjmp_return =
     PIC_PROLOGUE @
     [pushl (Reg EAX),
      pushl (Reg ECX),
      pushl (Mem (JB_SIGFLAG * 4) EDX),
      call F_cookie_check,
      addl (Imm 4) (Reg ESP),
      popl ECX,
      popl EAX] @
     PIC_EPILOGUE @
     [testl (Reg EAX) (Reg EAX),
      jnz (Num 2),
      incl EAX,
      Label (Num 2),
      movl (Reg ECX) (Mem 0 ESP),
      ret]"

definition siglongjmp_mismatch :: "instr list" where
  "siglongjmp_mismatch =
     [Label (Num 3)] @
     PIC_PROLOGUE @
     [pushl (Mem (JB_SIGMASK * 4) EDX),
      call F_checksum_mismatch]"

definition bionic_siglongjmp :: "instr list" where
  "bionic_siglongjmp =
     siglongjmp_checksum @ siglongjmp_mask @ siglongjmp_restore @ siglongjmp_return @ siglongjmp_mismatch"

definition setjmp_S :: "instr list" where
  "setjmp_S = bionic_setjmp @ bionic__setjmp @ bionic_sigsetjmp @ bionic_siglongjmp"

text \<open>\<open>longjmp\<close> and \<open>_longjmp\<close> are aliases of \<open>siglongjmp\<close>.\<close>

definition ALIAS_SYMBOL :: "string \<Rightarrow> string" where
  "ALIAS_SYMBOL f = (if f = ''bionic_longjmp'' \<or> f = ''bionic__longjmp'' then ''bionic_siglongjmp'' else f)"

definition run_function :: "'w platform \<Rightarrow> string \<Rightarrow> 'w cpu \<Rightarrow> u32 result \<times> 'w cpu" where
  "run_function P f = exec P (seek (Global (ALIAS_SYMBOL f)) setjmp_S)"

end
