(* ===== verification/Setjmp_Jump.thy ===== *)
theory Setjmp_Jump
  imports Setjmp_Asm
begin

text \<open>
  What \<open>setjmp\<close> and \<open>longjmp\<close> of src/src/bionic/arch-x86/setjmp.S do, proved on the machine of
  Setjmp_Asm: each part of the program is executed once, symbolically, and the properties compose
  the parts.
\<close>

section \<open>Addresses\<close>

lemma aligned_add [simp]:
  assumes "aligned n"
  shows "aligned (a + n) = aligned a"
proof -
  have "uint (a + n) mod 4 = (uint a + uint n) mod 4"
    by (simp add: uint_word_ariths mod_mod_cancel)
  with assms show ?thesis unfolding aligned_def by presburger
qed

lemma aligned_diff [simp]: "aligned n \<Longrightarrow> aligned (a - n) = aligned a"
  using aligned_add [of n "a - n"] by simp

lemma aligned_numeral [simp]: "aligned 4" "aligned 8" "aligned 12" "aligned 16" "aligned 20" "aligned 24" "aligned 28"
  "aligned 32" "aligned 36"
  by (simp_all add: aligned_def)

lemma esp_simps:
  fixes a :: u32
  shows "a - numeral m - numeral n = a - numeral (m + n)"
    "a - numeral m + numeral n = a + (numeral n - numeral m)"
    "a + numeral m + numeral n = a + numeral (m + n)"
  by (simp_all only: numeral_add diff_add_eq add_diff_eq diff_diff_add add.assoc add.commute [of "numeral n"])

text \<open>
  \<open>sp\<close> is a stack pointer with room below for the calls and above for the arguments; the buffer is
  no part of that room.
\<close>

definition stack_at :: "'w platform \<Rightarrow> u32 \<Rightarrow> bool" where
  "stack_at P sp \<longleftrightarrow> aligned sp \<and> uint (stack_limit P) + 64 \<le> uint sp \<and> uint sp + 16 < 2 ^ 32"

definition clear_of :: "'w platform \<Rightarrow> u32 \<Rightarrow> u32 \<Rightarrow> bool" where
  "clear_of P sp buf \<longleftrightarrow> aligned buf \<and> uint buf + 40 \<le> 2 ^ 32 \<and>
     (uint buf + 40 \<le> uint (stack_limit P) \<or> uint sp + 4 \<le> uint buf)"

lemma below:
  assumes "stack_at P sp" and "k \<le> 64"
  shows "uint (sp - k) = uint sp - uint k"
proof -
  from assms(2) have "uint k \<le> 64" by (simp add: word_le_def)
  with assms(1) have "uint k \<le> uint sp" using uint_ge_0 [of "stack_limit P"] unfolding stack_at_def by linarith
  then show ?thesis by (simp add: uint_sub_lem [symmetric])
qed

lemma above:
  assumes "stack_at P sp" and "k < 16"
  shows "uint (sp + k) = uint sp + uint k"
proof -
  from assms(2) have "uint k < 16" by (simp add: word_less_def)
  with assms(1) show ?thesis unfolding stack_at_def by (simp add: uint_add_lem [symmetric])
qed

lemma inside:
  assumes "clear_of P sp buf" and "i < 40"
  shows "uint (buf + i) = uint buf + uint i"
proof -
  from assms(2) have "uint i < 40" by (simp add: word_less_def)
  with assms(1) show ?thesis unfolding clear_of_def by (simp add: uint_add_lem [symmetric])
qed

lemma stack_order:
  assumes "stack_at P sp"
  shows "k \<le> 64 \<Longrightarrow> stack_limit P \<le> sp - k" "stack_limit P \<le> sp"
    "k \<le> 64 \<Longrightarrow> m \<le> 64 \<Longrightarrow> sp - k < sp - m \<longleftrightarrow> m < k"
    "m \<le> 64 \<Longrightarrow> \<not> sp < sp - m"
    "k < 16 \<Longrightarrow> m \<le> 64 \<Longrightarrow> \<not> sp + k < sp - m"
proof -
  show "stack_limit P \<le> sp - k" if "k \<le> 64"
  proof -
    from that have "uint k \<le> 64" by (simp add: word_le_def)
    with assms below [OF assms that] show ?thesis unfolding stack_at_def by (simp add: word_le_def)
  qed
  show "stack_limit P \<le> sp" using assms unfolding stack_at_def by (simp add: word_le_def)
  show "sp - k < sp - m \<longleftrightarrow> m < k" if "k \<le> 64" "m \<le> 64"
    using below [OF assms that(1)] below [OF assms that(2)] by (simp add: word_less_def)
  show "\<not> sp < sp - m" if "m \<le> 64"
    using below [OF assms that] by (simp add: word_less_def)
  show "\<not> sp + k < sp - m" if "k < 16" "m \<le> 64"
    using below [OF assms that(2)] above [OF assms that(1)] uint_ge_0 [of k] uint_ge_0 [of m]
    unfolding word_less_def by linarith
qed

lemma stack_below:
  assumes "stack_at P sp" and "k \<le> 64"
  shows "0 < k \<Longrightarrow> sp - k < sp" "a < sp - k \<Longrightarrow> a < sp"
proof -
  note w = below [OF assms] uint_ge_0 [of k] word_less_def [where 'a = 32]
  show "0 < k \<Longrightarrow> sp - k < sp" using w by simp
  show "a < sp - k \<Longrightarrow> a < sp" using w(1,2) unfolding w(3) by linarith
qed

lemma buf_apart:
  assumes "stack_at P sp" and "clear_of P sp buf" and "i < 40"
  shows "k \<le> 64 \<Longrightarrow> buf + i \<noteq> sp - k" "k \<le> 64 \<Longrightarrow> sp - k \<noteq> buf + i"
    "k \<le> 64 \<Longrightarrow> \<not> (stack_limit P \<le> buf + i \<and> buf + i < sp - k)" "buf + i \<noteq> sp" "sp \<noteq> buf + i"
proof -
  from assms(3) have i: "uint i < 40" by (simp add: word_less_def)
  note at = inside [OF assms(2,3)] and clear = assms(2) [unfolded clear_of_def] and st = assms(1) [unfolded stack_at_def]
  show "buf + i \<noteq> sp"
    using at i clear st uint_ge_0 [of i] uint_ge_0 [of sp] unfolding word_uint_eq_iff by linarith
  then show "sp \<noteq> buf + i" by (rule not_sym)
  assume k: "k \<le> 64"
  then have "uint k \<le> 64" by (simp add: word_le_def)
  with below [OF assms(1) k] at i clear st uint_ge_0 [of k] uint_ge_0 [of i]
  show "buf + i \<noteq> sp - k" "\<not> (stack_limit P \<le> buf + i \<and> buf + i < sp - k)"
    unfolding word_uint_eq_iff word_le_def word_less_def by linarith+
  then show "sp - k \<noteq> buf + i" by (simp only: not_sym)
qed

lemmas buf_first = buf_apart [where i = 0, simplified]

lemma sp_distinct:
  fixes sp :: u32
  shows "sp = sp - numeral k \<longleftrightarrow> numeral k = (0 :: u32)" "sp - numeral k = sp \<longleftrightarrow> numeral k = (0 :: u32)"
    "sp - numeral k = sp - numeral m \<longleftrightarrow> numeral k = (numeral m :: u32)"
proof -
  have "sp - x = sp - y \<longleftrightarrow> x = y" for x y
  proof
    assume "sp - x = sp - y"
    then have "sp - (sp - x) = sp - (sp - y)" by (rule arg_cong)
    then show "x = y" by simp
  qed simp
  note eq = this
  show "sp = sp - numeral k \<longleftrightarrow> numeral k = (0 :: u32)" "sp - numeral k = sp \<longleftrightarrow> numeral k = (0 :: u32)"
    using eq [of 0 "numeral k"] eq [of "numeral k" 0] by (simp_all only: diff_zero) (auto simp: eq_commute)
  show "sp - numeral k = sp - numeral m \<longleftrightarrow> numeral k = (numeral m :: u32)" by (rule eq)
qed

section \<open>The parts of setjmp\<close>

lemmas code_defs = PIC_PROLOGUE_def PIC_EPILOGUE_def JB_EDX_def JB_EBX_def JB_ESP_def JB_EBP_def JB_ESI_def
  JB_EDI_def JB_SIGMASK_def JB_SIGFLAG_def JB_CHECKSUM_def m_mangle_registers_def m_unmangle_registers_def
  m_calculate_checksum_def

lemmas machine_simps = load32_def store32_def set_zf_def alu_def push_def pop_def bindA_def after_call_def
  cookie_call_def sigprocmask_call_def seek_def

text \<open>Memory outside the free stack below \<open>sp\<close> is as before.\<close>

definition kept :: "'w platform \<Rightarrow> u32 \<Rightarrow> (u32 \<Rightarrow> u32) \<Rightarrow> (u32 \<Rightarrow> u32) \<Rightarrow> bool" where
  "kept P sp m m' \<longleftrightarrow> (\<forall>a. \<not> (stack_limit P \<le> a \<and> a < sp) \<longrightarrow> m' a = m a)"

lemmas run_simps = code_defs machine_simps esp_simps sp_distinct

lemma xor_twice: "(x XOR k) XOR k = (x :: u32)"
  by (simp add: xor.assoc)

definition checksum :: "(u32 \<Rightarrow> u32) \<Rightarrow> u32 \<Rightarrow> u32" where
  "checksum m buf = fold (\<lambda>i c. c XOR m (buf + i * 4)) [0, 1, 2, 3, 4, 5] 0"

lemma run_cookie:
  assumes "stack_at P sp" and "clear_of P sp buf" and "esp s = sp" and "ecx s = buf"
    and "setjmp_cookie_get (random P) (eax s) (cookie s) = (Inr v, c)"
  shows "\<exists>s'. exec P (sigsetjmp_cookie @ rest) s = exec P rest s' \<and>
    esp s' = sp \<and> ecx s' = buf \<and> eax s' = v \<and> cookie s' = c \<and> blocked s' = blocked s \<and>
    ebx s' = ebx s \<and> ebp s' = ebp s \<and> esi s' = esi s \<and> edi s' = edi s \<and>
    kept P sp ((mem s)(buf + 32 := v)) (mem s') \<and> calls s' = calls s @ [(F_cookie_get, sp - 12)]"
proof -
  have al: "aligned sp" "aligned buf" using assms(1,2) by (simp_all add: stack_at_def clear_of_def)
  note [simp] = run_simps assms(3-5) al stack_order [OF assms(1)] buf_apart [OF assms(1,2)] buf_first [OF assms(1,2)]
  show ?thesis
    unfolding sigsetjmp_cookie_def
    by (simp, rule exI, rule conjI, rule refl)
      (auto simp: kept_def stack_below [OF assms(1)] dest: stack_below(2) [OF assms(1), rotated])
qed

lemma run_cookie_fails:
  assumes "stack_at P sp" and "clear_of P sp buf" and "esp s = sp" and "ecx s = buf"
    and "setjmp_cookie_get (random P) (eax s) (cookie s) = (Inl e, c)"
  shows "fst (exec P (sigsetjmp_cookie @ rest) s) = Inl e"
proof -
  have al: "aligned sp" "aligned buf" using assms(1,2) by (simp_all add: stack_at_def clear_of_def)
  note [simp] = run_simps assms(3-5) al stack_order [OF assms(1)] buf_apart [OF assms(1,2)] buf_first [OF assms(1,2)]
  show ?thesis unfolding sigsetjmp_cookie_def by simp
qed

lemma buf_nonzero:
  assumes "clear_of P sp buf" and "i < 40" and "0 < i"
  shows "buf + i \<noteq> 0"
proof -
  from assms(3) have "0 < uint i" by (simp add: word_less_def)
  with inside [OF assms(1,2)] uint_ge_0 [of buf] have "uint (buf + i) \<noteq> 0" by linarith
  then show ?thesis by auto
qed

lemma run_mask_saved:
  assumes "stack_at P sp" and "clear_of P sp buf" and "esp s = sp" and "ecx s = buf" and "eax s AND 1 \<noteq> 0"
  shows "\<exists>s'. exec P (sigsetjmp_mask @ rest) s = exec P rest s' \<and>
    esp s' = sp \<and> ecx s' = buf \<and> cookie s' = cookie s \<and> blocked s' = blocked s \<and>
    ebx s' = ebx s \<and> ebp s' = ebp s \<and> esi s' = esi s \<and> edi s' = edi s \<and>
    kept P sp ((mem s)(buf + 24 := blocked s)) (mem s') \<and> calls s' = calls s @ [(F_sigprocmask, sp - 28)]"
proof -
  have al: "aligned sp" "aligned buf" using assms(1,2) by (simp_all add: stack_at_def clear_of_def)
  note [simp] = run_simps assms(3-5) al stack_order [OF assms(1)] buf_apart [OF assms(1,2)] buf_first [OF assms(1,2)]
    sigprocmask_def buf_nonzero [OF assms(2)]
  show ?thesis
    unfolding sigsetjmp_mask_def
    by (simp, rule exI, rule conjI, rule refl)
      (auto simp: kept_def stack_below [OF assms(1)] dest: stack_below(2) [OF assms(1), rotated])
qed

lemma run_mask_skipped:
  assumes "eax s AND 1 = 0"
  shows "\<exists>s'. exec P (sigsetjmp_mask @ sigsetjmp_save @ rest) s = exec P (sigsetjmp_save @ rest) s' \<and>
    esp s' = esp s \<and> ecx s' = ecx s \<and> cookie s' = cookie s \<and> blocked s' = blocked s \<and>
    ebx s' = ebx s \<and> ebp s' = ebp s \<and> esi s' = esi s \<and> edi s' = edi s \<and> mem s' = mem s \<and>
    calls s' = calls s"
proof -
  obtain t where t: "sigsetjmp_save = Label (Num 1) # t" unfolding sigsetjmp_save_def by simp
  show ?thesis
    unfolding sigsetjmp_mask_def t
    by (simp add: run_simps assms, rule exI, rule conjI, rule refl) simp
qed

text \<open>The words of a buffer filled in state \<open>s\<close>, mangled with \<open>k\<close>.\<close>

definition filled :: "(u32 \<Rightarrow> u32) \<Rightarrow> u32 \<Rightarrow> u32 \<Rightarrow> u32 \<Rightarrow> 'w cpu \<Rightarrow> bool" where
  "filled m buf k retaddr s \<longleftrightarrow>
     m buf = retaddr XOR k \<and> m (buf + 4) = ebx s XOR k \<and> m (buf + 8) = esp s XOR k \<and>
     m (buf + 12) = ebp s XOR k \<and> m (buf + 16) = esi s XOR k \<and> m (buf + 20) = edi s XOR k \<and>
     m (buf + 36) = checksum m buf"

definition in_buf :: "u32 \<Rightarrow> u32 \<Rightarrow> bool" where
  "in_buf buf a \<longleftrightarrow> a \<in> (\<lambda>i. buf + i) ` {0, 4, 8, 12, 16, 20, 24, 28, 32, 36}"

lemmas code_const_defs = JB_EDX_def JB_EBX_def JB_ESP_def JB_EBP_def JB_ESI_def
          JB_EDI_def JB_SIGMASK_def JB_SIGFLAG_def JB_CHECKSUM_def

text \<open>
  While the registers are mangled, the stack pointer is no address of the stack: what a signal
  handler would push then goes elsewhere.
\<close>

lemma run_mangle:
  "exec P (m_mangle_registers EAX @ rest) s = exec P rest (s\<lparr>edx := edx s XOR eax s, ebx := ebx s XOR eax s,
     esp := esp s XOR eax s, ebp := ebp s XOR eax s, esi := esi s XOR eax s, edi := edi s XOR eax s,
     zf := (edi s XOR eax s = 0)\<rparr>)"
  by (simp add: m_mangle_registers_def machine_simps)

lemma run_checksum:
  assumes "aligned (get_reg src s)" and "src \<noteq> EAX"
  shows "exec P (m_calculate_checksum EAX src @ rest) s =
    exec P rest (s\<lparr>eax := checksum (mem s) (get_reg src s), zf := (checksum (mem s) (get_reg src s) = 0)\<rparr>)"
  using assms by (cases src) (simp_all add: m_calculate_checksum_def machine_simps checksum_def)

definition save_mem :: "u32 \<Rightarrow> 'w cpu \<Rightarrow> u32 \<Rightarrow> u32" where
  "save_mem k s =
     (let buf = ecx s;
        m = (mem s)(buf := mem s (esp s) XOR k, buf + 4 := ebx s XOR k, buf + 8 := esp s XOR k,
          buf + 12 := ebp s XOR k, buf + 16 := esi s XOR k, buf + 20 := edi s XOR k)
      in m(buf + 36 := checksum m buf))"

lemma run_save:
  assumes "aligned (esp s)" and "aligned (ecx s)" and "\<forall>i \<in> {0, 4, 8, 12, 16, 20, 36}. esp s \<noteq> ecx s + i"
  shows "exec P (sigsetjmp_save @ rest) s = (Inr (mem s (esp s)), s\<lparr>eax := 0, edx := mem s (esp s),
    esp := esp s + 4, mem := save_mem (mem s (ecx s + 32) AND NOT 1) s, zf := True\<rparr>)"
proof -
  have two: "(- 2 :: u32) = NOT 1" by simp
  have ne: "m (esp s) = mem s (esp s)"
    if "m = (mem s)(ecx s := v0, ecx s + 4 := v1, ecx s + 8 := v2, ecx s + 12 := v3, ecx s + 16 := v4, ecx s + 20 := v5, ecx s + 36 := v6)"
    for m v0 v1 v2 v3 v4 v5 v6
    using assms(3) that by simp
  show ?thesis
    unfolding sigsetjmp_save_def m_unmangle_registers_def two append.assoc append_Cons append_Nil code_const_defs
    by (simp add: machine_simps assms(1,2) run_mangle run_checksum xor_twice del: fun_upd_apply split del: if_split)
      (simp add: save_mem_def Let_def ne del: fun_upd_apply)
qed

section \<open>The parts of longjmp\<close>

lemma xor_zero: "x XOR y = 0 \<longleftrightarrow> x = (y :: u32)"
proof
  assume "x XOR y = 0"
  then have "(x XOR y) XOR y = 0 XOR y" by simp
  then show "x = y" by (simp only: xor_twice xor.left_neutral)
qed simp

lemma run_jump_checksum:
  assumes "aligned (esp s)" and "aligned (mem s (esp s + 4))"
  shows "\<exists>s'. exec P (siglongjmp_checksum @ rest) s =
      exec P (if checksum (mem s) (mem s (esp s + 4)) = mem s (mem s (esp s + 4) + 36) then rest else seek (Num 3) rest) s' \<and>
    edx s' = mem s (esp s + 4) \<and> mem s' = mem s \<and> esp s' = esp s \<and> cookie s' = cookie s \<and> blocked s' = blocked s \<and>
    ebx s' = ebx s \<and> ebp s' = ebp s \<and> esi s' = esi s \<and> edi s' = edi s \<and> calls s' = calls s"
  using assms unfolding siglongjmp_checksum_def append.assoc append_Cons append_Nil code_const_defs
  by (simp add: machine_simps run_checksum xor_zero split del: if_split) (rule exI, rule conjI, rule refl, simp)

lemma run_jump_mask:
  assumes st: "stack_at P (esp s)" and clear: "clear_of P (esp s) (edx s)" and flag: "mem s (edx s + 32) AND 1 \<noteq> 0"
  shows "\<exists>s'. exec P (siglongjmp_mask @ rest) s = exec P rest s' \<and>
    esp s' = esp s \<and> cookie s' = cookie s \<and>
    blocked s' = snd (sigprocmask (hdrs P) 2 (Some (mem s (edx s + 24))) (blocked s)) \<and>
    ebp s' = ebp s \<and> esi s' = esi s \<and> edi s' = edi s \<and> kept P (esp s) (mem s) (mem s') \<and>
    calls s' = calls s @ [(F_sigprocmask, esp s - 16)]"
proof -
  obtain sp buf where sp: "esp s = sp" and buf: "edx s = buf" by simp
  note st = st [unfolded sp] and clear = clear [unfolded sp buf] and flag = flag [unfolded buf]
  have al: "aligned sp" "aligned buf" using st clear by (simp_all add: stack_at_def clear_of_def)
  note [simp] = run_simps sp buf flag al stack_order [OF st] buf_apart [OF st clear] buf_first [OF st clear]
    buf_nonzero [OF clear]
  show ?thesis
    unfolding siglongjmp_mask_def
    by (simp split: prod.split, intro allI impI, rule exI, rule conjI, rule refl)
      (auto simp: kept_def stack_below [OF st] dest: stack_below(2) [OF st, rotated])
qed

lemma run_jump_mask_skipped:
  assumes "aligned (edx s)" and "mem s (edx s + 32) AND 1 = 0"
  shows "\<exists>s'. exec P (siglongjmp_mask @ siglongjmp_restore @ rest) s = exec P (siglongjmp_restore @ rest) s' \<and>
    esp s' = esp s \<and> cookie s' = cookie s \<and> blocked s' = blocked s \<and>
    ebp s' = ebp s \<and> esi s' = esi s \<and> edi s' = edi s \<and> mem s' = mem s \<and>
    calls s' = calls s"
proof -
  obtain t where t: "siglongjmp_restore = Label (Num 1) # t" unfolding siglongjmp_restore_def by simp
  show ?thesis
    unfolding siglongjmp_mask_def t
    by (simp add: run_simps assms, rule exI, rule conjI, rule refl) simp
qed

lemma run_restore:
  assumes "aligned (esp s)" and "aligned (mem s (esp s + 4))"
  shows "\<exists>s'. exec P (siglongjmp_restore @ rest) s = exec P rest s' \<and> mem s' = mem s \<and>
    cookie s' = cookie s \<and> blocked s' = blocked s \<and> calls s' = calls s \<and> (let buf = mem s (esp s + 4); k = mem s (buf + 32) AND NOT 1 in
      edx s' = buf \<and> eax s' = mem s (esp s + 8) \<and> ecx s' = k XOR mem s buf \<and> ebx s' = k XOR mem s (buf + 4) \<and>
      esp s' = k XOR mem s (buf + 8) \<and> ebp s' = k XOR mem s (buf + 12) \<and> esi s' = k XOR mem s (buf + 16) \<and>
      edi s' = k XOR mem s (buf + 20))"
proof -
  have two: "(- 2 :: u32) = NOT 1" by simp
  show ?thesis
    using assms unfolding siglongjmp_restore_def Let_def two append.assoc append_Cons append_Nil code_const_defs
    by (simp add: machine_simps) (rule exI, rule conjI, rule refl, simp)
qed

lemma kept_return:
  assumes st: "stack_at P sp" and kept: "kept P sp m m'"
  shows "kept P (sp + 4) m (m'(sp := v))"
proof -
  have "sp < sp + 4" and "a < sp \<Longrightarrow> a < sp + 4" for a
    using above [OF st, of 4] unfolding word_less_def by simp_all
  with kept stack_order(2) [OF st] show ?thesis unfolding kept_def by auto
qed

lemma run_return:
  assumes st: "stack_at P (esp s)" and clear: "clear_of P (esp s) (edx s)"
    and check: "setjmp_cookie_check (mem s (edx s + 32)) (cookie s) = (Inr flag, cookie s)"
  shows "\<exists>s'. exec P (siglongjmp_return @ rest) s = (Inr (ecx s), s') \<and>
    eax s' = (if eax s = 0 then 1 else eax s) \<and> esp s' = esp s + 4 \<and> cookie s' = cookie s \<and> blocked s' = blocked s \<and>
    ebx s' = ebx s \<and> ebp s' = ebp s \<and> esi s' = esi s \<and> edi s' = edi s \<and> kept P (esp s + 4) (mem s) (mem s') \<and>
    calls s' = calls s @ [(F_cookie_check, esp s - 16)]"
proof -
  obtain sp buf where sp: "esp s = sp" and buf: "edx s = buf" by simp
  note st = st [unfolded sp] and clear = clear [unfolded sp buf] and check = check [unfolded buf]
  have al: "aligned sp" "aligned buf" using st clear by (simp_all add: stack_at_def clear_of_def)
  note [simp] = run_simps sp buf check al stack_order [OF st] buf_apart [OF st clear] buf_first [OF st clear]
  show ?thesis
    unfolding siglongjmp_return_def
    by (simp, rule kept_return [OF st])
      (auto simp: kept_def stack_below [OF st] dest: stack_below(2) [OF st, rotated])
qed

lemma run_mismatch:
  assumes st: "stack_at P (esp s)" and clear: "clear_of P (esp s) (edx s)"
  shows "\<exists>s'. exec P siglongjmp_mismatch s = (Inl (Aborted ''setjmp checksum mismatch''), s') \<and>
    cookie s' = cookie s \<and> blocked s' = blocked s \<and> ebp s' = ebp s \<and> esi s' = esi s \<and> edi s' = edi s \<and>
    kept P (esp s) (mem s) (mem s')"
proof -
  obtain sp buf where sp: "esp s = sp" and buf: "edx s = buf" by simp
  note st = st [unfolded sp] and clear = clear [unfolded sp buf]
  have al: "aligned sp" "aligned buf" using st clear by (simp_all add: stack_at_def clear_of_def)
  note [simp] = run_simps sp buf al stack_order [OF st] buf_apart [OF st clear] buf_first [OF st clear]
  show ?thesis
    unfolding siglongjmp_mismatch_def
    by (simp add: setjmp_checksum_mismatch_def liftA_def)
      (auto simp: kept_def stack_below [OF st] dest: stack_below(2) [OF st, rotated])
qed

section \<open>setjmp\<close>

text \<open>Whether an entry point saves the signal mask: the last one leaves it to the caller.\<close>

definition saves_mask :: "string \<Rightarrow> 'w cpu \<Rightarrow> u32" where
  "saves_mask f s = (if f = ''bionic_setjmp'' then 1 else if f = ''bionic__setjmp'' then 0 else mem s (esp s + 8))"

lemma run_entry:
  assumes "aligned (esp s)" and "f = ''bionic_setjmp'' \<or> f = ''bionic__setjmp'' \<or> f = ''bionic_sigsetjmp''"
  shows "run_function P f s =
    exec P (sigsetjmp_cookie @ sigsetjmp_mask @ sigsetjmp_save @ bionic_siglongjmp)
      (s\<lparr>ecx := mem s (esp s + 4), eax := saves_mask f s\<rparr>)"
  using assms(2)
  by (elim disjE)
    (simp_all add: run_function_def ALIAS_SYMBOL_def setjmp_S_def bionic_setjmp_def bionic__setjmp_def bionic_sigsetjmp_def
      machine_simps saves_mask_def assms(1))

definition is_setjmp :: "string \<Rightarrow> bool" where
  "is_setjmp f \<longleftrightarrow> f = ''bionic_setjmp'' \<or> f = ''bionic__setjmp'' \<or> f = ''bionic_sigsetjmp''"

definition same_regs :: "'w cpu \<Rightarrow> 'w cpu \<Rightarrow> bool" where
  "same_regs s s' \<longleftrightarrow> ebx s' = ebx s \<and> ebp s' = ebp s \<and> esi s' = esi s \<and> edi s' = edi s"

lemma keptD: "kept P sp m m' \<Longrightarrow> stack_limit P \<le> a \<and> a < sp \<or> m' a = m a"
  by (auto simp: kept_def)

lemma kept_buf:
  assumes "stack_at P sp" and "clear_of P sp buf" and "kept P sp m m'"
  shows "i < 40 \<Longrightarrow> m' (buf + i) = m (buf + i)" "m' buf = m buf"
  using assms(3) buf_apart(3) [OF assms(1,2), of i 0] buf_first(3) [OF assms(1,2), of 0] by (auto simp: kept_def)

lemma kept_top:
  assumes "stack_at P sp" and "kept P sp m m'"
  shows "m' sp = m sp" "k < 16 \<Longrightarrow> m' (sp + k) = m (sp + k)"
  using assms(2) stack_order(5) [OF assms(1), of k 0] by (auto simp: kept_def)

lemma save_mem_filled: "filled (save_mem k s) (ecx s) k (mem s (esp s)) s"
  by (simp add: filled_def save_mem_def checksum_def Let_def)

lemma save_mem_other: "\<not> in_buf (ecx s) a \<or> a = ecx s + 24 \<or> a = ecx s + 32 \<Longrightarrow> save_mem k s a = mem s a"
  by (auto simp: save_mem_def in_buf_def Let_def)

lemma setjmp_runs:
  assumes f: "is_setjmp f" and st: "stack_at P (esp s)" and clear: "clear_of P (esp s) (mem s (esp s + 4))"
    and get: "setjmp_cookie_get (random P) (saves_mask f s) (cookie s) = (Inr v, c)"
    and buf: "buf = mem s (esp s + 4)"
  shows "\<exists>s'. run_function P f s = (Inr (mem s (esp s)), s') \<and> eax s' = 0 \<and> esp s' = esp s + 4 \<and> same_regs s s' \<and>
    blocked s' = blocked s \<and> cookie s' = c \<and> mem s' (buf + 32) = v \<and>
    filled (mem s') buf (v AND NOT 1) (mem s (esp s)) s \<and> (v AND 1 \<noteq> 0 \<longrightarrow> mem s' (buf + 24) = blocked s) \<and>
    (\<forall>a. in_buf buf a \<or> stack_limit P \<le> a \<and> a < esp s \<or> mem s' a = mem s a) \<and>
    calls s' = calls s @ (F_cookie_get, esp s - 12) # (if v AND 1 = 0 then [] else [(F_sigprocmask, esp s - 28)])"
proof -
  let ?sp = "esp s" and ?s0 = "s\<lparr>ecx := mem s (esp s + 4), eax := saves_mask f s\<rparr>"
  have al: "aligned ?sp" "aligned buf" using st clear buf by (simp_all add: stack_at_def clear_of_def)
  note clear = clear [folded buf]
  have "setjmp_cookie_get (random P) (eax ?s0) (cookie ?s0) = (Inr v, c)" using get by simp
  from run_cookie [OF st clear _ _ this] buf obtain s1 where
    s1: "exec P (sigsetjmp_cookie @ sigsetjmp_mask @ sigsetjmp_save @ bionic_siglongjmp) ?s0 =
      exec P (sigsetjmp_mask @ sigsetjmp_save @ bionic_siglongjmp) s1"
      "esp s1 = ?sp" "ecx s1 = buf" "eax s1 = v" "cookie s1 = c" "blocked s1 = blocked s" "same_regs s s1"
      "kept P ?sp ((mem s)(buf + 32 := v)) (mem s1)" "calls s1 = calls s @ [(F_cookie_get, ?sp - 12)]"
    by (auto simp: same_regs_def)
  have "\<exists>s2. exec P (sigsetjmp_mask @ sigsetjmp_save @ bionic_siglongjmp) s1 = exec P (sigsetjmp_save @ bionic_siglongjmp) s2 \<and>
      esp s2 = ?sp \<and> ecx s2 = buf \<and> cookie s2 = c \<and> blocked s2 = blocked s \<and> same_regs s s2 \<and>
      kept P ?sp (if v AND 1 = 0 then mem s1 else (mem s1)(buf + 24 := blocked s)) (mem s2) \<and>
      calls s2 = calls s1 @ (if v AND 1 = 0 then [] else [(F_sigprocmask, ?sp - 28)])"
  proof (cases "v AND 1 = 0")
    case True
    with run_mask_skipped [of s1 P] s1 show ?thesis by (force simp: same_regs_def kept_def)
  next
    case False
    with run_mask_saved [OF st clear s1(2,3), of "sigsetjmp_save @ bionic_siglongjmp"] s1 show ?thesis
      by (simp add: same_regs_def)
  qed
  then obtain s2 where
    s2: "exec P (sigsetjmp_mask @ sigsetjmp_save @ bionic_siglongjmp) s1 = exec P (sigsetjmp_save @ bionic_siglongjmp) s2"
      "esp s2 = ?sp" "ecx s2 = buf" "cookie s2 = c" "blocked s2 = blocked s" "same_regs s s2"
      "kept P ?sp (if v AND 1 = 0 then mem s1 else (mem s1)(buf + 24 := blocked s)) (mem s2)"
      "calls s2 = calls s1 @ (if v AND 1 = 0 then [] else [(F_sigprocmask, ?sp - 28)])"
    by blast
  note top = kept_top [OF st s2(7)] kept_top [OF st s1(8)] and words = kept_buf [OF st clear s2(7)] kept_buf [OF st clear s1(8)]
  have apart: "buf + i \<noteq> ?sp" if "i < 40" for i using buf_apart(4) [OF st clear that] .
  have sp: "mem s2 ?sp = mem s ?sp"
    using top apart [of 24] apart [of 32] by (auto split: if_splits)
  have v: "mem s2 (buf + 32) = v" and m: "v AND 1 \<noteq> 0 \<Longrightarrow> mem s2 (buf + 24) = blocked s"
    using words by simp_all
  have save: "exec P (sigsetjmp_save @ bionic_siglongjmp) s2 = (Inr (mem s2 (esp s2)), s2\<lparr>eax := 0, edx := mem s2 (esp s2),
    esp := esp s2 + 4, mem := save_mem (mem s2 (ecx s2 + 32) AND NOT 1) s2, zf := True\<rparr>)"
    by (rule run_save) (use al s2 buf_apart(5) [OF st clear] buf_first(5) [OF st clear] in simp_all)
  have "filled (save_mem (v AND NOT 1) s2) buf (v AND NOT 1) (mem s ?sp) s"
    using save_mem_filled [of "v AND NOT 1" s2] s2 sp by (simp add: filled_def same_regs_def)
  moreover have "in_buf buf a \<or> stack_limit P \<le> a \<and> a < ?sp \<or> save_mem (v AND NOT 1) s2 a = mem s a" for a
    using save_mem_other [of s2 a] s2(3) keptD [OF s2(7), of a] keptD [OF s1(8), of a]
    by (cases "in_buf buf a") (auto simp: in_buf_def split: if_splits)
  ultimately show ?thesis
    unfolding run_entry [OF al(1) f [unfolded is_setjmp_def]] s1(1) s2(1) save
    using s2 s1(9) sp v m save_mem_other [of s2] by (simp add: same_regs_def)
qed

section \<open>longjmp\<close>

definition is_longjmp :: "string \<Rightarrow> bool" where
  "is_longjmp f \<longleftrightarrow> f = ''bionic_longjmp'' \<or> f = ''bionic__longjmp'' \<or> f = ''bionic_siglongjmp''"

lemmas program_defs = setjmp_S_def bionic_setjmp_def bionic__setjmp_def bionic_sigsetjmp_def sigsetjmp_cookie_def
  sigsetjmp_mask_def sigsetjmp_save_def code_defs

lemma run_jump_entry:
  assumes "is_longjmp f"
  shows "run_function P f = exec P bionic_siglongjmp"
proof -
  have target: "ALIAS_SYMBOL f = ''bionic_siglongjmp''" using assms by (auto simp: is_longjmp_def ALIAS_SYMBOL_def)
  obtain t where t: "siglongjmp_checksum = Label (Global ''bionic_siglongjmp'') # t"
    unfolding siglongjmp_checksum_def by simp
  show ?thesis
    unfolding run_function_def target bionic_siglongjmp_def program_defs t by (simp add: seek_def)
qed

lemma seek_mismatch:
  "seek (Num 3) (siglongjmp_mask @ siglongjmp_restore @ siglongjmp_return @ siglongjmp_mismatch) = siglongjmp_mismatch"
  unfolding siglongjmp_mask_def siglongjmp_restore_def siglongjmp_return_def siglongjmp_mismatch_def PIC_PROLOGUE_def
    PIC_EPILOGUE_def by (simp add: seek_def)

lemma run_return_fails:
  assumes st: "stack_at P (esp s)" and clear: "clear_of P (esp s) (edx s)"
    and check: "setjmp_cookie_check (mem s (edx s + 32)) (cookie s) = (Inl e, cookie s)"
  shows "fst (exec P (siglongjmp_return @ rest) s) = Inl e"
proof -
  obtain sp buf where sp: "esp s = sp" and buf: "edx s = buf" by simp
  note st = st [unfolded sp] and clear = clear [unfolded sp buf] and check = check [unfolded buf]
  have al: "aligned sp" "aligned buf" using st clear by (simp_all add: stack_at_def clear_of_def)
  note [simp] = run_simps sp buf check al stack_order [OF st] buf_apart [OF st clear] buf_first [OF st clear]
  show ?thesis unfolding siglongjmp_return_def by simp
qed

text \<open>The mask and the registers a buffer stands for.\<close>

definition restored_mask :: "'w platform \<Rightarrow> u32 \<Rightarrow> 'w cpu \<Rightarrow> u32" where
  "restored_mask P buf s =
     (if mem s (buf + 32) AND 1 = 0 then blocked s
      else snd (sigprocmask (hdrs P) 2 (Some (mem s (buf + 24))) (blocked s)))"

definition restored_regs :: "u32 \<Rightarrow> 'w cpu \<Rightarrow> 'w cpu \<Rightarrow> bool" where
  "restored_regs buf s s' \<longleftrightarrow> (let k = mem s (buf + 32) AND NOT 1; m = mem s in
     ebx s' = m (buf + 4) XOR k \<and> esp s' = m (buf + 8) XOR k \<and> ebp s' = m (buf + 12) XOR k \<and>
     esi s' = m (buf + 16) XOR k \<and> edi s' = m (buf + 20) XOR k)"

lemma run_to_return:
  assumes f: "is_longjmp f" and st: "stack_at P (esp s)" and clear: "clear_of P (esp s) buf"
    and buf: "buf = mem s (esp s + 4)" and sum: "mem s (buf + 36) = checksum (mem s) buf"
  shows "\<exists>s'. run_function P f s = exec P (siglongjmp_return @ siglongjmp_mismatch) s' \<and> eax s' = mem s (esp s + 8) \<and>
    edx s' = buf \<and> ecx s' = mem s buf XOR (mem s (buf + 32) AND NOT 1) \<and> cookie s' = cookie s \<and>
    blocked s' = restored_mask P buf s \<and> kept P (esp s) (mem s) (mem s') \<and> restored_regs buf s s' \<and>
    calls s' = calls s @ (if mem s (buf + 32) AND 1 = 0 then [] else [(F_sigprocmask, esp s - 16)])"
proof -
  let ?rest = "siglongjmp_return @ siglongjmp_mismatch"
  have al: "aligned (esp s)" "aligned buf" using st clear by (simp_all add: stack_at_def clear_of_def)
  obtain s1 where
    s1: "run_function P f s = exec P (siglongjmp_mask @ siglongjmp_restore @ ?rest) s1"
      "edx s1 = buf" "mem s1 = mem s" "esp s1 = esp s" "cookie s1 = cookie s" "blocked s1 = blocked s"
      "calls s1 = calls s"
    using run_jump_checksum [of s P "siglongjmp_mask @ siglongjmp_restore @ ?rest"] al sum buf
    unfolding run_jump_entry [OF f] bionic_siglongjmp_def append.assoc by auto
  have "\<exists>s2. exec P (siglongjmp_mask @ siglongjmp_restore @ ?rest) s1 = exec P (siglongjmp_restore @ ?rest) s2 \<and>
      esp s2 = esp s \<and> cookie s2 = cookie s \<and> blocked s2 = restored_mask P buf s \<and> kept P (esp s) (mem s) (mem s2) \<and>
      calls s2 = calls s @ (if mem s (buf + 32) AND 1 = 0 then [] else [(F_sigprocmask, esp s - 16)])"
  proof (cases "mem s (buf + 32) AND 1 = 0")
    case True
    with run_jump_mask_skipped [of s1 P ?rest] al s1 show ?thesis by (force simp: restored_mask_def kept_def)
  next
    case False
    with run_jump_mask [of P s1 "siglongjmp_restore @ ?rest"] st clear s1 show ?thesis by (auto simp: restored_mask_def)
  qed
  then obtain s2 where
    s2: "exec P (siglongjmp_mask @ siglongjmp_restore @ ?rest) s1 = exec P (siglongjmp_restore @ ?rest) s2"
      "esp s2 = esp s" "cookie s2 = cookie s" "blocked s2 = restored_mask P buf s" "kept P (esp s) (mem s) (mem s2)"
      "calls s2 = calls s @ (if mem s (buf + 32) AND 1 = 0 then [] else [(F_sigprocmask, esp s - 16)])"
    by blast
  note args = kept_top(2) [OF st s2(5)] and words = kept_buf [OF st clear s2(5)]
  have "aligned (esp s2)" "aligned (mem s2 (esp s2 + 4))" using al buf s2(2) args by simp_all
  from run_restore [OF this, of P ?rest] show ?thesis
    unfolding s1(1) s2(1) Let_def s2(2)
    using s2(3-6) buf by (force simp: args words [unfolded buf] restored_regs_def Let_def xor.commute)
qed

lemma longjmp_runs:
  assumes f: "is_longjmp f" and st: "stack_at P (esp s)" and clear: "clear_of P (esp s) buf"
    and buf: "buf = mem s (esp s + 4)" and sum: "mem s (buf + 36) = checksum (mem s) buf"
    and k: "k = mem s (buf + 32) AND NOT 1" 
    and st0: "stack_at P (mem s (buf + 8) XOR k)" and clear0: "clear_of P (mem s (buf + 8) XOR k) buf"
    and check: "setjmp_cookie_check (mem s (buf + 32)) (cookie s) = (Inr flag, cookie s)"
  shows "\<exists>s'. run_function P f s = (Inr (mem s buf XOR k), s') \<and>
    eax s' = (if mem s (esp s + 8) = 0 then 1 else mem s (esp s + 8)) \<and> cookie s' = cookie s \<and>
    blocked s' = restored_mask P buf s \<and> restored_regs buf s (s'\<lparr>esp := esp s' - 4\<rparr>) \<and>
    calls s' = calls s @ (if mem s (buf + 32) AND 1 = 0 then [] else [(F_sigprocmask, esp s - 16)]) @
      [(F_cookie_check, (mem s (buf + 8) XOR k) - 16)]"
proof -
  from run_to_return [OF f st clear buf sum] obtain s1 where
    s1: "run_function P f s = exec P (siglongjmp_return @ siglongjmp_mismatch) s1" "eax s1 = mem s (esp s + 8)"
      "edx s1 = buf" "ecx s1 = mem s buf XOR k" "cookie s1 = cookie s" "blocked s1 = restored_mask P buf s"
      "kept P (esp s) (mem s) (mem s1)" "restored_regs buf s s1"
      "calls s1 = calls s @ (if mem s (buf + 32) AND 1 = 0 then [] else [(F_sigprocmask, esp s - 16)])"
    unfolding k by blast
  have sp: "esp s1 = mem s (buf + 8) XOR k" using s1(8) by (simp add: restored_regs_def k Let_def)
  have "mem s1 (buf + 32) = mem s (buf + 32)" using kept_buf [OF st clear s1(7)] by simp
  with run_return [of P s1 flag siglongjmp_mismatch] st0 clear0 check s1 sp obtain s' where
    "exec P (siglongjmp_return @ siglongjmp_mismatch) s1 = (Inr (ecx s1), s')"
    "eax s' = (if eax s1 = 0 then 1 else eax s1)" "esp s' = esp s1 + 4" "cookie s' = cookie s1" "blocked s' = blocked s1"
    "ebx s' = ebx s1" "ebp s' = ebp s1" "esi s' = esi s1" "edi s' = edi s1"
    "calls s' = calls s1 @ [(F_cookie_check, esp s1 - 16)]" by auto
  with s1 sp show ?thesis by (simp add: restored_regs_def Let_def)
qed

lemma longjmp_wrong_cookie:
  assumes f: "is_longjmp f" and st: "stack_at P (esp s)" and clear: "clear_of P (esp s) buf"
    and buf: "buf = mem s (esp s + 4)" and sum: "mem s (buf + 36) = checksum (mem s) buf"
    and k: "k = mem s (buf + 32) AND NOT 1" 
    and st0: "stack_at P (mem s (buf + 8) XOR k)" and clear0: "clear_of P (mem s (buf + 8) XOR k) buf"
    and check: "fst (cookie s) \<noteq> k"
  shows "fst (run_function P f s) = Inl (Aborted ''setjmp cookie mismatch'')"
proof -
  from run_to_return [OF f st clear buf sum] obtain s1 where
    s1: "run_function P f s = exec P (siglongjmp_return @ siglongjmp_mismatch) s1" 
      "edx s1 = buf" "cookie s1 = cookie s"
      "kept P (esp s) (mem s) (mem s1)" "restored_regs buf s s1" by blast
  have sp: "esp s1 = mem s (buf + 8) XOR k" using s1(5) by (simp add: restored_regs_def k Let_def)
  have "setjmp_cookie_check (mem s1 (edx s1 + 32)) (cookie s1) = (Inl (Aborted ''setjmp cookie mismatch''), cookie s1)"
    using kept_buf [OF st clear s1(4)] check s1 by (simp add: setjmp_cookie_check_def k)
  from run_return_fails [OF _ _ this] st0 clear0 s1 sp show ?thesis by simp
qed

lemma longjmp_wrong_checksum:
  assumes f: "is_longjmp f" and st: "stack_at P (esp s)" and clear: "clear_of P (esp s) buf"
    and buf: "buf = mem s (esp s + 4)" and sum: "mem s (buf + 36) \<noteq> checksum (mem s) buf"
  shows "\<exists>s'. run_function P f s = (Inl (Aborted ''setjmp checksum mismatch''), s') \<and> cookie s' = cookie s \<and>
    blocked s' = blocked s \<and> ebp s' = ebp s \<and> esi s' = esi s \<and> edi s' = edi s \<and> kept P (esp s) (mem s) (mem s')"
proof -
  have al: "aligned (esp s)" "aligned buf" using st clear by (simp_all add: stack_at_def clear_of_def)
  obtain s1 where
    s1: "run_function P f s = exec P siglongjmp_mismatch s1"
      "edx s1 = buf" "mem s1 = mem s" "esp s1 = esp s" "cookie s1 = cookie s" "blocked s1 = blocked s"
      "ebp s1 = ebp s" "esi s1 = esi s" "edi s1 = edi s"
    using run_jump_checksum [of s P "siglongjmp_mask @ siglongjmp_restore @ siglongjmp_return @ siglongjmp_mismatch"] al sum buf
    unfolding run_jump_entry [OF f] bionic_siglongjmp_def append.assoc seek_mismatch by auto
  with run_mismatch [of P s1] st clear show ?thesis by simp
qed

text \<open>
  If the stack pointer in the buffer is one of a stack, \<open>longjmp\<close> returns exactly when checksum and
  cookie are right; else it aborts.
\<close>

lemma longjmp_returns_iff:
  assumes f: "is_longjmp f" and st: "stack_at P (esp s)" and clear: "clear_of P (esp s) buf"
    and buf: "buf = mem s (esp s + 4)" and k: "k = mem s (buf + 32) AND NOT 1"
    and st0: "stack_at P (mem s (buf + 8) XOR k)" and clear0: "clear_of P (mem s (buf + 8) XOR k) buf"
  shows "(\<exists>a. fst (run_function P f s) = Inr a) \<longleftrightarrow>
    mem s (buf + 36) = checksum (mem s) buf \<and> fst (cookie s) = k"
proof (cases "mem s (buf + 36) = checksum (mem s) buf")
  case False
  with longjmp_wrong_checksum [OF f st clear buf] show ?thesis by auto
next
  case sum: True
  show ?thesis
  proof (cases "fst (cookie s) = k")
    case False
    with longjmp_wrong_cookie [OF f st clear buf sum k st0 clear0] sum show ?thesis by simp
  next
    case True
    then have "setjmp_cookie_check (mem s (buf + 32)) (cookie s) = (Inr (mem s (buf + 32) AND 1), cookie s)"
      by (simp add: setjmp_cookie_check_def k)
    with longjmp_runs [OF f st clear buf sum k st0 clear0] sum True show ?thesis by auto
  qed
qed

lemma setjmp_bad_flag:
  assumes "is_setjmp f" and "stack_at P (esp s)" and "clear_of P (esp s) (mem s (esp s + 4))"
    and "saves_mask f s AND NOT 1 \<noteq> 0"
  shows "fst (run_function P f s) = Inl (Aborted ''unexpected sigflag value: %ld'')"
  using assms run_entry [of s f P]
    run_cookie_fails [OF assms(2,3), of "s\<lparr>ecx := mem s (esp s + 4), eax := saves_mask f s\<rparr>"]
  by (simp add: is_setjmp_def stack_at_def setjmp_cookie_get_def)

definition buffer_words :: "u32 list" where
  "buffer_words = [0, 4, 8, 12, 16, 20, 24, 32, 36]"

section \<open>The stack at the calls\<close>

text \<open>
  macOS wants the stack pointer to be a multiple of 16 at every call, so that it is 12 modulo 16
  where a function begins. The calls of \<open>setjmp\<close> keep to it; the 8 bytes it sets aside for
  \<open>sigprocmask\<close> have no other use.
\<close>

definition calls_at :: "int \<Rightarrow> (c_function \<times> u32) list \<Rightarrow> bool" where
  "calls_at r cs \<longleftrightarrow> list_all (\<lambda>(f, sp). uint sp mod 16 = r) cs"

lemma mod_16_diff: "uint (a - n) mod 16 = (uint a - uint n) mod 16" for a n :: u32
  by (simp add: uint_word_ariths mod_mod_cancel)

lemma setjmp_calls_aligned:
  assumes "is_setjmp f" and "stack_at P (esp s)" and "clear_of P (esp s) (mem s (esp s + 4))"
    and "setjmp_cookie_get (random P) (saves_mask f s) (cookie s) = (Inr v, c)"
    and "uint (esp s) mod 16 = 12" and "calls s = []"
  shows "calls_at 0 (calls (snd (run_function P f s)))"
proof -
  have "uint (esp s - 12) mod 16 = 0" "uint (esp s - 28) mod 16 = 0"
    using assms(5) unfolding mod_16_diff by (simp_all add: mod_diff_left_eq [symmetric, of "uint (esp s)"])
  with setjmp_runs [OF assms(1-4) refl] assms(6) show ?thesis by (auto simp: calls_at_def)
qed

text \<open>\<open>longjmp\<close> sets nothing aside: all its calls find the stack pointer 4 below a multiple of 16.\<close>

lemma longjmp_calls_misaligned:
  assumes "is_longjmp f" and "stack_at P (esp s)" and "clear_of P (esp s) buf"
    and "buf = mem s (esp s + 4)" and "mem s (buf + 36) = checksum (mem s) buf"
    and "k = mem s (buf + 32) AND NOT 1" and "sp0 = mem s (buf + 8) XOR k"
    and "stack_at P sp0" and "clear_of P sp0 buf"
    and "setjmp_cookie_check (mem s (buf + 32)) (cookie s) = (Inr flag, cookie s)"
    and "uint (esp s) mod 16 = 12" and "uint sp0 mod 16 = 12" and "calls s = []"
  shows "calls (snd (run_function P f s)) \<noteq> [] \<and> calls_at 12 (calls (snd (run_function P f s)))"
proof -
  have "uint (esp s - 16) mod 16 = 12" "uint (sp0 - 16) mod 16 = 12"
    using assms(11,12) unfolding mod_16_diff by simp_all
  with longjmp_runs [OF assms(1-6) assms(8-9) [unfolded assms(7)] assms(10)] assms(7,13) show ?thesis
    by (auto simp: calls_at_def)
qed

section \<open>A machine with the numbers of macOS\<close>

definition sample_platform :: "nat platform" where
  "sample_platform = \<lparr>
     code_address = (\<lambda>n. 0x1000 - of_nat n), stack_limit = 0x8000, scratch_reg = (\<lambda>f r. 77),
     scratch_mem = (\<lambda>f a. 99), scratch_zf = (\<lambda>f. True), random = (\<lambda>w. (of_nat w * 0x1235 + 7, w + 1)),
     hdrs = (\<lambda>m. if m = ''SIG_BLOCK'' then 1 else if m = ''SIG_UNBLOCK'' then 2 else 3)\<rparr>"

text \<open>A call of \<open>setjmp (0x10000)\<close> that returns to 0x4242, with signals 2 and 3 blocked.\<close>

definition sample_cpu :: "nat cpu" where
  "sample_cpu = \<lparr>
     eax = 5, ebx = 11, ecx = 6, edx = 7, esi = 13, edi = 14, ebp = 12, esp = 0x9000,
     mem = (\<lambda>a. if a = 0x9000 then 0x4242 else if a = 0x9004 then 0x10000 else 0),
     zf = False, cookie = (0, 3), blocked = 6, calls = []\<rparr>"

text \<open>Later, deeper in the stack, \<open>longjmp (0x10000, 5)\<close> with signals 1 to 4 blocked.\<close>

definition sample_jump :: "nat cpu \<Rightarrow> nat cpu" where
  "sample_jump s = s\<lparr>
     ebx := 0, ebp := 0, esi := 0, edi := 0, esp := 0x8F00,
     mem := (mem s)(0x8F00 := 0x77, 0x8F04 := 0x10000, 0x8F08 := 5), blocked := 15\<rparr>"

lemma sample_machine [simp]:
  "is_setjmp ''bionic_setjmp''" "is_longjmp ''bionic_longjmp''"
  "stack_at sample_platform 0x9000" "clear_of sample_platform 0x9000 0x10000"
  "stack_at sample_platform 0x8F00" "clear_of sample_platform 0x8F00 0x10000"
  "esp sample_cpu = 0x9000" "mem sample_cpu 0x9000 = 0x4242" "mem sample_cpu 0x9004 = 0x10000"
  "cookie_ok (cookie sample_cpu)" "saves_mask ''bionic_setjmp'' sample_cpu = 1" "blocked sample_cpu = 6"
  by (simp_all add: is_setjmp_def is_longjmp_def stack_at_def clear_of_def aligned_def sample_platform_def sample_cpu_def
      cookie_ok_def saves_mask_def)

lemma sample_jump [simp]:
  "esp (sample_jump s) = 0x8F00" "mem (sample_jump s) 0x8F04 = 0x10000" "mem (sample_jump s) 0x8F08 = 5"
  "blocked (sample_jump s) = 15" "cookie (sample_jump s) = cookie s"
  by (simp_all add: sample_jump_def)

section \<open>The signal mask\<close>

text \<open>
  \<open>siglongjmp\<close> passes \<open>sigprocmask\<close> the number 2 (\<open>pushl $2 // SIG_SETMASK\<close>). Where \<open>SIG_SETMASK\<close>
  is 2, as on Android, the saved mask comes back.
\<close>

lemma saved_mask_restored:
  assumes "h ''SIG_SETMASK'' = 2" and "h ''SIG_BLOCK'' \<noteq> 2" and "h ''SIG_UNBLOCK'' \<noteq> 2"
  shows "snd (sigprocmask h 2 (Some m) b) = m"
  using assms by (simp add: sigprocmask_def)

text \<open>
  On macOS, the only system the file is built for, 2 is \<open>SIG_UNBLOCK\<close>: the signals blocked at the
  \<open>setjmp\<close> are unblocked, and those blocked since stay blocked.
\<close>

lemma saved_mask_unblocked:
  assumes "h ''SIG_BLOCK'' \<noteq> 2" and "h ''SIG_UNBLOCK'' = 2"
  shows "snd (sigprocmask h 2 (Some m) b) = b AND NOT m"
  using assms by (simp add: sigprocmask_def)

section \<open>Properties\<close>



lemma xor_cancel: "x XOR k = y XOR k \<longleftrightarrow> x = (y :: u32)" "k XOR x = k XOR y \<longleftrightarrow> x = y"
  by (metis xor_twice) (metis xor_twice xor.commute)

text \<open>
  The checksum is the exclusive or of the words: the same bits flipped in two of them pass it.
\<close>

lemma checksum_misses_pairs:
  "checksum (m(buf := m buf XOR d, buf + 4 := m (buf + 4) XOR d)) buf = checksum m buf"
  by (simp add: checksum_def xor.assoc xor.left_commute)

text \<open>
  C14. If exactly one of the register words or the checksum of a buffer was changed since
  \<open>setjmp\<close> filled it, to whatever value, \<open>longjmp\<close> aborts with a checksum mismatch before it has
  restored a register or the signal mask and before it has written outside the free stack.
\<close>

theorem longjmp_detects_tampering:
  assumes "is_setjmp f" and "stack_at P (esp s)" and "clear_of P (esp s) buf" and "buf = mem s (esp s + 4)"
    and "saves_mask f s \<in> {0, 1}" and "run_function P f s = (r, s1)"
    and "is_longjmp g" and "stack_at P (esp s2)" and "clear_of P (esp s2) buf" and "buf = mem s2 (esp s2 + 4)"
    and "i \<in> {0, 4, 8, 12, 16, 20, 36}" and "mem s2 (buf + i) \<noteq> mem s1 (buf + i)"
    and "\<forall>j \<in> {0, 4, 8, 12, 16, 20, 36} - {i}. mem s2 (buf + j) = mem s1 (buf + j)"
    and "run_function P g s2 = (q, s3)"
  shows "q = Inl (Aborted ''setjmp checksum mismatch'') \<and> blocked s3 = blocked s2 \<and> cookie s3 = cookie s2 \<and>
    ebp s3 = ebp s2 \<and> esi s3 = esi s2 \<and> edi s3 = edi s2 \<and> kept P (esp s2) (mem s2) (mem s3)"
proof -
  from assms(5) have "saves_mask f s AND NOT 1 = 0" by auto
  then obtain w c where get: "setjmp_cookie_get (random P) (saves_mask f s) (cookie s) = (Inr w, c)"
    by (simp add: setjmp_cookie_get_def Let_def)
  from setjmp_runs [OF assms(1,2) assms(3) [unfolded assms(4)] get assms(4)] assms(6)
  have "filled (mem s1) buf (w AND NOT 1) (mem s (esp s)) s" by auto
  then have "mem s1 (buf + 36) = checksum (mem s1) buf" by (simp add: filled_def)
  moreover have "i = j \<or> mem s2 (buf + j) = mem s1 (buf + j)" if "j \<in> {0, 4, 8, 12, 16, 20, 36}" for j
    using assms(13) that by blast
  note others = this [of 0] this [of 4] this [of 8] this [of 12] this [of 16] this [of 20] this [of 36]
  ultimately have sum: "mem s2 (buf + 36) \<noteq> checksum (mem s2) buf"
    using assms(11,12) by (elim insertE emptyE) (use others in \<open>simp_all add: checksum_def xor_cancel\<close>)
  from longjmp_wrong_checksum [OF assms(7-10) sum] assms(14) show ?thesis by auto
qed

theorem longjmp_detects_tampering_witness:
  "let s1 = snd (run_function sample_platform ''bionic_setjmp'' sample_cpu);
     s2 = sample_jump (s1\<lparr>mem := (mem s1)(0x10004 := mem s1 0x10004 + 1)\<rparr>)
   in fst (run_function sample_platform ''bionic_longjmp'' s2) = Inl (Aborted ''setjmp checksum mismatch'') \<and>
     blocked (snd (run_function sample_platform ''bionic_longjmp'' s2)) = 15"
proof -
  obtain r s1 where s1: "run_function sample_platform ''bionic_setjmp'' sample_cpu = (r, s1)" by (rule prod.exhaust)
  let ?s2 = "sample_jump (s1\<lparr>mem := (mem s1)(0x10004 := mem s1 0x10004 + 1)\<rparr>)"
  obtain q s3 where s3: "run_function sample_platform ''bionic_longjmp'' ?s2 = (q, s3)" by (rule prod.exhaust)
  have "mem ?s2 (0x10000 + 4) \<noteq> mem s1 (0x10000 + 4)" by (simp add: sample_jump_def)
  moreover have "\<forall>j \<in> {0, 4, 8, 12, 16, 20, 36} - {4}. mem ?s2 (0x10000 + j) = mem s1 (0x10000 + j)"
    by (auto simp: sample_jump_def)
  moreover have "0x10000 = mem sample_cpu (esp sample_cpu + 4)" "saves_mask ''bionic_setjmp'' sample_cpu \<in> {0, 1}"
    "stack_at sample_platform (esp sample_cpu)" "clear_of sample_platform (esp sample_cpu) 0x10000"
    "(4 :: u32) \<in> {0, 4, 8, 12, 16, 20, 36}" "0x10000 = mem ?s2 (esp ?s2 + 4)" "stack_at sample_platform (esp ?s2)"
    "clear_of sample_platform (esp ?s2) 0x10000" "blocked ?s2 = 15" by simp_all
  ultimately have "q = Inl (Aborted ''setjmp checksum mismatch'') \<and> blocked s3 = 15"
    using longjmp_detects_tampering [OF _ _ _ _ _ s1 _ _ _ _ _ _ _ s3] sample_machine(1,2) by metis
  then show ?thesis by (simp add: s1 s3)
qed

end
