(* ===== verification/Stat.thy ===== *)
theory Stat
  imports Prelude
begin

text \<open>
  File status (src/src/stat.cpp, src/src/stat.h) and file system status
  (src/src/statvfs.cpp, src/src/statvfs.h): structures that are copied field by field into
  bionic's layout of the architecture. A structure is the valuation of its fields; the layout
  gives each field its C integer type, to which an assignment converts.
\<close>

section \<open>C integer types and structures\<close>

datatype ctype = Signed nat | Unsigned nat

fun cast :: "ctype \<Rightarrow> int \<Rightarrow> int" where
  "cast (Signed n) v = signed_take_bit (n - 1) v"
| "cast (Unsigned n) v = take_bit n v"

fun in_ctype :: "ctype \<Rightarrow> int \<Rightarrow> bool" where
  "in_ctype (Signed n) v \<longleftrightarrow> - (2 ^ (n - 1)) \<le> v \<and> v < 2 ^ (n - 1)"
| "in_ctype (Unsigned n) v \<longleftrightarrow> 0 \<le> v \<and> v < 2 ^ n"

fun bits :: "ctype \<Rightarrow> nat" where
  "bits (Signed n) = n"
| "bits (Unsigned n) = n"

lemma cast_in: "in_ctype t (cast t v)"
  by (cases t) (simp_all add: signed_take_bit_int_less_exp signed_take_bit_int_greater_eq_minus_exp)

lemma cast_same: "in_ctype t v \<Longrightarrow> cast t v = v"
  by (cases t) (simp_all add: signed_take_bit_int_eq_self take_bit_int_eq_self)

lemma take_bit_cast: "n \<le> bits t \<Longrightarrow> 0 < bits t \<Longrightarrow> take_bit n (cast t v) = take_bit n v"
  by (cases t) (simp_all add: take_bit_signed_take_bit)

text \<open>A conversion by way of a type that is at least as wide is the conversion.\<close>

lemma cast_cast: "bits t \<le> bits u \<Longrightarrow> 0 < bits t \<Longrightarrow> cast t (cast u v) = cast t v"
proof (cases t)
  case (Signed n)
  assume "bits t \<le> bits u" "0 < bits t"
  with Signed have "take_bit n (cast u v) = take_bit n v" by (simp add: take_bit_cast)
  moreover have "signed_take_bit (n - 1) w = signed_take_bit (n - 1) (take_bit n w)" for w :: int
    using Signed \<open>0 < bits t\<close> by (cases n) (simp_all add: signed_take_bit_take_bit)
  ultimately show ?thesis using Signed by (metis cast.simps(1))
qed (simp add: take_bit_cast)

type_synonym cstruct = "string \<Rightarrow> int"
type_synonym layout = "(string \<times> ctype) list"

text \<open>The assignment of one field, converted on the way when the code casts the source.\<close>

type_synonym assign = "string \<times> ctype option \<times> string"

definition field_type :: "layout \<Rightarrow> string \<Rightarrow> ctype" where
  "field_type lay f = (case map_of lay f of Some t \<Rightarrow> t | None \<Rightarrow> Unsigned 0)"

fun assign_field :: "layout \<Rightarrow> cstruct \<Rightarrow> assign \<Rightarrow> cstruct \<Rightarrow> cstruct" where
  "assign_field lay info (g, via, f) result =
     result(g := cast (field_type lay g) (case via of None \<Rightarrow> info f | Some t \<Rightarrow> cast t (info f)))"

definition copy_struct :: "layout \<Rightarrow> assign list \<Rightarrow> cstruct \<Rightarrow> cstruct \<Rightarrow> cstruct" where
  "copy_struct lay asg info result = fold (assign_field lay info) asg result"

definition typed_struct :: "layout \<Rightarrow> cstruct \<Rightarrow> bool" where
  "typed_struct lay s \<longleftrightarrow> (\<forall>(f, t) \<in> set lay. in_ctype t (s f))"

lemma copy_other: "g \<notin> fst ` set asg \<Longrightarrow> copy_struct lay asg info result g = result g"
  by (induction asg arbitrary: result) (auto simp: copy_struct_def)

lemma copy_field:
  assumes "distinct (map fst asg)" and "(g, via, f) \<in> set asg"
  shows "copy_struct lay asg info result g =
    cast (field_type lay g) (case via of None \<Rightarrow> info f | Some t \<Rightarrow> cast t (info f))"
  using assms
proof (induction asg arbitrary: result)
  case (Cons a asg)
  show ?case
  proof (cases "a = (g, via, f)")
    case True
    with Cons.prems(1) copy_other [of g asg lay info] show ?thesis
      by (simp add: copy_struct_def)
  next
    case False
    with Cons.prems have "(g, via, f) \<in> set asg" "distinct (map fst asg)" by auto
    from Cons.IH [OF this(2,1)] show ?thesis by (simp add: copy_struct_def)
  qed
qed simp

lemma copy_typed:
  assumes "typed_struct lay result" and "distinct (map fst lay)" and "distinct (map fst asg)"
  shows "typed_struct lay (copy_struct lay asg info result)"
  unfolding typed_struct_def
proof safe
  fix g t
  assume g: "(g, t) \<in> set lay"
  with assms(2) have ty: "field_type lay g = t" by (simp add: field_type_def)
  show "in_ctype t (copy_struct lay asg info result g)"
  proof (cases "g \<in> fst ` set asg")
    case True
    then obtain via f where "(g, via, f) \<in> set asg" by force
    from copy_field [OF assms(3) this, where lay = lay] ty show ?thesis by (simp add: cast_in)
  next
    case False
    with copy_other [OF this] g assms(1) show ?thesis by (auto simp: typed_struct_def)
  qed
qed

section \<open>stat\<close>

text \<open>
  The structure of bionic's \<open><sys/stat.h>\<close> on each architecture, an array member by its elements.
  A \<open>timespec\<close> member is the host's own type and is assigned as a whole, a \<open>time_t\<close> and a
  \<open>long\<close>. On Apple and FreeBSD the host's members have other names.
\<close>

definition long_t :: "arch \<Rightarrow> ctype" where
  "long_t ar = (if is_lp64 ar then Signed 64 else Signed 32)"

definition ulong_t :: "arch \<Rightarrow> ctype" where
  "ulong_t ar = (if is_lp64 ar then Unsigned 64 else Unsigned 32)"

definition stat_layout :: "arch \<Rightarrow> layout" where
  "stat_layout ar =
     (case ar of
        X86_64 \<Rightarrow>
          [(''st_dev'', Unsigned 64), (''st_ino'', Unsigned 64), (''st_nlink'', Unsigned 64), (''st_mode'', Unsigned 32),
           (''st_uid'', Unsigned 32), (''st_gid'', Unsigned 32), (''__pad0'', Unsigned 32), (''st_rdev'', Unsigned 64),
           (''st_size'', Signed 64), (''st_blksize'', Signed 64), (''st_blocks'', Signed 64)]
      | Aarch64 \<Rightarrow>
          [(''st_dev'', Unsigned 64), (''st_ino'', Unsigned 64), (''st_mode'', Unsigned 32), (''st_nlink'', Unsigned 32),
           (''st_uid'', Unsigned 32), (''st_gid'', Unsigned 32), (''st_rdev'', Unsigned 64), (''__pad0'', Unsigned 64),
           (''st_size'', Signed 64), (''st_blksize'', Signed 32), (''__pad1'', Signed 32), (''st_blocks'', Signed 64)]
      | _ \<Rightarrow>
          [(''st_dev'', Unsigned 64), (''__pad0'', Unsigned 32), (''__st_ino'', Unsigned 32), (''st_mode'', Unsigned 32),
           (''st_nlink'', Unsigned 32), (''st_uid'', Unsigned 32), (''st_gid'', Unsigned 32), (''st_rdev'', Unsigned 64),
           (''__pad3'', Unsigned 32), (''st_size'', Signed 64), (''st_blksize'', Unsigned 32), (''st_blocks'', Unsigned 64),
           (''st_ino'', Unsigned 64)]) @
     [(''st_atim.tv_sec'', long_t ar), (''st_atim.tv_nsec'', long_t ar), (''st_mtim.tv_sec'', long_t ar),
      (''st_mtim.tv_nsec'', long_t ar), (''st_ctim.tv_sec'', long_t ar), (''st_ctim.tv_nsec'', long_t ar)] @
     (case ar of
        X86_64 \<Rightarrow> [(''__pad3[0]'', Signed 64), (''__pad3[1]'', Signed 64), (''__pad3[2]'', Signed 64)]
      | Aarch64 \<Rightarrow> [(''__pad2'', Unsigned 32), (''__pad3'', Unsigned 32)]
      | _ \<Rightarrow> [])"

definition stat_padding :: "string set" where
  "stat_padding = {''__pad0'', ''__pad1'', ''__pad2'', ''__pad3'', ''__pad3[0]'', ''__pad3[1]'', ''__pad3[2]''}"

definition stat_assigns :: "os \<Rightarrow> arch \<Rightarrow> assign list" where
  "stat_assigns os ar =
     [(''st_dev'', None, ''st_dev'')] @
     (if \<not> is_lp64 ar then [(''__st_ino'', None, if os = Linux then ''__st_ino'' else ''st_ino'')] else []) @
     [(''st_mode'', None, ''st_mode''), (''st_nlink'', None, ''st_nlink''), (''st_uid'', None, ''st_uid''),
      (''st_gid'', None, ''st_gid''), (''st_rdev'', None, ''st_rdev''), (''st_size'', None, ''st_size''),
      (''st_blksize'', Some (ulong_t ar), ''st_blksize''), (''st_blocks'', Some (Unsigned 64), ''st_blocks'')] @
     (if os = Linux then
       [(''st_atim.tv_sec'', None, ''st_atim.tv_sec''), (''st_atim.tv_nsec'', None, ''st_atim.tv_nsec''),
        (''st_mtim.tv_sec'', None, ''st_mtim.tv_sec''), (''st_mtim.tv_nsec'', None, ''st_mtim.tv_nsec''),
        (''st_ctim.tv_sec'', None, ''st_ctim.tv_sec''), (''st_ctim.tv_nsec'', None, ''st_ctim.tv_nsec'')]
      else
       [(''st_atim.tv_sec'', None, ''st_atimespec.tv_sec''), (''st_atim.tv_nsec'', None, ''st_atimespec.tv_nsec''),
        (''st_mtim.tv_sec'', None, ''st_mtimespec.tv_sec''), (''st_mtim.tv_nsec'', None, ''st_mtimespec.tv_nsec''),
        (''st_ctim.tv_sec'', None, ''st_ctimespec.tv_sec''), (''st_ctim.tv_nsec'', None, ''st_ctimespec.tv_nsec'')]) @
     [(''st_ino'', None, ''st_ino'')]"

definition from_host_stat :: "os \<Rightarrow> arch \<Rightarrow> cstruct \<Rightarrow> cstruct \<Rightarrow> cstruct" where
  "from_host_stat os ar = copy_struct (stat_layout ar) (stat_assigns os ar)"

text \<open>
  The three calls differ in the host function, which is given the zeroed host structure and
  returns its code and what it left there.
\<close>

definition zero_struct :: cstruct where
  "zero_struct = (\<lambda>_. 0)"

type_synonym 'w stat_host = "cstruct \<Rightarrow> 'w \<Rightarrow> (int \<times> cstruct) \<times> 'w"

definition stat :: "os \<Rightarrow> arch \<Rightarrow> (string \<Rightarrow> 'w stat_host) \<Rightarrow> string \<Rightarrow> cstruct \<Rightarrow> 'w \<Rightarrow> (int \<times> cstruct) \<times> 'w" where
  "stat os ar host path s w =
     (let ((ret, tmp), w) = host path zero_struct w in ((ret, from_host_stat os ar tmp s), w))"

definition fstat :: "os \<Rightarrow> arch \<Rightarrow> (int \<Rightarrow> 'w stat_host) \<Rightarrow> int \<Rightarrow> cstruct \<Rightarrow> 'w \<Rightarrow> (int \<times> cstruct) \<times> 'w" where
  "fstat os ar host fd s w =
     (let ((ret, tmp), w) = host fd zero_struct w in ((ret, from_host_stat os ar tmp s), w))"

definition lstat :: "os \<Rightarrow> arch \<Rightarrow> (string \<Rightarrow> 'w stat_host) \<Rightarrow> string \<Rightarrow> cstruct \<Rightarrow> 'w \<Rightarrow> (int \<times> cstruct) \<times> 'w" where
  "lstat os ar host path s w =
     (let ((ret, tmp), w) = host path zero_struct w in ((ret, from_host_stat os ar tmp s), w))"

section \<open>statvfs\<close>

text \<open>\<open>fsblkcnt_t\<close> and \<open>fsfilcnt_t\<close> are host types, whose type is a parameter.\<close>

definition vfs_layout :: "arch \<Rightarrow> ctype \<Rightarrow> ctype \<Rightarrow> layout" where
  "vfs_layout ar fsblkcnt_t fsfilcnt_t =
     [(''f_bsize'', ulong_t ar), (''f_frsize'', ulong_t ar), (''f_blocks'', fsblkcnt_t), (''f_bfree'', fsblkcnt_t),
      (''f_bavail'', fsblkcnt_t), (''f_files'', fsfilcnt_t), (''f_ffree'', fsfilcnt_t), (''f_favail'', fsfilcnt_t),
      (''f_fsid'', ulong_t ar), (''f_flag'', ulong_t ar), (''f_namemax'', ulong_t ar)] @
     (if is_lp64 ar then [(''__f_reserved[0]'', Unsigned 32), (''__f_reserved[1]'', Unsigned 32), (''__f_reserved[2]'', Unsigned 32),
        (''__f_reserved[3]'', Unsigned 32), (''__f_reserved[4]'', Unsigned 32), (''__f_reserved[5]'', Unsigned 32)] else [])"

definition vfs_assigns :: "assign list" where
  "vfs_assigns =
     [(''f_bsize'', None, ''f_bsize''), (''f_frsize'', None, ''f_frsize''), (''f_blocks'', None, ''f_blocks''),
      (''f_bfree'', None, ''f_bfree''), (''f_bavail'', None, ''f_bavail''), (''f_files'', None, ''f_files''),
      (''f_ffree'', None, ''f_ffree''), (''f_favail'', None, ''f_favail''), (''f_fsid'', None, ''f_fsid''),
      (''f_flag'', None, ''f_flag''), (''f_namemax'', None, ''f_namemax'')]"

definition statvfs :: "arch \<Rightarrow> ctype \<Rightarrow> ctype \<Rightarrow> (string \<Rightarrow> 'w stat_host) \<Rightarrow> string \<Rightarrow> cstruct \<Rightarrow> 'w \<Rightarrow>
    (int \<times> cstruct) \<times> 'w" where
  "statvfs ar blk fil host path buf w =
     (let ((ret, tmp), w) = host path zero_struct w in ((ret, copy_struct (vfs_layout ar blk fil) vfs_assigns tmp buf), w))"

section \<open>Properties\<close>

lemma stat_fields_once: "distinct (map fst (stat_layout ar))" "distinct (map fst (stat_assigns os ar))"
  by (cases ar; simp add: stat_layout_def stat_assigns_def)+

lemma vfs_fields_once: "distinct (map fst (vfs_layout ar blk fil))" "distinct (map fst vfs_assigns)"
  by (cases "is_lp64 ar"; simp add: vfs_layout_def vfs_assigns_def)+

lemma stat_via_wide:
  assumes "(g, Some u, f) \<in> set (stat_assigns os ar)"
  shows "bits (field_type (stat_layout ar) g) \<le> bits u \<and> 0 < bits (field_type (stat_layout ar) g)"
proof -
  have "list_all (\<lambda>(g, via, f). case via of None \<Rightarrow> True | Some u \<Rightarrow>
      bits (field_type (stat_layout ar) g) \<le> bits u \<and> 0 < bits (field_type (stat_layout ar) g)) (stat_assigns os ar)"
    by (cases ar) (simp_all add: stat_assigns_def field_type_def stat_layout_def ulong_t_def)
  with assms show ?thesis by (force simp: list_all_iff)
qed

lemma from_host_stat_field:
  assumes "(g, via, f) \<in> set (stat_assigns os ar)"
  shows "from_host_stat os ar info result g = cast (field_type (stat_layout ar) g) (info f)"
  unfolding from_host_stat_def copy_field [OF stat_fields_once(2) assms]
  using assms stat_via_wide [of g _ f os ar] by (auto simp: cast_cast split: option.split)



text \<open>
  A member the host reported reaches the guest unchanged when it is a value of the
  member's type in bionic's layout; all members of the structure but its padding are assigned.
\<close>

theorem stat_exact:
  assumes "stat os ar host path s w = ((ret, s'), w')" and "host path zero_struct w = ((r, info), w'')"
    and "(g, via, f) \<in> set (stat_assigns os ar)" and "in_ctype (field_type (stat_layout ar) g) (info f)"
  shows "s' g = info f \<and> ret = r \<and>
    fst ` set (stat_layout ar) - fst ` set (stat_assigns os ar) \<subseteq> stat_padding"
proof -
  from assms(1,2) have "s' = from_host_stat os ar info s" "ret = r" by (simp_all add: stat_def)
  moreover have "fst ` set (stat_layout ar) - fst ` set (stat_assigns os ar) \<subseteq> stat_padding"
    by (cases ar; cases "os = Linux") (auto simp: stat_layout_def stat_assigns_def stat_padding_def)
  ultimately show ?thesis using from_host_stat_field [OF assms(3)] cast_same [OF assms(4)] by simp
qed

theorem stat_exact_witness:
  "from_host_stat Apple X86_64 (zero_struct(''st_mtimespec.tv_sec'' := 1700000000)) zero_struct ''st_mtim.tv_sec'' =
     (zero_struct(''st_mtimespec.tv_sec'' := 1700000000)) ''st_mtimespec.tv_sec'' \<and> (0 :: int) = 0 \<and>
   fst ` set (stat_layout X86_64) - fst ` set (stat_assigns Apple X86_64) \<subseteq> stat_padding"
proof (rule stat_exact [where info = "zero_struct(''st_mtimespec.tv_sec'' := 1700000000)" and g = "''st_mtim.tv_sec''"
      and f = "''st_mtimespec.tv_sec''" and via = None])
  show "stat Apple X86_64 (\<lambda>path tmp w. ((0, tmp(''st_mtimespec.tv_sec'' := 1700000000)), w)) ''f'' zero_struct () =
    ((0, from_host_stat Apple X86_64 (zero_struct(''st_mtimespec.tv_sec'' := 1700000000)) zero_struct), ())"
    by (simp add: stat_def)
  show "(\<lambda>path tmp w. ((0, tmp(''st_mtimespec.tv_sec'' := 1700000000)), w)) ''f'' zero_struct () =
    ((0, zero_struct(''st_mtimespec.tv_sec'' := 1700000000)), ())" by simp
qed (simp_all add: stat_assigns_def field_type_def stat_layout_def long_t_def)

text \<open>
  A failed call still overwrites the guest's structure, with zeros: bionic leaves it as it
  was.
\<close>

lemma failed_stat_clears:
  "stat Linux X86_64 (\<lambda>path tmp w. ((- 1, tmp), w)) path (\<lambda>_. 5) w =
     ((- 1, from_host_stat Linux X86_64 zero_struct (\<lambda>_. 5)), w) \<and>
   from_host_stat Linux X86_64 zero_struct (\<lambda>_. 5) ''st_size'' = 0"
  by (simp add: stat_def from_host_stat_field [of "''st_size''" None "''st_size''"] stat_assigns_def
      field_type_def stat_layout_def zero_struct_def)

end
