(* ===== verification/System.thy ===== *)
theory System
  imports File_Misc Time Stat
begin

text \<open>
  The process and system calls of src/src/common.cpp that are neither files, sockets nor
  threads, with src/src/sysconf.cpp, src/src/sched.cpp and src/src/system_properties.cpp. Host
  calls are parameters over a host state \<open>'w\<close>.
\<close>

section \<open>sysconf\<close>

text \<open>\<open>defd\<close> says which of the macros guarded by \<open>#ifdef\<close> the host defines.\<close>

definition sysconf_rows :: "(string \<Rightarrow> bool) \<Rightarrow> (int \<times> string) list" where
  "sysconf_rows defd =
     [(0, ''_SC_ARG_MAX''), (1, ''_SC_BC_BASE_MAX''), (2, ''_SC_BC_DIM_MAX''), (3, ''_SC_BC_SCALE_MAX''),
      (4, ''_SC_BC_STRING_MAX''), (5, ''_SC_CHILD_MAX''), (6, ''_SC_CLK_TCK''), (7, ''_SC_COLL_WEIGHTS_MAX''),
      (8, ''_SC_EXPR_NEST_MAX''), (9, ''_SC_LINE_MAX''), (10, ''_SC_NGROUPS_MAX''), (11, ''_SC_OPEN_MAX'')] @
     (if defd ''_SC_PASS_MAX'' then [(12, ''_SC_PASS_MAX'')] else []) @
     [(13, ''_SC_2_C_BIND''), (14, ''_SC_2_C_DEV''), (16, ''_SC_2_CHAR_TERM''), (17, ''_SC_2_FORT_DEV''),
      (18, ''_SC_2_FORT_RUN''), (19, ''_SC_2_LOCALEDEF''), (20, ''_SC_2_SW_DEV''), (21, ''_SC_2_UPE''),
      (22, ''_SC_2_VERSION''), (23, ''_SC_JOB_CONTROL''), (24, ''_SC_SAVED_IDS''), (25, ''_SC_VERSION''),
      (26, ''_SC_RE_DUP_MAX''), (27, ''_SC_STREAM_MAX''), (28, ''_SC_TZNAME_MAX''), (29, ''_SC_XOPEN_CRYPT''),
      (30, ''_SC_XOPEN_ENH_I18N''), (31, ''_SC_XOPEN_SHM''), (32, ''_SC_XOPEN_VERSION''),
      (34, ''_SC_XOPEN_REALTIME''), (35, ''_SC_XOPEN_REALTIME_THREADS''), (36, ''_SC_XOPEN_LEGACY''),
      (37, ''_SC_ATEXIT_MAX''), (38, ''_SC_IOV_MAX''), (39, ''_SC_PAGESIZE''), (40, ''_SC_PAGE_SIZE''),
      (41, ''_SC_XOPEN_UNIX''), (46, ''_SC_AIO_LISTIO_MAX''), (47, ''_SC_AIO_MAX''),
      (48, ''_SC_AIO_PRIO_DELTA_MAX''), (49, ''_SC_DELAYTIMER_MAX''), (50, ''_SC_MQ_OPEN_MAX''),
      (51, ''_SC_MQ_PRIO_MAX''), (52, ''_SC_RTSIG_MAX''), (53, ''_SC_SEM_NSEMS_MAX''), (54, ''_SC_SEM_VALUE_MAX''),
      (55, ''_SC_SIGQUEUE_MAX''), (56, ''_SC_TIMER_MAX''), (57, ''_SC_ASYNCHRONOUS_IO''), (58, ''_SC_FSYNC''),
      (59, ''_SC_MAPPED_FILES''), (60, ''_SC_MEMLOCK''), (61, ''_SC_MEMLOCK_RANGE''),
      (62, ''_SC_MEMORY_PROTECTION''), (63, ''_SC_MESSAGE_PASSING''), (64, ''_SC_PRIORITIZED_IO''),
      (65, ''_SC_PRIORITY_SCHEDULING''), (66, ''_SC_REALTIME_SIGNALS''), (67, ''_SC_SEMAPHORES''),
      (68, ''_SC_SHARED_MEMORY_OBJECTS''), (69, ''_SC_SYNCHRONIZED_IO''), (70, ''_SC_TIMERS''),
      (71, ''_SC_GETGR_R_SIZE_MAX''), (72, ''_SC_GETPW_R_SIZE_MAX''), (73, ''_SC_LOGIN_NAME_MAX''),
      (74, ''_SC_THREAD_DESTRUCTOR_ITERATIONS''), (75, ''_SC_THREAD_KEYS_MAX''), (76, ''_SC_THREAD_STACK_MIN''),
      (77, ''_SC_THREAD_THREADS_MAX''), (78, ''_SC_TTY_NAME_MAX''), (79, ''_SC_THREADS''),
      (80, ''_SC_THREAD_ATTR_STACKADDR''), (81, ''_SC_THREAD_ATTR_STACKSIZE''),
      (82, ''_SC_THREAD_PRIORITY_SCHEDULING''), (83, ''_SC_THREAD_PRIO_INHERIT''),
      (84, ''_SC_THREAD_PRIO_PROTECT''), (85, ''_SC_THREAD_SAFE_FUNCTIONS''), (96, ''_SC_NPROCESSORS_CONF''),
      (97, ''_SC_NPROCESSORS_ONLN''), (98, ''_SC_PHYS_PAGES'')] @
     (if defd ''_SC_AVPHYS_PAGES'' then [(99, ''_SC_AVPHYS_PAGES'')] else []) @
     [(100, ''_SC_MONOTONIC_CLOCK'')]"

definition to_host_sysconf_id :: "(string \<Rightarrow> bool) \<Rightarrow> headers \<Rightarrow> int \<Rightarrow> int result" where
  "to_host_sysconf_id defd h arg =
     or_throw (guest_case h (sysconf_rows defd) arg) ''Unknown sysconf id %d'' [arg]"

definition sysconf :: "(string \<Rightarrow> bool) \<Rightarrow> headers \<Rightarrow> (int \<Rightarrow> 'w \<Rightarrow> int \<times> 'w) \<Rightarrow> int \<Rightarrow> ('w, int) act" where
  "sysconf defd h host name w =
     (case to_host_sysconf_id defd h name of Inl e \<Rightarrow> (Inl e, w)
      | Inr hid \<Rightarrow> let (r, w) = host hid w in (Inr r, w))"

text \<open>The identifiers of bionic that are known: all up to 0x64 but for three gaps.\<close>

definition sysconf_known :: "(string \<Rightarrow> bool) \<Rightarrow> int \<Rightarrow> bool" where
  "sysconf_known defd n \<longleftrightarrow> 0 \<le> n \<and> n \<le> 0x64 \<and> n \<noteq> 0xf \<and> n \<noteq> 0x21 \<and> \<not> (0x2a \<le> n \<and> n \<le> 0x2d) \<and>
     \<not> (0x56 \<le> n \<and> n \<le> 0x5f) \<and> \<not> (n = 0xc \<and> \<not> defd ''_SC_PASS_MAX'') \<and>
     \<not> (n = 0x63 \<and> \<not> defd ''_SC_AVPHYS_PAGES'')"

section \<open>Resource limits\<close>

record rlimit =
  rlim_cur :: int
  rlim_max :: int

definition to_host_rlimit_resource :: "headers \<Rightarrow> int \<Rightarrow> int result" where
  "to_host_rlimit_resource h r =
     or_throw (guest_case h [(7, ''RLIMIT_NOFILE'')] r) ''Unknown rlimit resource %d'' [r]"

text \<open>bionic's members are an \<open>unsigned long\<close> each.\<close>

definition getrlimit ::
  "arch \<Rightarrow> headers \<Rightarrow> (int \<Rightarrow> rlimit \<Rightarrow> 'w \<Rightarrow> (int \<times> rlimit) \<times> 'w) \<Rightarrow> int \<Rightarrow> ('w, int \<times> rlimit) act" where
  "getrlimit ar h host res w =
     (case to_host_rlimit_resource h res of Inl e \<Rightarrow> (Inl e, w)
      | Inr r \<Rightarrow>
          let ((ret, hinfo), w) = host r \<lparr>rlim_cur = 0, rlim_max = 0\<rparr> w in
          (Inr (ret, \<lparr>rlim_cur = cast (ulong_t ar) (rlim_cur hinfo), rlim_max = cast (ulong_t ar) (rlim_max hinfo)\<rparr>), w))"

definition getrusage :: int where
  "getrusage = - 1"

section \<open>Memory\<close>

text \<open>A pointer is its address; \<open>MAP_FAILED\<close> is the address with all bits set.\<close>

definition mmap ::
  "(string \<Rightarrow> bool) \<Rightarrow> headers \<Rightarrow> (u64 \<Rightarrow> u64 \<Rightarrow> int \<Rightarrow> u32 \<Rightarrow> int \<Rightarrow> int \<Rightarrow> 'w \<Rightarrow> u64 \<times> 'w) \<Rightarrow>
   u64 \<Rightarrow> u64 \<Rightarrow> int \<Rightarrow> u32 \<Rightarrow> int \<Rightarrow> int \<Rightarrow> ('w, u64) act" where
  "mmap defd h host addr len prot flags fd off w =
     (case to_host_mmap_flags defd h flags of Inl e \<Rightarrow> (Inl e, w)
      | Inr hflags \<Rightarrow> let (p, w) = host addr len prot hflags fd off w in (Inr p, w))"

definition mremap :: "u64" where
  "mremap = - 1"

definition memalign :: "(u64 \<Rightarrow> u64 \<Rightarrow> 'w \<Rightarrow> (int \<times> u64) \<times> 'w) \<Rightarrow> u64 \<Rightarrow> u64 \<Rightarrow> 'w \<Rightarrow> u64 \<times> 'w" where
  "memalign host_posix_memalign alignment sz w =
     (let ((r, ret), w) = host_posix_memalign alignment sz w in (if r \<noteq> 0 then 0 else ret, w))"

record mallinfo_t =
  arena :: u64
  ordblks :: u64
  smblks :: u64
  hblks :: u64
  hblkhd :: u64
  usmblks :: u64
  fsmblks :: u64
  uordblks :: u64
  fordblks :: u64
  keepcost :: u64

definition mallinfo :: mallinfo_t where
  "mallinfo = \<lparr>arena = 0, ordblks = 8000000, smblks = 0, hblks = 0, hblkhd = 0, usmblks = 8000000, fsmblks = 0,
     uordblks = 0, fordblks = 8000000, keepcost = 0\<rparr>"

section \<open>Process control\<close>

text \<open>\<open>setname\<close> is the host's \<open>pthread_setname_np\<close> for the calling thread.\<close>

definition prctl ::
  "os \<Rightarrow> headers \<Rightarrow> (int \<Rightarrow> u64 list \<Rightarrow> 'w \<Rightarrow> int \<times> 'w) \<Rightarrow> (u64 \<Rightarrow> 'w \<Rightarrow> int \<times> 'w) \<Rightarrow>
   int \<Rightarrow> u64 \<Rightarrow> u64 \<Rightarrow> u64 \<Rightarrow> u64 \<Rightarrow> 'w \<Rightarrow> int \<times> 'w" where
  "prctl os h host setname opt a2 a3 a4 a5 w =
     (if os = Linux then host opt [a2, a3, a4, a5] w
      else if opt = 15 then setname a2 w
      else (h ''EINVAL'', w))"

definition sched_setaffinity ::
  "os \<Rightarrow> (nat \<times> nat) option \<Rightarrow> (int \<Rightarrow> u64 \<Rightarrow> 'm \<Rightarrow> 'w \<Rightarrow> int \<times> 'w) \<Rightarrow> int \<Rightarrow> u64 \<Rightarrow> 'm \<Rightarrow> 'w \<Rightarrow> int \<times> 'w" where
  "sched_setaffinity os glibc host pid sz cpus w =
     (case glibc of
        Some (major, minor) \<Rightarrow>
          if os = Linux \<and> \<not> (major < 2 \<or> major = 2 \<and> minor < 42) then host pid sz cpus w else (0, w)
      | None \<Rightarrow> (0, w))"

definition sched_getaffinity ::
  "os \<Rightarrow> (int \<Rightarrow> u64 \<Rightarrow> 'm \<Rightarrow> 'w \<Rightarrow> int \<times> 'w) \<Rightarrow> int \<Rightarrow> u64 \<Rightarrow> 'm \<Rightarrow> 'w \<Rightarrow> int \<times> 'w" where
  "sched_getaffinity os host pid sz cpus w = (if os = Linux then host pid sz cpus w else (0, w))"

definition gettid :: "('w \<Rightarrow> int \<times> 'w) \<Rightarrow> 'w \<Rightarrow> int \<times> 'w" where
  "gettid host w = (let (tid, w) = host w in (cast (Signed 32) tid, w))"

text \<open>\<open>getrandom\<close> returns a length and the bytes it left in the buffer.\<close>

definition getrandom ::
  "os \<Rightarrow> (u64 \<Rightarrow> u32 \<Rightarrow> 'w \<Rightarrow> (int \<times> bytes) \<times> 'w) \<Rightarrow> (u64 \<Rightarrow> 'w \<Rightarrow> bytes \<times> 'w) \<Rightarrow> u64 \<Rightarrow> u32 \<Rightarrow> 'w \<Rightarrow>
   (int \<times> bytes) \<times> 'w" where
  "getrandom os host_syscall host_arc4random_buf len flags w =
     (if os = Linux then host_syscall len flags w
      else let (buf, w) = host_arc4random_buf len w in ((sint len, buf), w))"

text \<open>The system call numbers of src/src/fakesyscall.h.\<close>

fun FAKE_SYS_gettid :: "arch \<Rightarrow> int" where
  "FAKE_SYS_gettid I386 = 224"
| "FAKE_SYS_gettid Arm = 224"
| "FAKE_SYS_gettid X86_64 = 186"
| "FAKE_SYS_gettid Aarch64 = 178"

fun FAKE_SYS_getrandom :: "arch \<Rightarrow> int" where
  "FAKE_SYS_getrandom I386 = 355"
| "FAKE_SYS_getrandom Arm = 384"
| "FAKE_SYS_getrandom X86_64 = 318"
| "FAKE_SYS_getrandom Aarch64 = 278"

definition fakesyscall ::
  "arch \<Rightarrow> os \<Rightarrow> headers \<Rightarrow> ('w \<Rightarrow> int \<times> 'w) \<Rightarrow> (u64 \<Rightarrow> u32 \<Rightarrow> 'w \<Rightarrow> (int \<times> bytes) \<times> 'w) \<Rightarrow>
   (u64 \<Rightarrow> 'w \<Rightarrow> bytes \<times> 'w) \<Rightarrow> int \<Rightarrow> u64 \<Rightarrow> u32 \<Rightarrow> 'w \<Rightarrow> (int \<times> bytes) \<times> 'w" where
  "fakesyscall ar os h host_gettid host_syscall host_arc4random_buf sysno len flags w =
     (if sysno = FAKE_SYS_gettid ar then (let (r, w) = gettid host_gettid w in ((r, []), w))
      else if sysno = FAKE_SYS_getrandom ar then getrandom os host_syscall host_arc4random_buf len flags w
      else ((h ''ENOSYS'', []), w))"

text \<open>
  An unknown system call yields the positive error number, not -1 with \<open>errno\<close> set.
\<close>

lemma unknown_syscall_positive:
  "fakesyscall X86_64 os h g s a 1 len flags w = ((h ''ENOSYS'', []), w)"
  by (simp add: fakesyscall_def)

section \<open>Aborting\<close>

text \<open>
  \<open>stack_chk_guard\<close>: the first bytes behind \<open>AT_RANDOM\<close> of the auxiliary vector, as many as a
  pointer has, or 0 where there is no such vector.
\<close>

definition stack_chk_guard :: "os \<Rightarrow> arch \<Rightarrow> bytes \<Rightarrow> nat result" where
  "stack_chk_guard os ar at_random =
     (if os = Linux then load_le at_random 0 (if is_lp64 ar then 8 else 4) else Inr 0)"

text \<open>
  \<open>handle_runtime_error\<close> formats its message into 255 bytes, prints it and throws; the state is
  what was written to \<open>stderr\<close>, \<open>format\<close> the host's \<open>vsnprintf\<close> on a large enough buffer. In the
  other components the exception is the value \<open>Runtime_error\<close> and the output is left out.
\<close>

definition runtime_error_what :: "(string \<Rightarrow> int list \<Rightarrow> string) \<Rightarrow> string \<Rightarrow> int list \<Rightarrow> string" where
  "runtime_error_what format fmt args = take 254 (format fmt args)"

definition handle_runtime_error ::
  "(string \<Rightarrow> int list \<Rightarrow> string) \<Rightarrow> string \<Rightarrow> int list \<Rightarrow> (string, 'a) act" where
  "handle_runtime_error format fmt args err =
     (Inl (Runtime_error fmt args),
      err @ ''libc-shim runtime error: '' @ runtime_error_what format fmt args @ [CHR 0x0A] @ ''s'')"

definition android_set_abort_message :: "string \<Rightarrow> (string, unit) act" where
  "android_set_abort_message msg err = (Inr (), err @ ''abort message: '' @ msg @ [CHR 0x0A])"

text \<open>\<open>isnan\<close> on the bits of a double: the largest exponent and a fraction other than zero.\<close>

definition isnan :: "u64 \<Rightarrow> int" where
  "isnan d = (if take_bit 11 (drop_bit 52 d) = 0x7ff \<and> take_bit 52 d \<noteq> 0 then 1 else 0)"

definition on_stack_chk_fail :: "('s, 'a) act" where
  "on_stack_chk_fail = liftA (Inl (Aborted ''stack corruption has been detected''))"

definition assert_impl :: "('s, 'a) act" where
  "assert_impl = liftA (Inl (Aborted ''assert failed: %s:%i: %s''))"

definition assert2_impl :: "('s, 'a) act" where
  "assert2_impl = liftA (Inl (Aborted ''assert failed: %s:%i %s: %s''))"

section \<open>Files\<close>

text \<open>
  \<open>unlinkat\<close> rewrites its path and publishes the error number itself. The host's \<open>utimensat\<close>
  may be missing on old macOS. The guard against that, \<open>if(!utimensat)\<close>, stands in a function
  of namespace \<open>shim\<close>, where the name is the function's own: it is never null, the early
  return of 0 is dead, and a missing host function is called through a null pointer.
\<close>

definition unlinkat ::
  "os \<Rightarrow> headers \<Rightarrow> path_rule list \<Rightarrow> (int \<Rightarrow> string \<Rightarrow> int \<Rightarrow> 'w \<times> errno_state \<Rightarrow> int \<times> 'w \<times> errno_state) \<Rightarrow>
   int \<Rightarrow> string option \<Rightarrow> int \<Rightarrow> ('w \<times> errno_state, int) act" where
  "unlinkat os h rules host dirfd pathname flags =
     with_update_errno os h (host dirfd (iorewrite0 rules pathname) flags)"

definition utimensat ::
  "os \<Rightarrow> bool \<Rightarrow> (int \<Rightarrow> string \<Rightarrow> timespec \<times> timespec \<Rightarrow> int \<Rightarrow> 'w \<Rightarrow> int \<times> 'w) \<Rightarrow>
   int \<Rightarrow> string \<Rightarrow> timespec \<times> timespec \<Rightarrow> int \<Rightarrow> ('w, int) act" where
  "utimensat os symbol_missing host dirfd path tms flags w =
     (if os = Apple \<and> symbol_missing then (Inl Memory_fault, w)
      else let (r, w) = host dirfd path tms flags w in (Inr r, w))"

text \<open>
  The checked calls of unistd pass their arguments on to the host and ignore the size of
  the object. So do \<open>__recvfrom_chk\<close> and \<open>__sendto_chk\<close>: neither the flags nor the address
  \<open>'a\<close> are translated, as they are in \<open>recvfrom\<close> and \<open>sendto\<close> of Socket_Calls.
\<close>

definition read_chk :: "(int \<Rightarrow> u64 \<Rightarrow> 'w \<Rightarrow> (int \<times> bytes) \<times> 'w) \<Rightarrow> int \<Rightarrow> u64 \<Rightarrow> u64 \<Rightarrow> 'w \<Rightarrow> (int \<times> bytes) \<times> 'w" where
  "read_chk host fd count buf_size w = host fd count w"

definition write_chk :: "(int \<Rightarrow> bytes \<Rightarrow> u64 \<Rightarrow> 'w \<Rightarrow> int \<times> 'w) \<Rightarrow> int \<Rightarrow> bytes \<Rightarrow> u64 \<Rightarrow> u64 \<Rightarrow> 'w \<Rightarrow> int \<times> 'w" where
  "write_chk host fd buf count buf_size w = host fd buf count w"

definition recvfrom_chk ::
  "(int \<Rightarrow> u64 \<Rightarrow> int \<Rightarrow> 'a \<Rightarrow> 'w \<Rightarrow> (int \<times> bytes \<times> 'a) \<times> 'w) \<Rightarrow> int \<Rightarrow> u64 \<Rightarrow> u64 \<Rightarrow> int \<Rightarrow> 'a \<Rightarrow> 'w \<Rightarrow>
   (int \<times> bytes \<times> 'a) \<times> 'w" where
  "recvfrom_chk host socket len buf_size flags addr w = host socket len flags addr w"

definition sendto_chk ::
  "(int \<Rightarrow> bytes \<Rightarrow> u64 \<Rightarrow> int \<Rightarrow> 'a \<Rightarrow> u32 \<Rightarrow> 'w \<Rightarrow> int \<times> 'w) \<Rightarrow> int \<Rightarrow> bytes \<Rightarrow> u64 \<Rightarrow> u64 \<Rightarrow> int \<Rightarrow> 'a \<Rightarrow> u32 \<Rightarrow> 'w \<Rightarrow>
   int \<times> 'w" where
  "sendto_chk host socket buf len buflen flags addr addrlen w = host socket buf len flags addr addrlen w"

text \<open>\<open>fdatasync\<close> is the shim's on Apple only, \<open>__cmsg_nxthdr\<close> on Apple and FreeBSD.\<close>

definition fdatasync :: "headers \<Rightarrow> (int \<Rightarrow> int \<Rightarrow> 'w \<Rightarrow> int \<times> 'w) \<Rightarrow> int \<Rightarrow> 'w \<Rightarrow> int \<times> 'w" where
  "fdatasync h host_fcntl fildes w = host_fcntl fildes (h ''F_FULLFSYNC'') w"

definition cmsg_nxthdr :: int where
  "cmsg_nxthdr = 0"

text \<open>
  \<open>_lseek64\<close>, which the table binds as \<open>lseek64\<close>, passes its arguments on; \<open>stub\<close> stands for
  functions the shim names but does not have.
\<close>

definition lseek64 :: "(int \<Rightarrow> int \<Rightarrow> int \<Rightarrow> 'w \<Rightarrow> int \<times> 'w) \<Rightarrow> int \<Rightarrow> int \<Rightarrow> int \<Rightarrow> 'w \<Rightarrow> int \<times> 'w" where
  "lseek64 host fd off dir w = host fd off dir w"

definition stub :: "('s, 'a) act" where
  "stub = liftA (Inl (Aborted []))"

text \<open>\<open>MB_CUR_MAX\<close> is a call into the host's locale.\<close>

definition ctype_get_mb_cur_max :: "('w \<Rightarrow> u64 \<times> 'w) \<Rightarrow> 'w \<Rightarrow> u64 \<times> 'w" where
  "ctype_get_mb_cur_max host_mb_cur_max w = host_mb_cur_max w"

text \<open>On 32-bit systems bionic's offsets have 32 bits and are widened.\<close>

definition ftruncate32 :: "(int \<Rightarrow> int \<Rightarrow> 'w \<Rightarrow> int \<times> 'w) \<Rightarrow> int \<Rightarrow> u32 \<Rightarrow> 'w \<Rightarrow> int \<times> 'w" where
  "ftruncate32 host fd len w = host fd (sint len) w"

definition pread32 :: "(int \<Rightarrow> u32 \<Rightarrow> int \<Rightarrow> 'w \<Rightarrow> (int \<times> bytes) \<times> 'w) \<Rightarrow> int \<Rightarrow> u32 \<Rightarrow> u32 \<Rightarrow> 'w \<Rightarrow> (int \<times> bytes) \<times> 'w" where
  "pread32 host fd len off w = host fd len (sint off) w"

definition pwrite32 :: "(int \<Rightarrow> bytes \<Rightarrow> int \<Rightarrow> 'w \<Rightarrow> int \<times> 'w) \<Rightarrow> int \<Rightarrow> bytes \<Rightarrow> u32 \<Rightarrow> 'w \<Rightarrow> int \<times> 'w" where
  "pwrite32 host fd buf off w = host fd buf (sint off) w"

text \<open>
  \<open>sendfile\<close>: \<open>offset\<close> is the address of the guest's offset, null for none, and \<open>stored\<close> what
  it points to; the result has the value it points to afterwards. The code converts the
  pointer itself to the offset.
\<close>

record 'w sendfile_host =
  h_fstat_size :: "int \<Rightarrow> 'w \<Rightarrow> int option \<times> 'w"
  h_sendfile_apple :: "int \<Rightarrow> int \<Rightarrow> int \<Rightarrow> int \<Rightarrow> 'w \<Rightarrow> (int \<times> int) \<times> 'w"
  h_sendfile_bsd :: "int \<Rightarrow> int \<Rightarrow> int \<Rightarrow> u64 \<Rightarrow> 'w \<Rightarrow> int \<times> 'w"
  h_sendfile_linux :: "int \<Rightarrow> int \<Rightarrow> int option \<Rightarrow> u64 \<Rightarrow> 'w \<Rightarrow> (int \<times> int) \<times> 'w"

definition sendfile ::
  "os \<Rightarrow> 'w sendfile_host \<Rightarrow> int \<Rightarrow> int \<Rightarrow> u64 \<Rightarrow> int \<Rightarrow> u64 \<Rightarrow> 'w \<Rightarrow> (int \<times> int) \<times> 'w" where
  "sendfile os H src dst offset stored count w =
     (let c = (if offset \<noteq> 0 then sint offset else 0);
          finish = (\<lambda>ret c w. ((ret, if offset \<noteq> 0 then c else stored), w)) in
      case os of
        Apple \<Rightarrow>
          (let (st, w) = h_fstat_size H dst w in
           case st of None \<Rightarrow> ((- 1, stored), w)
           | Some st_size \<Rightarrow>
               let remaining = st_size - c;
                   len = (if count = - 1 then remaining else if sint count > remaining then remaining else sint count);
                   ((ret, len), w) = h_sendfile_apple H dst src c len w in
               finish ret (c + len) w)
      | FreeBSD \<Rightarrow> (let (ret, w) = h_sendfile_bsd H src dst c count w in finish ret c w)
      | Linux \<Rightarrow>
          (let ((ret, c'), w) = h_sendfile_linux H src dst (if offset \<noteq> 0 then Some c else None) count w in
           finish ret c' w))"

text \<open>What the guest stored there plays no part, the address does.\<close>

lemma sendfile_reads_address:
  "offset \<noteq> 0 \<Longrightarrow> sendfile Linux H src dst offset stored count w =
     (let ((ret, c), w) = h_sendfile_linux H src dst (Some (sint offset)) count w in ((ret, c), w))"
  by (simp add: sendfile_def Let_def)

section \<open>System properties\<close>

text \<open>
  There are none: a lookup finds nothing, \<open>__system_property_get\<close> stores the empty string,
  and a read calls back, if there is a callback, with an empty name and value.
\<close>

definition system_property_find :: "string \<Rightarrow> nat" where
  "system_property_find name = 0"

definition system_property_get :: "string \<Rightarrow> bytes \<Rightarrow> (int \<times> bytes) result" where
  "system_property_get name v = bindR (store1 v 0 0) (\<lambda>v. Inr (0, v))"

definition system_property_read_callback ::
  "('c \<Rightarrow> string \<Rightarrow> string \<Rightarrow> u32 \<Rightarrow> 'w \<Rightarrow> 'w) option \<Rightarrow> 'c \<Rightarrow> 'w \<Rightarrow> 'w" where
  "system_property_read_callback callback cookie w =
     (case callback of None \<Rightarrow> w | Some f \<Rightarrow> f cookie [] [] 0 w)"

lemma system_property_get_empty:
  "v \<noteq> [] \<Longrightarrow> \<exists>v'. system_property_get name v = Inr (0, v') \<and> c_str v' = [] \<and> length v' = length v"
  by (cases v) (simp_all add: system_property_get_def store1_def c_str_def)

section \<open>Properties\<close>

lemma sysconf_row_ids:
  "map fst (sysconf_rows defd) = 0 # 1 # [2..11] @ (if defd ''_SC_PASS_MAX'' then [12] else []) @ [13, 14] @ [16..32] @ [34..41] @
     [46..85] @ [96..98] @ (if defd ''_SC_AVPHYS_PAGES'' then [99] else []) @ [100]"
  by (cases "defd ''_SC_PASS_MAX''"; cases "defd ''_SC_AVPHYS_PAGES''") (simp_all add: sysconf_rows_def upto_rec_numeral)

lemma sysconf_ids: "name \<in> set (map fst (sysconf_rows defd)) \<longleftrightarrow> sysconf_known defd name"
proof -
  have "sysconf_known defd name \<longleftrightarrow> name = 0 \<or> name = 1 \<or> 2 \<le> name \<and> name \<le> 11 \<or> name = 12 \<and> defd ''_SC_PASS_MAX'' \<or> name = 13 \<or>
      name = 14 \<or> 16 \<le> name \<and> name \<le> 32 \<or> 34 \<le> name \<and> name \<le> 41 \<or> 46 \<le> name \<and> name \<le> 85 \<or>
      96 \<le> name \<and> name \<le> 98 \<or> name = 99 \<and> defd ''_SC_AVPHYS_PAGES'' \<or> name = 100"
    unfolding sysconf_known_def by (cases "defd ''_SC_PASS_MAX''"; cases "defd ''_SC_AVPHYS_PAGES''"; simp only: simp_thms; presburger)
  then show ?thesis
    unfolding sysconf_row_ids by (cases "defd ''_SC_PASS_MAX''"; cases "defd ''_SC_AVPHYS_PAGES''")
      (simp_all only: list.set set_append set_upto Un_iff insert_iff atLeastAtMost_iff empty_iff if_True if_False simp_thms disj_assoc)
qed

text \<open>
  \<open>sysconf\<close> asks the host for the translated identifier exactly when the identifier is
  one of bionic's up to 0x64 outside the gaps (0xc and 0x63 only where the host has them),
  and throws for every other integer without asking the host.
\<close>

theorem sysconf_total:
  "sysconf defd h host name w =
     (if sysconf_known defd name then (let (r, w) = host (h (the (map_of (sysconf_rows defd) name))) w in (Inr r, w))
      else (Inl (Runtime_error ''Unknown sysconf id %d'' [name]), w))"
proof -
  have "name \<in> fst ` set (sysconf_rows defd) \<longleftrightarrow> name \<in> set (map fst (sysconf_rows defd))" by simp
  also have "\<dots> \<longleftrightarrow> sysconf_known defd name" by (rule sysconf_ids)
  finally show ?thesis
    using map_of_eq_None_iff [of "sysconf_rows defd" name]
    by (cases "map_of (sysconf_rows defd) name") (simp_all add: sysconf_def to_host_sysconf_id_def guest_case_def)
qed

text \<open>No two identifiers ask for the same host limit, but \<open>_SC_PAGESIZE\<close> has two names.\<close>

lemma sysconf_macros_once: "distinct (map snd (sysconf_rows defd))"
  by (cases "defd ''_SC_PASS_MAX''"; cases "defd ''_SC_AVPHYS_PAGES''") (simp_all add: sysconf_rows_def)

end
