(* ===== verification/Symbols.thy ===== *)
theory Symbols
  imports Errno Path_Rewrite
begin

text \<open>
  The table of symbols the shim offers to the loader of Android binaries: every
  \<open>add_..._shimmed_symbols\<close> function and \<open>get_shimmed_symbols\<close> (src/src/common.cpp). An entry
  binds a name to a function of the host, of the shim, to one of them inside wrappers, or to
  a stub.
\<close>

section \<open>Bindings\<close>

text \<open>
  \<open>Host f\<close> is the host's function, \<open>Shim f\<close> one of this repository, with \<open>Host_data\<close> and
  \<open>Shim_data\<close> the address of a variable and \<open>Host_data_value\<close> the value of one;
  \<open>Errno_update\<close> is the wrapper of \<open>WithErrnoUpdate\<close>, \<open>Io_rewrite1\<close> and \<open>Io_rewrite2\<close> are
  \<open>IOREWRITE1\<close> and \<open>IOREWRITE2\<close>, \<open>Arg_rewritten\<close> is \<open>arg_rewrite_helper\<close>, \<open>Armhf\<close> the
  calling convention adapter of src/src/armhfrewrite.h. \<open>Returns r\<close> is a lambda that returns a
  constant, \<open>Returns_nothing\<close> one without a value, \<open>Aborts\<close> the function \<open>stub\<close>.
\<close>

datatype binding =
    Host string
  | Shim string
  | Host_data string
  | Shim_data string
  | Host_data_value string
  | Errno_update binding
  | Io_rewrite1 binding
  | Io_rewrite2 binding
  | Arg_rewritten binding
  | Armhf binding
  | Returns int
  | Returns_nothing
  | Aborts

type_synonym symbols = "(string \<times> binding) list"

text \<open>
  What the preprocessor and overload resolution see: the host, the guest's architecture,
  whether variadic functions can be bound (src/src/variadic.h), whether the host has
  \<open>arc4random_buf\<close>, and \<open>USE_BIONIC_SETJMP\<close>.
\<close>

record platform =
  p_os :: os
  p_arch :: arch
  variadic :: bool
  has_arc4random_buf :: bool
  bionic_setjmp :: bool

definition errno_update :: "platform \<Rightarrow> binding \<Rightarrow> binding" where
  "errno_update p b = (if p_os p = Apple then Errno_update b else b)"

definition armhf :: "platform \<Rightarrow> binding \<Rightarrow> binding" where
  "armhf p b = (if p_arch p = Arm then Armhf b else b)"

text \<open>
  Most entries bind a name to the function of that name. An unqualified name is the shim's
  function where the shim declares one, and the host's otherwise. A name with a leading \<open>::\<close>
  is the host's, but for the three checked functions \<open>__memset_chk\<close>, \<open>__vsnprintf_chk\<close> and
  \<open>__snprintf_chk\<close>: with src/src/no-fortify.h the host declares none of that name, and the
  lookup finds the shim's through \<open>using namespace shim\<close>.
\<close>

abbreviation host_fn :: "string \<Rightarrow> string \<times> binding" where "host_fn n \<equiv> (n, Host n)"
abbreviation shim_fn :: "string \<Rightarrow> string \<times> binding" where "shim_fn n \<equiv> (n, Shim n)"
abbreviation rewritten_fn :: "string \<Rightarrow> string \<times> binding" where "rewritten_fn n \<equiv> (n, Arg_rewritten (Host n))"

abbreviation errno_host :: "platform \<Rightarrow> string \<Rightarrow> string \<times> binding" where
  "errno_host p n \<equiv> (n, errno_update p (Host n))"

abbreviation errno_shim :: "platform \<Rightarrow> string \<Rightarrow> string \<times> binding" where
  "errno_shim p n \<equiv> (n, errno_update p (Shim n))"

section \<open>The tables\<close>

definition add_common_shimmed_symbols :: "platform \<Rightarrow> symbols" where
  "add_common_shimmed_symbols p =
     [(''__errno'', Shim ''bionic::get_errno''), (''__set_errno'', Shim ''bionic::set_errno''),
      (''__stack_chk_fail'', Shim ''bionic::on_stack_chk_fail''),
      (''__stack_chk_guard'', Shim_data ''bionic::stack_chk_guard''), (''__assert'', Shim ''assert_impl''),
      (''__assert2'', Shim ''assert2_impl''), shim_fn ''android_set_abort_message'', host_fn ''__cxa_atexit'',
      host_fn ''__cxa_finalize'', host_fn ''setpriority'']"

definition add_stdlib_shimmed_symbols :: "platform \<Rightarrow> symbols" where
  "add_stdlib_shimmed_symbols p =
     [host_fn ''abort'', host_fn ''atexit'', host_fn ''exit'', host_fn ''_Exit'', host_fn ''system'',
      host_fn ''getenv'', errno_host p ''putenv'', errno_host p ''setenv'', errno_host p ''unsetenv'',
      host_fn ''random'', host_fn ''srandom'', host_fn ''initstate'', errno_host p ''setstate'', host_fn ''rand'',
      host_fn ''srand'', host_fn ''rand_r'', host_fn ''drand48'', host_fn ''erand48'', host_fn ''lrand48'',
      host_fn ''nrand48'', host_fn ''mrand48'', host_fn ''jrand48'', host_fn ''srand48'', host_fn ''seed48'',
      host_fn ''lcong48''] @
     (if p_arch p = Arm \<and> p_os p = Linux then [(''isnanf'', armhf p (Host ''isnanf''))] else []) @
     [(''isnan'', armhf p (Shim ''isnan'')), (''atof'', armhf p (Host ''atof'')), host_fn ''atoi'',
      host_fn ''atol'', host_fn ''atoll'', (''strtod'', armhf p (errno_update p (Host ''strtod''))),
      (''strtof'', armhf p (errno_update p (Host ''strtof''))),
      (''strtold'', armhf p (errno_update p (Host ''strtold''))), errno_host p ''strtol'',
      errno_host p ''strtoul'', errno_host p ''strtoul_l'', errno_host p ''strtoq'', errno_host p ''strtouq'',
      errno_host p ''strtoll'', errno_host p ''strtoll_l'', errno_host p ''strtoull'', errno_host p ''strtoull_l'',
      (''strtof_l'', armhf p (errno_update p (Host ''strtof_l''))),
      (''strtold_l'', armhf p (errno_update p (Host ''strtold_l''))), errno_host p ''strtoumax'',
      errno_host p ''strtoimax'', host_fn ''realpath'', host_fn ''bsearch'', host_fn ''qsort'', host_fn ''mblen'',
      host_fn ''mbtowc'', host_fn ''wctomb'', host_fn ''mbstowcs'', host_fn ''wcstombs'', host_fn ''wcsrtombs'']"

definition add_malloc_shimmed_symbols :: "platform \<Rightarrow> symbols" where
  "add_malloc_shimmed_symbols p =
     [host_fn ''malloc''] @
     (if p_os p = Apple then [(''malloc_usable_size'', Host ''malloc_size'')] else [host_fn ''malloc_usable_size'']) @
     [shim_fn ''mallinfo'', host_fn ''free'', host_fn ''calloc'', host_fn ''realloc'', host_fn ''valloc'',
      shim_fn ''memalign'', host_fn ''posix_memalign'', (''_Znwj'', Host ''operator new''),
      (''_ZdlPv'', Host ''operator delete'')]"

definition add_ctype_shimmed_symbols :: "platform \<Rightarrow> symbols" where
  "add_ctype_shimmed_symbols p =
     [(''_tolower_tab_'', Shim_data ''_tolower_tab_''), (''_toupper_tab_'', Shim_data ''_toupper_tab_''),
      (''_ctype_'', Shim_data ''_ctype_''), shim_fn ''isalnum'', shim_fn ''isalpha'', shim_fn ''isblank'',
      shim_fn ''iscntrl'', shim_fn ''isdigit'', shim_fn ''isgraph'', shim_fn ''islower'', shim_fn ''isprint'',
      shim_fn ''ispunct'', shim_fn ''isspace'', shim_fn ''isupper'', shim_fn ''isxdigit'', host_fn ''isascii'',
      host_fn ''isxdigit_l'', (''isdigit_l'', Host ''isxdigit_l''), host_fn ''tolower'', host_fn ''toupper'',
      (''__ctype_get_mb_cur_max'', Shim ''ctype_get_mb_cur_max'')]"

definition add_math_shimmed_symbols :: "platform \<Rightarrow> symbols" where
  "add_math_shimmed_symbols p =
     (if p_arch p = I386 \<or> p_arch p = Arm then [host_fn ''__umoddi3'', host_fn ''__udivdi3'', host_fn ''__divdi3''] else []) @
     [(''ldexp'', armhf p (Host ''ldexp''))]"

definition add_time_shimmed_symbols :: "platform \<Rightarrow> symbols" where
  "add_time_shimmed_symbols p =
     [shim_fn ''gettimeofday'', host_fn ''clock'', host_fn ''time'', host_fn ''difftime'', host_fn ''mktime'',
      host_fn ''strftime'', host_fn ''strptime'', host_fn ''strftime_l'', host_fn ''strptime_l'',
      host_fn ''gmtime'', host_fn ''gmtime_r'', host_fn ''localtime'', host_fn ''localtime_r'',
      host_fn ''asctime'', host_fn ''ctime'', host_fn ''asctime_r'', host_fn ''ctime_r'',
      (''tzname'', Host_data ''tzname''), host_fn ''tzset''] @
     (if \<not> has_arc4random_buf p then [shim_fn ''arc4random_buf''] else [host_fn ''arc4random_buf'']) @
     (if p_os p \<noteq> FreeBSD then [(''daylight'', Host_data ''daylight'')] else []) @
     [(''timezone'', Host_data ''timezone''), host_fn ''nanosleep'', shim_fn ''clock_gettime'',
      (''clock_getres'', Shim ''my_clock_getres'')]"

definition add_wait_shimmed_symbols :: "platform \<Rightarrow> symbols" where
  "add_wait_shimmed_symbols p =
     [host_fn ''waitpid'']"

definition add_sched_shimmed_symbols :: "platform \<Rightarrow> symbols" where
  "add_sched_shimmed_symbols p =
     [host_fn ''sched_yield'', shim_fn ''sched_setaffinity'', shim_fn ''sched_getaffinity'']"

definition add_unistd_shimmed_symbols :: "platform \<Rightarrow> symbols" where
  "add_unistd_shimmed_symbols p =
     [(''access'', errno_update p (Io_rewrite1 (Host ''access''))), errno_host p ''lseek'',
      (''lseek64'', errno_update p (Shim ''_lseek64'')), errno_host p ''close'', errno_host p ''read'',
      shim_fn ''__read_chk'', shim_fn ''__write_chk'', shim_fn ''__recvfrom_chk'', shim_fn ''__sendto_chk'',
      errno_host p ''write'', errno_host p ''pipe'', errno_host p ''alarm'', errno_host p ''sleep'',
      errno_host p ''usleep'', errno_host p ''pause'', (''chown'', errno_update p (Io_rewrite1 (Host ''chown''))),
      errno_host p ''fchown'', (''lchown'', errno_update p (Io_rewrite1 (Host ''lchown''))),
      (''chdir'', errno_update p (Io_rewrite1 (Host ''chdir''))), errno_host p ''fchdir'', errno_host p ''getcwd'',
      errno_host p ''dup'', errno_host p ''dup2'', errno_host p ''execv'', host_fn ''execle'', host_fn ''execl'',
      host_fn ''execvp'', host_fn ''execlp'', errno_host p ''nice'', host_fn ''_exit'', host_fn ''getchar'',
      errno_host p ''getuid'', errno_host p ''getpid'', errno_host p ''getgid'', errno_host p ''getppid'',
      errno_host p ''getpgrp'', errno_host p ''geteuid'', errno_host p ''getegid'', errno_host p ''fork'',
      errno_host p ''vfork'', errno_host p ''isatty'', (''link'', errno_update p (Io_rewrite2 (Host ''link''))),
      (''symlink'', errno_update p (Io_rewrite2 (Host ''symlink''))), errno_host p ''readlink'',
      (''unlink'', errno_update p (Io_rewrite1 (Host ''unlink''))), shim_fn ''unlinkat'',
      (''rmdir'', errno_update p (Io_rewrite1 (Host ''rmdir''))), errno_host p ''gethostname'',
      errno_host p ''fsync'', errno_host p ''sync'', host_fn ''getpagesize'', host_fn ''getdtablesize''] @
     (if variadic p then [(''syscall'', Shim ''fakesyscall'')] else []) @
     [shim_fn ''getrandom'', shim_fn ''gettid'', host_fn ''sched_get_priority_min'',
      host_fn ''sched_get_priority_max'', errno_host p ''lockf'', host_fn ''swab'', host_fn ''pathconf'',
      host_fn ''truncate'',
      (''fdatasync'', errno_update p ((if p_os p = Apple then Shim ''fdatasync'' else Host ''fdatasync''))),
      (''ftruncate'', errno_update p ((if \<not> is_lp64 (p_arch p) then Shim ''ftruncate'' else Host ''ftruncate''))),
      (''pread'', errno_update p ((if \<not> is_lp64 (p_arch p) then Shim ''pread'' else Host ''pread''))),
      (''pwrite'', errno_update p ((if \<not> is_lp64 (p_arch p) then Shim ''pwrite'' else Host ''pwrite''))),
      (''__system_property_foreach'', Aborts), (''fputwc'', Aborts), (''__system_property_read'', Aborts),
      (''abs'', Aborts), (''utimes'', Aborts), (''__strrchr_chk'', Aborts)]"

definition add_signal_shimmed_symbols :: "platform \<Rightarrow> symbols" where
  "add_signal_shimmed_symbols p =
     [(''signal'', Returns 0), (''bsd_signal'', Returns 0), (''kill'', Returns 0), (''killpg'', Returns 0),
      host_fn ''raise'', (''sigaction'', Returns 0), (''sigprocmask'', Returns 0), (''sigemptyset'', Returns 0),
      (''sigfillset'', Returns 0), (''sigaddset'', Returns 0), (''sigdelset'', Returns 0),
      (''sigdelset'', Returns 0), (''sigismember'', Returns 0), host_fn ''strsignal'', host_fn ''setegid'',
      host_fn ''seteuid'', host_fn ''setgid'', host_fn ''setregid'', (''setresgid'', Returns 0),
      (''setresuid'', Returns 0), host_fn ''setuid'', host_fn ''setreuid'', host_fn ''setgroups'']"

definition add_string_shimmed_symbols :: "platform \<Rightarrow> symbols" where
  "add_string_shimmed_symbols p =
     [host_fn ''memccpy'', (''environ'', Host_data_value ''environ''), host_fn ''memchr'',
      shim_fn ''__memchr_chk'', host_fn ''memcmp'', host_fn ''memcpy'', shim_fn ''__memcpy_chk'',
      host_fn ''memmove'', shim_fn ''__memmove_chk'', host_fn ''memset'', shim_fn ''__memset_chk'',
      host_fn ''memmem''] @
     (if variadic p then [shim_fn ''__vsprintf_chk''] else []) @
     [host_fn ''strchr'', host_fn ''strrchr'', host_fn ''strlen'', (''__strlen_chk'', Shim ''strlen_chk''),
      (''__strchr_chk'', Shim ''strchr_chk''), (''__strrchr_chk'', Shim ''strrchr_chk''), host_fn ''strcmp'',
      host_fn ''strcpy'', shim_fn ''__strcpy_chk'', host_fn ''strcat'', host_fn ''strdup'', host_fn ''strstr'',
      host_fn ''strtok'', host_fn ''strtok_r'', shim_fn ''strerror'', shim_fn ''strerror_r'',
      (''__gnu_strerror_r'', Shim ''strerror_r''), host_fn ''strnlen'', host_fn ''strncat'', host_fn ''strndup'',
      host_fn ''strncmp'', host_fn ''strncpy'', shim_fn ''__strcat_chk'', shim_fn ''__strncat_chk'',
      shim_fn ''__strncpy_chk'', shim_fn ''__strncpy_chk2'', shim_fn ''__strlcpy_chk'',
      (''strlcpy'', Shim ''bionic::strlcpy''), host_fn ''strcspn'', host_fn ''strpbrk'', host_fn ''strsep'',
      host_fn ''strspn'', host_fn ''strsignal'', host_fn ''strcoll'', host_fn ''strxfrm'', host_fn ''strcoll_l'',
      host_fn ''strxfrm_l'', host_fn ''islower_l'', host_fn ''isupper_l'', host_fn ''tolower_l'',
      host_fn ''toupper_l'', host_fn ''bcmp'', host_fn ''bcopy'', host_fn ''bzero'', host_fn ''ffs'',
      host_fn ''index'', host_fn ''rindex'', host_fn ''strcasecmp'', host_fn ''strncasecmp'']"

definition add_wchar_shimmed_symbols :: "platform \<Rightarrow> symbols" where
  "add_wchar_shimmed_symbols p =
     [host_fn ''wcscat'', host_fn ''wcscpy'', host_fn ''wcsncpy'', host_fn ''wcscmp'', host_fn ''wcslen'',
      host_fn ''wctob'', host_fn ''btowc'', host_fn ''wmemchr'', host_fn ''wmemcmp'', host_fn ''wmemcpy'',
      host_fn ''wmemset'', host_fn ''wmemmove'', host_fn ''wcrtomb'', host_fn ''mbrtowc'', host_fn ''wcscoll'',
      host_fn ''wcsxfrm'', host_fn ''wcsftime'', host_fn ''mbsrtowcs'', host_fn ''mbsnrtowcs'',
      host_fn ''wcsnrtombs'', host_fn ''mbrlen'', host_fn ''wcstol'', host_fn ''wcstoul'', host_fn ''wcstoll'',
      host_fn ''wcstoull'', host_fn ''wcstof'', host_fn ''wcstod'', host_fn ''wcstold''] @
     (if variadic p then [host_fn ''swprintf''] else []) @
     [host_fn ''wcscoll_l'', host_fn ''wcsxfrm_l'', host_fn ''wctype'', host_fn ''iswspace'', host_fn ''iswctype'',
      host_fn ''towlower'', host_fn ''towlower_l'', host_fn ''towupper'', host_fn ''towupper_l'',
      host_fn ''iswlower'', host_fn ''iswlower_l'', host_fn ''iswprint'', host_fn ''iswprint_l'',
      host_fn ''iswblank'', host_fn ''iswblank_l'', host_fn ''iswcntrl'', host_fn ''iswcntrl_l'',
      host_fn ''iswupper'', host_fn ''iswupper_l'', host_fn ''iswalpha'', host_fn ''iswalpha_l'',
      host_fn ''iswdigit'', host_fn ''iswdigit_l'', host_fn ''iswpunct'', host_fn ''iswpunct_l'',
      host_fn ''iswxdigit'', host_fn ''iswxdigit_l'', host_fn ''iswspace_l'']"

definition add_pthread_shimmed_symbols :: "platform \<Rightarrow> symbols" where
  "add_pthread_shimmed_symbols p =
     [shim_fn ''pthread_create'', shim_fn ''pthread_exit'', host_fn ''pthread_equal'', host_fn ''pthread_join'',
      host_fn ''pthread_detach'', host_fn ''pthread_kill'', host_fn ''pthread_self'', host_fn ''pthread_atfork'',
      shim_fn ''pthread_setschedparam'', shim_fn ''pthread_getschedparam'', shim_fn ''pthread_getattr_np'',
      shim_fn ''pthread_attr_init'', shim_fn ''pthread_attr_destroy'', shim_fn ''pthread_attr_setdetachstate'',
      shim_fn ''pthread_attr_getdetachstate'', shim_fn ''pthread_attr_setschedparam'',
      shim_fn ''pthread_attr_getschedparam'', shim_fn ''pthread_attr_setstacksize'',
      shim_fn ''pthread_attr_getstack'', shim_fn ''pthread_attr_getstacksize'', shim_fn ''pthread_setname_np'',
      shim_fn ''pthread_mutex_init'', shim_fn ''pthread_mutex_destroy'', shim_fn ''pthread_mutex_lock'',
      shim_fn ''pthread_mutex_unlock'', shim_fn ''pthread_mutex_trylock'', shim_fn ''pthread_mutexattr_init'',
      shim_fn ''pthread_mutexattr_destroy'', shim_fn ''pthread_mutexattr_settype'',
      shim_fn ''pthread_mutexattr_gettype'', shim_fn ''pthread_cond_init'', shim_fn ''pthread_cond_destroy'',
      shim_fn ''pthread_cond_wait'', shim_fn ''pthread_cond_broadcast'', shim_fn ''pthread_cond_signal'',
      shim_fn ''pthread_cond_timedwait'',
      (''pthread_cond_timedwait_monotonic_np'', Shim ''pthread_cond_timedwait''),
      shim_fn ''pthread_condattr_init'', shim_fn ''pthread_condattr_destroy'',
      shim_fn ''pthread_condattr_setclock'', shim_fn ''pthread_condattr_getclock'',
      shim_fn ''pthread_rwlock_init'', shim_fn ''pthread_rwlock_destroy'', rewritten_fn ''pthread_rwlock_rdlock'',
      rewritten_fn ''pthread_rwlock_tryrdlock'', rewritten_fn ''pthread_rwlock_wrlock'',
      rewritten_fn ''pthread_rwlock_trywrlock'', rewritten_fn ''pthread_rwlock_unlock'',
      shim_fn ''pthread_key_create'', shim_fn ''pthread_key_delete'', shim_fn ''pthread_setspecific'',
      shim_fn ''pthread_getspecific'', (''__pthread_cleanup_push'', Shim ''pthread_cleanup_push_impl''),
      (''__pthread_cleanup_pop'', Shim ''pthread_cleanup_pop_impl''), shim_fn ''pthread_once'',
      shim_fn ''pthread_gettid_np'']"

definition add_sem_shimmed_symbols :: "platform \<Rightarrow> symbols" where
  "add_sem_shimmed_symbols p =
     [shim_fn ''sem_init'', shim_fn ''sem_destroy'',
      (''sem_wait'', Arg_rewritten ((if p_os p = Apple then Shim ''sem_wait'' else Host ''sem_wait''))),
      (''sem_timedwait'', Arg_rewritten ((if p_os p = Apple then Shim ''sem_timedwait'' else Host ''sem_timedwait''))),
      (''sem_post'', Arg_rewritten ((if p_os p = Apple then Shim ''sem_post'' else Host ''sem_post'')))]"

definition add_network_shimmed_symbols :: "platform \<Rightarrow> symbols" where
  "add_network_shimmed_symbols p =
     [errno_shim p ''socket'', errno_shim p ''socketpair'', errno_shim p ''bind'', errno_shim p ''connect'',
      errno_shim p ''send'', errno_shim p ''sendmsg'', errno_shim p ''sendmmsg'', errno_shim p ''sendto'',
      errno_shim p ''recv'', errno_shim p ''recvmsg'', errno_shim p ''recvmmsg'', errno_shim p ''recvfrom'',
      errno_shim p ''getsockname'', errno_shim p ''getpeername'', errno_shim p ''accept'',
      errno_shim p ''accept4'', errno_shim p ''getsockopt'', errno_shim p ''setsockopt'', errno_host p ''listen'',
      errno_shim p ''shutdown'', shim_fn ''__get_h_errno'', shim_fn ''getaddrinfo'', shim_fn ''freeaddrinfo'',
      shim_fn ''getnameinfo'', host_fn ''gai_strerror'', host_fn ''gethostbyaddr'', host_fn ''gethostbyname'',
      host_fn ''gethostbyname2'', host_fn ''getservbyname'', host_fn ''gethostent'', host_fn ''inet_addr'',
      host_fn ''inet_lnaof'', host_fn ''inet_makeaddr'', host_fn ''inet_netof'', host_fn ''inet_network'',
      host_fn ''inet_ntoa'', shim_fn ''inet_pton'', shim_fn ''inet_ntop'', host_fn ''if_nametoindex'',
      host_fn ''if_indextoname'', host_fn ''if_nameindex'', host_fn ''if_freenameindex'', shim_fn ''getifaddrs'',
      shim_fn ''freeifaddrs'', (''in6addr_any'', Host_data ''in6addr_any''),
      (''in6addr_loopback'', Host_data ''in6addr_loopback'')]"

definition add_dirent_shimmed_symbols :: "platform \<Rightarrow> symbols" where
  "add_dirent_shimmed_symbols p =
     [(''opendir'', Io_rewrite1 (Shim ''opendir'')), shim_fn ''fdopendir'', shim_fn ''closedir'',
      shim_fn ''readdir'', shim_fn ''rewinddir'', shim_fn ''seekdir'', shim_fn ''telldir'', shim_fn ''dirfd'']"

definition add_stat_shimmed_symbols :: "platform \<Rightarrow> symbols" where
  "add_stat_shimmed_symbols p =
     [(''stat'', errno_update p (Io_rewrite1 (Shim ''stat''))), errno_shim p ''fstat'',
      (''stat64'', errno_update p (Io_rewrite1 (Shim ''stat''))), (''fstat64'', errno_update p (Shim ''fstat'')),
      (''chmod'', errno_update p (Io_rewrite1 (Host ''chmod''))), errno_host p ''fchmod'',
      errno_host p ''fchmodat'', errno_host p ''umask'',
      (''mkdir'', errno_update p (Io_rewrite1 (Host ''mkdir''))), errno_shim p ''utimensat'',
      (''lstat'', errno_update p (Io_rewrite1 (Shim ''lstat'')))]"

definition add_cstdio_shimmed_symbols :: "platform \<Rightarrow> symbols" where
  "add_cstdio_shimmed_symbols p =
     [(''__sF'', Shim_data ''bionic::standard_files''), (''__isthreaded'', Shim_data ''bionic::io_isthreaded''),
      (''fopen'', Io_rewrite1 (Shim ''fopen'')), shim_fn ''fdopen'', (''freopen'', Io_rewrite1 (Shim ''freopen'')),
      (''freopen64'', Io_rewrite1 (Shim ''freopen'')), shim_fn ''tmpfile'', shim_fn ''popen'', shim_fn ''fclose'',
      shim_fn ''pclose'', rewritten_fn ''clearerr'', rewritten_fn ''feof'', rewritten_fn ''fseek'',
      rewritten_fn ''ftell'', shim_fn ''fseeko'', shim_fn ''ftello'', rewritten_fn ''ferror'',
      rewritten_fn ''ferror'', rewritten_fn ''fflush'', rewritten_fn ''fgetc'', rewritten_fn ''fgets'',
      shim_fn ''__fgets_chk'', rewritten_fn ''fputc'', rewritten_fn ''fputs'', shim_fn ''fread'',
      shim_fn ''__fread_chk'', rewritten_fn ''fwrite'', shim_fn ''__fwrite_chk''] @
     (if variadic p then [shim_fn ''fprintf'', rewritten_fn ''vfprintf'', shim_fn ''fscanf'', shim_fn ''vfscanf''] else []) @
     [rewritten_fn ''getc'', rewritten_fn ''getc_unlocked'', rewritten_fn ''getdelim'', rewritten_fn ''getline'',
      rewritten_fn ''putc'', rewritten_fn ''putc_unlocked'', rewritten_fn ''rewind'', rewritten_fn ''setbuf'',
      (''setvbuf'', Returns_nothing), rewritten_fn ''setbuffer'', rewritten_fn ''setlinebuf'',
      rewritten_fn ''ungetc'', rewritten_fn ''fileno'', rewritten_fn ''pclose'', rewritten_fn ''flockfile'',
      rewritten_fn ''ftrylockfile'', rewritten_fn ''funlockfile'', rewritten_fn ''getw'', rewritten_fn ''putw'',
      (''remove'', Io_rewrite1 (Host ''remove'')), (''rename'', Io_rewrite2 (Host ''rename'')),
      host_fn ''putchar'', host_fn ''puts''] @
     (if variadic p then [host_fn ''printf'', host_fn ''vprintf'', host_fn ''sprintf'', host_fn ''asprintf'', host_fn ''vasprintf'',
       host_fn ''snprintf'', host_fn ''vsprintf'', host_fn ''vsnprintf'', shim_fn ''__vsnprintf_chk'',
       shim_fn ''__snprintf_chk'', host_fn ''scanf'', host_fn ''sscanf'', host_fn ''vscanf'', host_fn ''vsscanf''] else []) @
     [host_fn ''perror'', (''stdin'', Shim_data ''bionic::standard_input''),
      (''stdout'', Shim_data ''bionic::standard_output''), (''stderr'', Shim_data ''bionic::standard_error''),
      (''__register_atfork'', Returns_nothing), (''getauxval'', Returns 0), (''tcgetattr'', Returns 0),
      (''tcsetattr'', Returns 0), (''getpwuid_r'', Returns 0), host_fn ''basename'', rewritten_fn ''getwc'',
      rewritten_fn ''ungetwc'', rewritten_fn ''putwc'']"

definition add_mman_shimmed_symbols :: "platform \<Rightarrow> symbols" where
  "add_mman_shimmed_symbols p =
     [errno_shim p ''mmap'', errno_host p ''munmap'', errno_host p ''mprotect'', errno_host p ''madvise'',
      errno_host p ''msync'', errno_host p ''mlock'', errno_host p ''munlock''] @
     (if variadic p then [shim_fn ''mremap''] else [])"

definition add_resource_shimmed_symbols :: "platform \<Rightarrow> symbols" where
  "add_resource_shimmed_symbols p =
     [errno_shim p ''getrusage'', errno_host p ''getpriority'', errno_shim p ''getrlimit'']"

definition add_prctl_shimmed_symbols :: "platform \<Rightarrow> symbols" where
  "add_prctl_shimmed_symbols p =
     [errno_shim p ''prctl'']"

definition add_locale_shimmed_symbols :: "platform \<Rightarrow> symbols" where
  "add_locale_shimmed_symbols p =
     [host_fn ''newlocale'', host_fn ''uselocale'', host_fn ''freelocale'', host_fn ''setlocale'',
      host_fn ''localeconv'']"

definition add_setjmp_shimmed_symbols :: "platform \<Rightarrow> symbols" where
  "add_setjmp_shimmed_symbols p =
     (if bionic_setjmp p then [(''setjmp'', Shim ''bionic_setjmp''), (''longjmp'', Shim ''bionic_longjmp'')] else [(''setjmp'', Host ''_setjmp''), host_fn ''longjmp'']) @
     (if p_arch p = Arm then [(''sigsetjmp'', Host ''__sigsetjmp''), host_fn ''siglongjmp''] else [])"

definition add_ioctl_shimmed_symbols :: "platform \<Rightarrow> symbols" where
  "add_ioctl_shimmed_symbols p =
     [errno_shim p ''ioctl'']"

definition add_fcntl_shimmed_symbols :: "platform \<Rightarrow> symbols" where
  "add_fcntl_shimmed_symbols p =
     (if variadic p then [shim_fn ''open'', shim_fn ''openat''] else [shim_fn ''openat'']) @
     [(''__open_2'', Io_rewrite1 (Shim ''open_2'')), (''__libc_shim_open_3'', Io_rewrite1 (Shim ''open_3'')),
      errno_shim p ''fcntl'']"

definition add_poll_select_shimmed_symbols :: "platform \<Rightarrow> symbols" where
  "add_poll_select_shimmed_symbols p =
     (if p_os p = Apple then [(''poll'', Shim ''poll_via_select'')] else [errno_host p ''poll'']) @
     [shim_fn ''__poll_chk'', errno_host p ''select'', shim_fn ''__FD_ISSET_chk'', shim_fn ''__FD_CLR_chk'',
      shim_fn ''__FD_SET_chk'']"

definition add_epoll_shimmed_symbols :: "platform \<Rightarrow> symbols" where
  "add_epoll_shimmed_symbols p =
     [errno_host p ''epoll_create'', errno_host p ''epoll_create1'', errno_host p ''epoll_ctl'',
      errno_host p ''epoll_wait'']"

definition add_misc_shimmed_symbols :: "platform \<Rightarrow> symbols" where
  "add_misc_shimmed_symbols p =
     [host_fn ''uname'', host_fn ''utime'', host_fn ''writev'', host_fn ''openlog'', host_fn ''closelog'',
      host_fn ''syslog''] @
     (if \<not> has_arc4random_buf p then [shim_fn ''arc4random''] else [host_fn ''arc4random''])"

definition add_sysconf_shimmed_symbols :: "platform \<Rightarrow> symbols" where
  "add_sysconf_shimmed_symbols p =
     [shim_fn ''sysconf'']"

definition add_system_properties_shimmed_symbols :: "platform \<Rightarrow> symbols" where
  "add_system_properties_shimmed_symbols p =
     [shim_fn ''__system_property_find'', shim_fn ''__system_property_get'',
      shim_fn ''__system_property_read_callback'']"

definition add_eventfd_shimmed_symbols :: "platform \<Rightarrow> symbols" where
  "add_eventfd_shimmed_symbols p =
     [errno_host p ''eventfd'']"

definition add_fnmatch_shimmed_symbols :: "platform \<Rightarrow> symbols" where
  "add_fnmatch_shimmed_symbols p =
     [host_fn ''fnmatch'']"

definition add_socket_shimmed_symbols :: "platform \<Rightarrow> symbols" where
  "add_socket_shimmed_symbols p =
     [shim_fn ''sendfile'',
      (''__cmsg_nxthdr'', (if p_os p \<noteq> Linux then Shim ''__cmsg_nxthdr'' else Host ''__cmsg_nxthdr''))]"

definition add_statvfs_shimmed_symbols :: "platform \<Rightarrow> symbols" where
  "add_statvfs_shimmed_symbols p =
     [shim_fn ''statvfs'']"

definition get_shimmed_symbols :: "platform \<Rightarrow> symbols" where
  "get_shimmed_symbols p =
     add_common_shimmed_symbols p @
     add_stdlib_shimmed_symbols p @
     add_malloc_shimmed_symbols p @
     add_ctype_shimmed_symbols p @
     add_math_shimmed_symbols p @
     add_time_shimmed_symbols p @
     add_wait_shimmed_symbols p @
     add_sched_shimmed_symbols p @
     add_unistd_shimmed_symbols p @
     add_signal_shimmed_symbols p @
     add_string_shimmed_symbols p @
     add_wchar_shimmed_symbols p @
     add_pthread_shimmed_symbols p @
     add_sem_shimmed_symbols p @
     add_network_shimmed_symbols p @
     add_dirent_shimmed_symbols p @
     add_stat_shimmed_symbols p @
     add_cstdio_shimmed_symbols p @
     add_mman_shimmed_symbols p @
     add_resource_shimmed_symbols p @
     add_prctl_shimmed_symbols p @
     add_locale_shimmed_symbols p @
     add_setjmp_shimmed_symbols p @
     add_ioctl_shimmed_symbols p @
     add_fcntl_shimmed_symbols p @
     add_poll_select_shimmed_symbols p @
     add_epoll_shimmed_symbols p @
     add_misc_shimmed_symbols p @
     add_sysconf_shimmed_symbols p @
     add_system_properties_shimmed_symbols p @
     add_eventfd_shimmed_symbols p @
     add_fnmatch_shimmed_symbols p @
     add_socket_shimmed_symbols p @
     add_statvfs_shimmed_symbols p"

section \<open>Shapes of bindings\<close>

text \<open>
  What the wrappers' templates accept: path rewriting goes directly around a function,
  the errno wrapper around that, the calling convention outermost; arguments are rewritten
  for plain functions only. Stubs and data are bound bare.
\<close>

fun plain_fun :: "binding \<Rightarrow> bool" where
  "plain_fun (Host f) = True"
| "plain_fun (Shim f) = True"
| "plain_fun _ = False"

fun path_shape :: "binding \<Rightarrow> bool" where
  "path_shape (Io_rewrite1 b) = plain_fun b"
| "path_shape (Io_rewrite2 b) = plain_fun b"
| "path_shape b = plain_fun b"

fun errno_shape :: "binding \<Rightarrow> bool" where
  "errno_shape (Errno_update b) = path_shape b"
| "errno_shape b = path_shape b"

fun fun_shape :: "binding \<Rightarrow> bool" where
  "fun_shape (Armhf b) = errno_shape b"
| "fun_shape (Arg_rewritten b) = plain_fun b"
| "fun_shape b = errno_shape b"

fun well_formed :: "binding \<Rightarrow> bool" where
  "well_formed (Host_data d) = True"
| "well_formed (Shim_data d) = True"
| "well_formed (Host_data_value d) = True"
| "well_formed (Returns r) = True"
| "well_formed Returns_nothing = True"
| "well_formed Aborts = True"
| "well_formed b = fun_shape b"

text \<open>The platform wrappers a binding may have: none of another platform.\<close>

fun for_platform :: "platform \<Rightarrow> binding \<Rightarrow> bool" where
  "for_platform p (Armhf b) \<longleftrightarrow> p_arch p = Arm \<and> for_platform p b"
| "for_platform p (Errno_update b) \<longleftrightarrow> p_os p = Apple"
| "for_platform p b \<longleftrightarrow> True"

definition entry_ok :: "platform \<Rightarrow> string \<times> binding \<Rightarrow> bool" where
  "entry_ok p e \<longleftrightarrow> well_formed (snd e) \<and> for_platform p (snd e)"

lemma errno_update_shape [simp]:
  "path_shape b \<Longrightarrow> errno_shape (errno_update p b)" "path_shape b \<Longrightarrow> well_formed (errno_update p b)"
  "path_shape b \<Longrightarrow> for_platform p (errno_update p b)"
  by (cases b; simp add: errno_update_def)+

lemma armhf_shape [simp]:
  "errno_shape b \<Longrightarrow> well_formed (armhf p b)" "for_platform p b \<Longrightarrow> for_platform p (armhf p b)"
  by (cases b; simp add: armhf_def)+

lemma ok_simps [simp]: "entry_ok p (n, b) \<longleftrightarrow> well_formed b \<and> for_platform p b"
  by (simp add: entry_ok_def)

lemma ok_common: "list_all (entry_ok p) (add_common_shimmed_symbols p)"
  by (simp add: add_common_shimmed_symbols_def)

lemma ok_stdlib: "list_all (entry_ok p) (add_stdlib_shimmed_symbols p)"
  by (simp add: add_stdlib_shimmed_symbols_def)

lemma ok_malloc: "list_all (entry_ok p) (add_malloc_shimmed_symbols p)"
  by (simp add: add_malloc_shimmed_symbols_def)

lemma ok_ctype: "list_all (entry_ok p) (add_ctype_shimmed_symbols p)"
  by (simp add: add_ctype_shimmed_symbols_def)

lemma ok_math: "list_all (entry_ok p) (add_math_shimmed_symbols p)"
  by (simp add: add_math_shimmed_symbols_def)

lemma ok_time: "list_all (entry_ok p) (add_time_shimmed_symbols p)"
  by (simp add: add_time_shimmed_symbols_def)

lemma ok_wait: "list_all (entry_ok p) (add_wait_shimmed_symbols p)"
  by (simp add: add_wait_shimmed_symbols_def)

lemma ok_sched: "list_all (entry_ok p) (add_sched_shimmed_symbols p)"
  by (simp add: add_sched_shimmed_symbols_def)

lemma ok_unistd: "list_all (entry_ok p) (add_unistd_shimmed_symbols p)"
  by (simp add: add_unistd_shimmed_symbols_def)

lemma ok_signal: "list_all (entry_ok p) (add_signal_shimmed_symbols p)"
  by (simp add: add_signal_shimmed_symbols_def)

lemma ok_string: "list_all (entry_ok p) (add_string_shimmed_symbols p)"
  by (simp add: add_string_shimmed_symbols_def)

lemma ok_wchar: "list_all (entry_ok p) (add_wchar_shimmed_symbols p)"
  by (simp add: add_wchar_shimmed_symbols_def)

lemma ok_pthread: "list_all (entry_ok p) (add_pthread_shimmed_symbols p)"
  by (simp add: add_pthread_shimmed_symbols_def)

lemma ok_sem: "list_all (entry_ok p) (add_sem_shimmed_symbols p)"
  by (simp add: add_sem_shimmed_symbols_def)

lemma ok_network: "list_all (entry_ok p) (add_network_shimmed_symbols p)"
  by (simp add: add_network_shimmed_symbols_def)

lemma ok_dirent: "list_all (entry_ok p) (add_dirent_shimmed_symbols p)"
  by (simp add: add_dirent_shimmed_symbols_def)

lemma ok_stat: "list_all (entry_ok p) (add_stat_shimmed_symbols p)"
  by (simp add: add_stat_shimmed_symbols_def)

lemma ok_cstdio: "list_all (entry_ok p) (add_cstdio_shimmed_symbols p)"
  by (simp add: add_cstdio_shimmed_symbols_def)

lemma ok_mman: "list_all (entry_ok p) (add_mman_shimmed_symbols p)"
  by (simp add: add_mman_shimmed_symbols_def)

lemma ok_resource: "list_all (entry_ok p) (add_resource_shimmed_symbols p)"
  by (simp add: add_resource_shimmed_symbols_def)

lemma ok_prctl: "list_all (entry_ok p) (add_prctl_shimmed_symbols p)"
  by (simp add: add_prctl_shimmed_symbols_def)

lemma ok_locale: "list_all (entry_ok p) (add_locale_shimmed_symbols p)"
  by (simp add: add_locale_shimmed_symbols_def)

lemma ok_setjmp: "list_all (entry_ok p) (add_setjmp_shimmed_symbols p)"
  by (simp add: add_setjmp_shimmed_symbols_def)

lemma ok_ioctl: "list_all (entry_ok p) (add_ioctl_shimmed_symbols p)"
  by (simp add: add_ioctl_shimmed_symbols_def)

lemma ok_fcntl: "list_all (entry_ok p) (add_fcntl_shimmed_symbols p)"
  by (simp add: add_fcntl_shimmed_symbols_def)

lemma ok_poll_select: "list_all (entry_ok p) (add_poll_select_shimmed_symbols p)"
  by (simp add: add_poll_select_shimmed_symbols_def)

lemma ok_epoll: "list_all (entry_ok p) (add_epoll_shimmed_symbols p)"
  by (simp add: add_epoll_shimmed_symbols_def)

lemma ok_misc: "list_all (entry_ok p) (add_misc_shimmed_symbols p)"
  by (simp add: add_misc_shimmed_symbols_def)

lemma ok_sysconf: "list_all (entry_ok p) (add_sysconf_shimmed_symbols p)"
  by (simp add: add_sysconf_shimmed_symbols_def)

lemma ok_system_properties: "list_all (entry_ok p) (add_system_properties_shimmed_symbols p)"
  by (simp add: add_system_properties_shimmed_symbols_def)

lemma ok_eventfd: "list_all (entry_ok p) (add_eventfd_shimmed_symbols p)"
  by (simp add: add_eventfd_shimmed_symbols_def)

lemma ok_fnmatch: "list_all (entry_ok p) (add_fnmatch_shimmed_symbols p)"
  by (simp add: add_fnmatch_shimmed_symbols_def)

lemma ok_socket: "list_all (entry_ok p) (add_socket_shimmed_symbols p)"
  by (simp add: add_socket_shimmed_symbols_def)

lemma ok_statvfs: "list_all (entry_ok p) (add_statvfs_shimmed_symbols p)"
  by (simp add: add_statvfs_shimmed_symbols_def)

lemmas tables_ok =
  ok_common
  ok_stdlib
  ok_malloc
  ok_ctype
  ok_math
  ok_time
  ok_wait
  ok_sched
  ok_unistd
  ok_signal
  ok_string
  ok_wchar
  ok_pthread
  ok_sem
  ok_network
  ok_dirent
  ok_stat
  ok_cstdio
  ok_mman
  ok_resource
  ok_prctl
  ok_locale
  ok_setjmp
  ok_ioctl
  ok_fcntl
  ok_poll_select
  ok_epoll
  ok_misc
  ok_sysconf
  ok_system_properties
  ok_eventfd
  ok_fnmatch
  ok_socket
  ok_statvfs

section \<open>What a guest's call does\<close>

text \<open>
  The meaning of a binding of a function whose leading arguments are paths: the host's and
  the shim's functions by their names are parameters, and the remaining arguments are part
  of them. \<open>ret_is_pointer\<close> is the return type the errno wrapper was instantiated with.
\<close>

type_synonym 'w path_fun = "string option list \<Rightarrow> 'w call"

fun run_binding ::
  "os \<Rightarrow> headers \<Rightarrow> path_rule list \<Rightarrow> bool \<Rightarrow> (string \<Rightarrow> 'w path_fun) \<Rightarrow> (string \<Rightarrow> 'w path_fun) \<Rightarrow> binding \<Rightarrow> 'w path_fun" where
  "run_binding os h rules ptr host shim (Host f) = host f"
| "run_binding os h rules ptr host shim (Shim f) = shim f"
| "run_binding os h rules ptr host shim (Errno_update b) =
     (\<lambda>ps. errno_update_wrapper os h ptr (run_binding os h rules ptr host shim b ps))"
| "run_binding os h rules ptr host shim (Io_rewrite1 b) =
     (\<lambda>ps. case ps of p1 # rest \<Rightarrow> iorewrite1 rules (\<lambda>q. run_binding os h rules ptr host shim b (q # rest)) p1
       | [] \<Rightarrow> run_binding os h rules ptr host shim b [])"
| "run_binding os h rules ptr host shim (Io_rewrite2 b) =
     (\<lambda>ps. case ps of p1 # p2 # rest \<Rightarrow>
         iorewrite2 rules (\<lambda>q1 q2. run_binding os h rules ptr host shim b (q1 # q2 # rest)) p1 p2
       | _ \<Rightarrow> run_binding os h rules ptr host shim b ps)"
| "run_binding os h rules ptr host shim (Armhf b) = run_binding os h rules ptr host shim b"
| "run_binding os h rules ptr host shim (Arg_rewritten b) = run_binding os h rules ptr host shim b"
| "run_binding os h rules ptr host shim Aborts = (\<lambda>ps (w, e). (Inl (Aborted []), w, e))"
| "run_binding os h rules ptr host shim (Returns r) = (\<lambda>ps (w, e). (Inr r, w, e))"
| "run_binding os h rules ptr host shim Returns_nothing = (\<lambda>ps (w, e). (Inr 0, w, e))"
| "run_binding os h rules ptr host shim (Host_data d) = (\<lambda>ps (w, e). (Inl Memory_fault, w, e))"
| "run_binding os h rules ptr host shim (Shim_data d) = (\<lambda>ps (w, e). (Inl Memory_fault, w, e))"
| "run_binding os h rules ptr host shim (Host_data_value d) = (\<lambda>ps (w, e). (Inl Memory_fault, w, e))"

lemma run_errno_update:
  "run_binding (p_os p) h rules ptr host shim (errno_update p b) ps =
     WithErrnoUpdate (p_os p) h ptr (run_binding (p_os p) h rules ptr host shim b ps)"
  by (simp add: errno_update_def WithErrnoUpdate_def errno_translation_def)

section \<open>Properties\<close>

text \<open>
  On every platform the wrappers of every entry are nested as their templates require,
  and no entry has a wrapper of another platform: the errno wrapper occurs on Apple only, the
  calling convention adapter on 32-bit ARM only.
\<close>

theorem symbols_well_formed: "list_all (entry_ok p) (get_shimmed_symbols p)"
  unfolding get_shimmed_symbols_def list_all_append by (intro conjI tables_ok)

text \<open>The host functions of a path that are bound under their own name inside both wrappers.\<close>

definition path_symbols :: "string list" where
  "path_symbols = [''access'', ''chown'', ''lchown'', ''chdir'', ''unlink'', ''rmdir'', ''chmod'', ''mkdir'']"

lemma in_unistd: "set (add_unistd_shimmed_symbols p) \<subseteq> set (get_shimmed_symbols p)"
  by (auto simp: get_shimmed_symbols_def)

lemma in_stat: "set (add_stat_shimmed_symbols p) \<subseteq> set (get_shimmed_symbols p)"
  by (auto simp: get_shimmed_symbols_def)

lemma path_symbol_entries:
  assumes "n \<in> set path_symbols"
  shows "(n, errno_update p (Io_rewrite1 (Host n))) \<in> set (get_shimmed_symbols p)"
proof -
  have unistd: "(m, errno_update p (Io_rewrite1 (Host m))) \<in> set (add_unistd_shimmed_symbols p)"
    if "m \<in> {''access'', ''chown'', ''lchown'', ''chdir'', ''unlink'', ''rmdir''}" for m
    using that unfolding add_unistd_shimmed_symbols_def by (elim insertE emptyE) (simp_all del: list.inject char.inject)
  have stat: "(m, errno_update p (Io_rewrite1 (Host m))) \<in> set (add_stat_shimmed_symbols p)"
    if "m \<in> {''chmod'', ''mkdir''}" for m
    using that unfolding add_stat_shimmed_symbols_def by (elim insertE emptyE) (simp_all del: list.inject char.inject)
  have "set path_symbols = {''access'', ''chown'', ''lchown'', ''chdir'', ''unlink'', ''rmdir''} \<union> {''chmod'', ''mkdir''}"
    by (simp only: path_symbols_def list.set Un_insert_left Un_empty_left)
  with assms show ?thesis
    using unistd [of n] stat [of n] subsetD [OF in_unistd] subsetD [OF in_stat] by (simp only: Un_iff) (elim disjE; simp)
qed


definition mac :: platform where
  "mac = \<lparr>p_os = Apple, p_arch = X86_64, variadic = True, has_arc4random_buf = True, bionic_setjmp = False\<rparr>"


text \<open>
  Two names are bound twice and differently: \<open>pclose\<close> to the shim's function and to the
  host's, which does not free the guest's object, and \<open>__strrchr_chk\<close> to an aborting stub and
  to its implementation. \<open>isdigit_l\<close> is the host's test for hexadecimal digits.
\<close>

lemma pclose_twice:
  "{(''pclose'', Shim ''pclose''), (''pclose'', Arg_rewritten (Host ''pclose''))} \<subseteq> set (add_cstdio_shimmed_symbols p)"
  unfolding add_cstdio_shimmed_symbols_def by (simp add: insert_subset)

lemma strrchr_chk_twice:
  "(''__strrchr_chk'', Aborts) \<in> set (add_unistd_shimmed_symbols p)"
  "(''__strrchr_chk'', Shim ''strrchr_chk'') \<in> set (add_string_shimmed_symbols p)"
  unfolding add_unistd_shimmed_symbols_def add_string_shimmed_symbols_def by simp_all

lemma isdigit_l_hexadecimal: "(''isdigit_l'', Host ''isxdigit_l'') \<in> set (add_ctype_shimmed_symbols p)"
  by (simp add: add_ctype_shimmed_symbols_def)

text \<open>
  On Apple \<open>poll\<close> is bound without the errno wrapper its other binding has: an error of
  \<open>select\<close> stays in the host's numbering and is not published.
\<close>

lemma apple_poll_unwrapped:
  "p_os p = Apple \<Longrightarrow> (''poll'', Shim ''poll_via_select'') \<in> set (add_poll_select_shimmed_symbols p)"
  "p_os p \<noteq> Apple \<Longrightarrow> (''poll'', errno_update p (Host ''poll'')) \<in> set (add_poll_select_shimmed_symbols p)"
  by (simp_all add: add_poll_select_shimmed_symbols_def)

text \<open>
  The paths of these functions are not rewritten; and \<open>environ\<close> is bound to the value of the
  host's variable where the loader expects an address.
\<close>

lemma unrewritten_paths:
  "{host_fn ''realpath''} \<subseteq> set (add_stdlib_shimmed_symbols p)"
  "{errno_host p ''execv'', host_fn ''execvp'', errno_host p ''readlink'', host_fn ''pathconf'', host_fn ''truncate''}
     \<subseteq> set (add_unistd_shimmed_symbols p)"
  "{shim_fn ''statvfs''} \<subseteq> set (add_statvfs_shimmed_symbols p)"
  "{host_fn ''utime''} \<subseteq> set (add_misc_shimmed_symbols p)"
  "{(''environ'', Host_data_value ''environ'')} \<subseteq> set (add_string_shimmed_symbols p)"
  unfolding add_stdlib_shimmed_symbols_def add_unistd_shimmed_symbols_def add_statvfs_shimmed_symbols_def
    add_misc_shimmed_symbols_def add_string_shimmed_symbols_def by (simp_all add: insert_subset)

end
