(* ===== verification/Spec2Isabelle.thy ===== *)
theory Spec2Isabelle
  imports Errno Ifaddrs Socket_Flow Sync_Use Os_Version Pthread_Once Pthread Ctype Strings Poll File_Misc Dirent Semaphore Arg_Rewrite Setjmp_Jump System Symbols
begin

text \<open>
  Verification of libc-shim, which lets Android (bionic) binaries run on another C library. The
  paragraphs below say what the program is, which theory models which part, what the theorems
  show, and what is left out.

  \<^bold>\<open>THE PROGRAM.\<close>

  libc-shim lets a program built for Android run on a desktop system. Such a program calls the
  functions of bionic, Android's C library; the shim is the table of those names
  (\<open>shim::get_shimmed_symbols\<close>, src/src/common.cpp) that a loader binds the program to. An entry
  is a function of the host's C library where both libraries agree, and otherwise one of the
  shim's own, which converts the arguments from bionic's types and numbers to the host's, calls
  the host, and converts back what it returned. In this development \<^emph>\<open>guest\<close> is the
  Android program and \<^emph>\<open>host\<close> the system below; the platforms are those of the code's
  conditional compilation, Linux, Apple and FreeBSD, on 64-bit and 32-bit processors.

  The host is not part of the repository. Its functions enter every definition that calls them as
  parameters over a state \<open>'w\<close> of the host, its macros as a valuation \<open>headers\<close> of their names,
  its structures as layouts. What the code relies on there is stated in the hypotheses of a
  theorem: that the macros of one \<open>switch\<close> differ (the compiler checks it), that structures
  fit \<open>sockaddr_storage\<close>, that \<open>malloc\<close> returns fresh addresses, that a host mutex keeps POSIX's
  rules. Each has an instance among the witnesses, which is a host of a few lines or Linux' own
  numbers.

  \<^bold>\<open>PARTS AND THEORIES.\<close>

  \<^bold>\<open>Common vocabulary.\<close> Prelude has the result type (\<open>Inr\<close> a value, \<open>Inl\<close> a fault: the
  exception of \<open>shim::handle_runtime_error\<close>, \<open>abort\<close>, or an access C++ leaves undefined), code over
  a state that can fail (\<open>act\<close>), the C \<open>switch\<close> over a table of labels, and the interface
  \<open>code_table\<close> of a pair of inverse tables. Buffers has objects as lists of bytes and the interface
  \<open>field_store\<close>; Heap_Lists the blocks the shim allocates and the interface \<open>owning_list\<close> of a
  linked list that owns its nodes and their buffers; Wrappers the objects a guest holds for handles
  of the host, with the interface \<open>handle_owner\<close>; C_Wrapped the templates of src/src/meta.h that put
  a pointer where a host object does not fit, with the interface \<open>cell_impl\<close>.

  \<^bold>\<open>Numbers and flags.\<close> Errno: the two error tables of src/src/errno.cpp, the thread's error
  number and \<open>WithErrnoUpdate\<close> (src/src/errno.h), which keeps it in step and on Apple also turns the
  shim's exceptions into error returns. Flags: the \<open>getaddrinfo\<close>, \<open>getnameinfo\<close>, file status and
  \<open>mmap\<close> flags. Net_Codes: families, socket types, protocols and options (src/src/network.cpp).

  \<^bold>\<open>Network.\<close> Sockaddr: addresses as bytes, their conversion in both directions, and the helper
  objects \<open>detail::sockaddr_in\<close> and \<open>sockaddr_out\<close> (src/src/network.h). Addrinfo and Ifaddrs: the
  lists of \<open>getaddrinfo\<close> and \<open>getifaddrs\<close>, built and freed on the heap. Socket_Calls: every socket
  call of src/src/network.cpp. Socket_Flow: what an address means after it went through several
  of these.

  \<^bold>\<open>Threads.\<close> Lazy_Init: statically initialised mutexes, condition variables and locks, whose host
  objects racing threads create on first use (src/src/pthreads.h, src/src/pthreads.cpp), as a step
  relation over the shared word. Sync_Use: the calls of many threads on such an object.
  Pthread_Once: \<open>pthread_once\<close>, as a step relation. Pthread: attributes, explicit initialisation and
  destruction, keys, cleanup handlers. Semaphore: src/src/semaphore.cpp, over C_Wrapped, and Mach's
  variant.

  \<^bold>\<open>Files.\<close> Path_Rewrite: the redirection of paths (src/src/iorewrite.h). File_Misc: \<open>open\<close>,
  \<open>fcntl\<close>, \<open>ioctl\<close>; Poll: \<open>poll\<close> by way of \<open>select\<close> (src/src/file_misc.cpp). Stdio: bionic's \<open>FILE\<close>
  (src/src/cstdio.cpp); Arg_Rewrite: the templates of src/src/argrewrite.h that bind the host's file
  functions to it. Dirent: directory streams (src/src/dirent.cpp). Stat: \<open>stat\<close> and \<open>statvfs\<close>
  (src/src/stat.cpp, src/src/statvfs.cpp).

  \<^bold>\<open>The rest.\<close> Strings: \<open>strlcpy\<close> (src/src/bionic/strlcpy.cpp), the fortified string functions and
  random bytes. Ctype: the classification tables (src/src/ctype_data.cpp). Time: clocks and the
  time zone. Setjmp: the cookie of src/src/bionic/setjmp_cookie.c. Setjmp_Asm: the assembly of
  src/src/bionic/arch-x86/setjmp.S, instruction by instruction, on a machine of registers and memory
  that calls it; Setjmp_Jump runs it. Os_Version: the version check of
  src/src/osx10_10_compat.c. System: \<open>sysconf\<close>, limits, memory, system calls, properties. Symbols:
  the whole table, one list per \<open>add_..._shimmed_symbols\<close> function, with the wrappers around each
  entry, and what a call through an entry does.

  \<^bold>\<open>HOW THE PARTS MEET.\<close>

  An entry of the table wraps its function in \<open>IOREWRITE\<close> (Path_Rewrite), \<open>WithErrnoUpdate\<close>
  (Errno), \<open>ArgRewritten\<close> (Arg_Rewrite), or several of these; its property composes
  the three for the functions on paths. Socket_Calls call Net_Codes for their numbers, Sockaddr
  for their addresses; Addrinfo, Ifaddrs and the interface requests in File_Misc call Sockaddr too,
  and Socket_Flow follows one address from the host
  through guest memory and back. Pthread and Sync_Use look objects up as Lazy_Init does, the one
  without interference, the other among racing threads; their results are translated by Errno.
  Stdio and Dirent are both clients of Wrappers, Addrinfo and Ifaddrs of Heap_Lists, Semaphore of
  C_Wrapped, Poll of Time and Errno. The assembly of Setjmp_Asm calls the functions of Setjmp.

  \<^bold>\<open>WHAT THE THEOREMS SHOW.\<close>

  \<^item> \<^bold>\<open>Threads.\<close> Calls on a lazily initialised object are linearizable: they give the results of
  calls on one new host object, one after the other, so that a static mutex
  excludes on any host whose mutexes do (Sync_Use). No race leaks an object, and
  no thread waits for another in it (Lazy_Init). The routine of
  \<open>pthread_once\<close> runs once, before any call returns, and callers get on when it does
  (Pthread_Once). An initialised mutex is the host's mutex until it is
  destroyed and cleanup handlers run last in, first out
  (Pthread); semaphores are the host's, whichever representation they have (Semaphore).

  \<^item> \<^bold>\<open>Memory.\<close> The lists of \<open>getaddrinfo\<close> and \<open>getifaddrs\<close> say what the host's say and are freed
  exactly (Addrinfo, Ifaddrs); addresses are
  never written outside the guest's buffer (Sockaddr); fortified copies stay inside
  (Strings); every stream has one owner and none is used after its end (Stdio); every path through the version check gives back what it took (Os_Version).

  \<^item> \<^bold>\<open>Meaning.\<close> Addresses, error numbers, codes, flags, structures, directory entries, the time zone
  and the deadlines of waits mean the same on both sides (the refinements, round trips and exactness
  theorems of the theories named above); \<open>sendmmsg\<close>, \<open>recvmmsg\<close>, \<open>poll\<close> and \<open>strlcpy\<close> meet their
  specifications for every input that the hypotheses allow; a rule of the path rewriting applies
  exactly when it is the first that matches (Path_Rewrite). \<open>longjmp\<close> comes back to its \<open>setjmp\<close>
  with the registers of then, and refuses a buffer with a changed word (Setjmp_Jump).

  \<^item> \<^bold>\<open>Limits.\<close> Where the code does something else than it means to, a lemma next to the model has
  the concrete case: for example \<open>mmap_fixed_lost\<close> (Flags), \<open>unix_address_overread\<close> and
  \<open>unspec_address_refused\<close> (Sockaddr), \<open>recvmsg_name_overflow\<close>, \<open>recvmsg_name_dangles\<close> and
  \<open>accept_small_buffer_loses_socket\<close> (Socket_Calls), \<open>seqpacket_becomes_stream\<close> (Net_Codes),
  \<open>getaddrinfo_bad_hints_leak\<close> (Addrinfo), \<open>busy_mutex_freed\<close> (Pthread), \<open>freopen_double_close\<close>
  (Stdio), \<open>fflush_null_faults\<close> (Arg_Rewrite), \<open>infinite_timeout\<close> (Poll),
  \<open>chained_rules_not_stable\<close> (Path_Rewrite), \<open>saved_mask_unblocked\<close>,
  \<open>longjmp_calls_misaligned\<close> and \<open>checksum_misses_pairs\<close> (Setjmp_Jump), \<open>sendfile_reads_address\<close> (System),
  \<open>pclose_twice\<close> (Symbols).

  \<^bold>\<open>CONVENTIONS AND BOUNDS.\<close>

  Flag words and the words of \<open>strlcpy\<close>, of the payload pointers, of the cookie, of the processor and
  of versions are machine words of their width; sizes, lengths and addresses of blocks are natural numbers,
  results and enumerations integers, where the code cannot wrap or the wrapping is written out
  (\<open>msg_len\<close>, the \<open>int\<close> of \<open>recvfrom\<close>, the time left for \<open>poll\<close>, the assignments of Stat). No definition needs
  fuel: jumps of the assembly lead forward, loops over counts and lists are structural or have a measure, and the loops that
  follow pointers through memory (\<open>free_bionic_list\<close>, \<open>free_host_list\<close>, \<open>freeifaddrs\<close>,
  \<open>cleanup_holder_exit\<close>) are \<open>partial_function\<close>s, for which the theorems prove that they
  return. Interleavings are the reachable states of step relations with no bound on the number of
  threads or steps. Memory accesses of threads are sequentially consistent; allocation of
  list nodes does not fail.

  \<^bold>\<open>NOT MODELLED.\<close>

  The directives of bionic_asm.h around the entry points of \<open>setjmp\<close>, and signals that arrive
  while it runs; the branch of src/src/osx10_10_compat.c for
  Android itself, which is never compiled here; src/src/no-fortify.h and src/src/variadic.h,
  which select declarations of the host; what \<open>printf\<close>-like host functions make of their
  arguments; the 32-bit division helpers of the compiler, which are bound by name; the
  loader's choice among equal names of the table. \<open>getpwuid_r\<close>, \<open>setvbuf\<close> and other stubs of the
  table are entries of Symbols without a function of their own. The variable-size \<open>ifreq\<close>
  entries of Apple's \<open>SIOCGIFCONF\<close> are a list of entries, not bytes.
\<close>

section \<open>Where setjmp and longjmp of the table lead\<close>

text \<open>
  On 32-bit macOS the guest's \<open>setjmp\<close> and \<open>longjmp\<close> are the entry points of the assembly that
  save and restore the signal mask.
\<close>

lemma setjmp_entries:
  assumes "platform.bionic_setjmp p"
  shows "(''setjmp'', Shim ''bionic_setjmp'') \<in> set (get_shimmed_symbols p)" "is_setjmp ''bionic_setjmp''"
    "(''longjmp'', Shim ''bionic_longjmp'') \<in> set (get_shimmed_symbols p)" "is_longjmp ''bionic_longjmp''"
  using assms by (simp_all add: get_shimmed_symbols_def add_setjmp_shimmed_symbols_def)

end
